(* ===== verification/Prelude.thy ===== *)
theory Prelude
  imports Main
begin

text \<open>
  What every component of the model shares.

  \<^item> The base types: a \<open>uuid\<close> is its 128-bit value, an instant is an \<open>int\<close> of microseconds
    since the Unix epoch (the resolution PostgreSQL keeps), a Go string is its list of bytes.
  \<^item> Go errors. A sentinel (\<open>var ErrX = errors.New(..)\<close>) is a constructor, \<open>Wrap p e\<close> is
    \<open>fmt.Errorf("p: %w", e)\<close>, \<open>errors_is\<close> is \<open>errors.Is\<close>, \<open>error_text\<close> is \<open>err.Error()\<close>.
  \<^item> Operations: a function that may return an error and changes a state is an \<open>op\<close>, with
    \<open>bindE\<close> for \<open>x, err := f(); if err != nil { return err }\<close>, \<open>attempt\<close> where the code looks
    at the error itself, \<open>deferred\<close> and \<open>on_error\<close> for \<open>defer\<close>; and a small Hoare logic \<open>spec\<close>
    with its collection \<open>spec_intros\<close>.
  \<^item> Tables: a table is the list of its rows; \<open>upd_rows\<close> is \<open>UPDATE .. WHERE\<close>.
\<close>

section \<open>Base types\<close>

type_synonym uuid = nat
type_synonym time = int
type_synonym date = int

definition uuid_nil :: uuid where
  "uuid_nil = 0"

abbreviation second :: time where
  "second \<equiv> 1000000"

abbreviation minute :: time where
  "minute \<equiv> 60000000"

abbreviation hour :: time where
  "hour \<equiv> 3600000000"

abbreviation day :: time where
  "day \<equiv> 86400000000"

text \<open>Go's conversion to \<open>int32\<close>: the low 32 bits, read in two's complement.\<close>

definition int32 :: "int \<Rightarrow> int" where
  "int32 x = (x + 2 ^ 31) mod 2 ^ 32 - 2 ^ 31"

definition int64 :: "int \<Rightarrow> int" where
  "int64 x = (x + 2 ^ 63) mod 2 ^ 64 - 2 ^ 63"

lemma int32_id [simp]: "- (2 ^ 31) \<le> x \<Longrightarrow> x < 2 ^ 31 \<Longrightarrow> int32 x = x"
  by (simp add: int32_def)

lemma int32_bounds: "- (2 ^ 31) \<le> int32 x" "int32 x < 2 ^ 31"
  by (simp_all add: int32_def)

lemma int64_id [simp]: "- (2 ^ 63) \<le> x \<Longrightarrow> x < 2 ^ 63 \<Longrightarrow> int64 x = x"
  by (simp add: int64_def)

section \<open>Errors\<close>

datatype error =
    Driver string            \<comment> \<open>a connection to PostgreSQL or Redis that failed, with its text\<close>
  | PgError string string    \<comment> \<open>a \<open>pgconn.PgError\<close>: SQLSTATE and message\<close>
  | NoRows                   \<comment> \<open>\<open>pgx.ErrNoRows\<close>\<close>
  | ContextCanceled          \<comment> \<open>\<open>context.Canceled\<close>\<close>
  | DeadlineExceeded         \<comment> \<open>\<open>context.DeadlineExceeded\<close>\<close>
  | EndOfFile                \<comment> \<open>\<open>io.EOF\<close>\<close>
  | UnexpectedEOF            \<comment> \<open>\<open>io.ErrUnexpectedEOF\<close>\<close>
  | RedisNotFound            \<comment> \<open>\<open>redisx.ErrNotFound\<close>\<close>
  | QuotaExceeded | QuotaBusy | QuotaInvalid
  | ModelNotSelectable | ProviderNotFound
  | ConvNotFound | ConvConflict | ConvInvalid | ConvGuestScope
  | ChatInvalid | ChatNotFound | ChatConflict | ChatUnavailable | ChatSafetyBlocked
  | InvalidRefresh | RefreshReuse | SessionRevoked
  | IdentityConflict | ConsentRequired | GuestConflict | AccountUnavailable
  | GuestUnauthenticated
  | InvalidState | InvalidReturn | ConsentMissing | IdentityMismatch
  | AdminNotFound | AdminConflict | AdminInvalid
  | PrivacyNotFound | PrivacyConflict
  | TicketInvalid | TicketActorMismatch
  | ProviderError string bool int error  \<comment> \<open>\<open>*provider.Error\<close>: code, retryable, status, cause\<close>
  | Msg string               \<comment> \<open>an \<open>errors.New\<close> in place\<close>
  | Wrap string error        \<comment> \<open>\<open>fmt.Errorf("..: %w", err)\<close>\<close>

fun errors_is :: "error \<Rightarrow> error \<Rightarrow> bool" where
  "errors_is (Wrap p e) t = (Wrap p e = t \<or> errors_is e t)"
| "errors_is (ProviderError c r s e) t = (ProviderError c r s e = t \<or> errors_is e t)"
| "errors_is e t = (e = t)"

text \<open>\<open>errors.As\<close> with a \<open>*pgconn.PgError\<close> target: the SQLSTATE, if the chain holds one.\<close>

fun pg_code :: "error \<Rightarrow> string option" where
  "pg_code (PgError c m) = Some c"
| "pg_code (Wrap p e) = pg_code e"
| "pg_code (ProviderError c r s e) = pg_code e"
| "pg_code _ = None"

fun error_text :: "error \<Rightarrow> string" where
  "error_text (Driver m) = m"
| "error_text (PgError c m) = ''ERROR: '' @ m @ '' (SQLSTATE '' @ c @ '')''"
| "error_text NoRows = ''no rows in result set''"
| "error_text ContextCanceled = ''context canceled''"
| "error_text DeadlineExceeded = ''context deadline exceeded''"
| "error_text EndOfFile = ''EOF''"
| "error_text UnexpectedEOF = ''unexpected EOF''"
| "error_text RedisNotFound = ''redis value not found''"
| "error_text QuotaExceeded = ''quota exceeded''"
| "error_text QuotaBusy = ''actor already has an active generation''"
| "error_text QuotaInvalid = ''invalid quota request''"
| "error_text ModelNotSelectable = ''model is not selectable''"
| "error_text ProviderNotFound = ''model provider not found''"
| "error_text ConvNotFound = ''conversation not found''"
| "error_text ConvConflict = ''conversation conflicts with current state''"
| "error_text ConvInvalid = ''conversation input is invalid''"
| "error_text ConvGuestScope = ''operation is unavailable to guest''"
| "error_text ChatInvalid = ''invalid chat command''"
| "error_text ChatNotFound = ''chat generation not found''"
| "error_text ChatConflict = ''chat generation conflicts with current state''"
| "error_text ChatUnavailable = ''provider unavailable''"
| "error_text ChatSafetyBlocked = ''chat content blocked by safety policy''"
| "error_text InvalidRefresh = ''refresh token is invalid or expired''"
| "error_text RefreshReuse = ''refresh token reuse detected''"
| "error_text SessionRevoked = ''session is revoked''"
| "error_text IdentityConflict = ''verified email belongs to a different identity''"
| "error_text ConsentRequired = ''current terms and privacy consent are required''"
| "error_text GuestConflict = ''guest session was migrated to a different user''"
| "error_text AccountUnavailable = ''user account is not active''"
| "error_text GuestUnauthenticated = ''guest session is missing, expired, or migrated''"
| "error_text InvalidState = ''OAuth state is invalid, expired, or already used''"
| "error_text InvalidReturn = ''OAuth return path is not allowed''"
| "error_text ConsentMissing = ''terms and privacy acceptance are required''"
| "error_text IdentityMismatch = ''reauthentication identity does not match''"
| "error_text AdminNotFound = ''admin resource not found''"
| "error_text AdminConflict = ''admin resource version conflict''"
| "error_text AdminInvalid = ''admin input is invalid''"
| "error_text PrivacyNotFound = ''account deletion not found''"
| "error_text PrivacyConflict = ''account deletion state conflict''"
| "error_text TicketInvalid = ''WebSocket ticket is invalid''"
| "error_text TicketActorMismatch = ''WebSocket ticket actor mismatch''"
| "error_text (ProviderError c r s e) = c"
| "error_text (Msg m) = m"
| "error_text (Wrap p e) = p @ '': '' @ error_text e"

lemma errors_is_refl [simp]: "errors_is e e"
  by (cases e) auto

section \<open>Operations on a state that may fail\<close>

type_synonym ('s, 'a) op = "'s \<Rightarrow> (error + 'a) \<times> 's"

definition ok :: "'a \<Rightarrow> ('s, 'a) op" where
  "ok x s = (Inr x, s)"

definition fail :: "error \<Rightarrow> ('s, 'a) op" where
  "fail e s = (Inl e, s)"

definition bindE :: "('s, 'a) op \<Rightarrow> ('a \<Rightarrow> ('s, 'b) op) \<Rightarrow> ('s, 'b) op" where
  "bindE m f s = (case m s of (Inl e, s') \<Rightarrow> (Inl e, s') | (Inr x, s') \<Rightarrow> f x s')"

text \<open>The result with its error as a value, for code that branches on \<open>err\<close>.\<close>

definition attempt :: "('s, 'a) op \<Rightarrow> ('s, error + 'a) op" where
  "attempt m s = (case m s of (r, s') \<Rightarrow> (Inr r, s'))"

text \<open>\<open>_, _ = f()\<close>: run for its effect, the result and the error dropped.\<close>

definition dropped :: "('s, 'a) op \<Rightarrow> ('s, unit) op" where
  "dropped m s = (Inr (), snd (m s))"

definition wrap_err :: "string \<Rightarrow> ('s, 'a) op \<Rightarrow> ('s, 'a) op" where
  "wrap_err p m s = (case m s of (Inl e, s') \<Rightarrow> (Inl (Wrap p e), s') | (Inr x, s') \<Rightarrow> (Inr x, s'))"

text \<open>\<open>defer\<close>: the second operation runs after the first, whatever it returned.\<close>

definition deferred :: "('s, 'b) op \<Rightarrow> ('s, 'a) op \<Rightarrow> ('s, 'a) op" where
  "deferred c m s = (case m s of (r, s') \<Rightarrow> (r, snd (c s')))"

text \<open>\<open>defer func() { if release { .. } }\<close>: only where the first one failed.\<close>

definition on_error :: "('s, 'b) op \<Rightarrow> ('s, 'a) op \<Rightarrow> ('s, 'a) op" where
  "on_error c m s =
     (case m s of (Inl e, s') \<Rightarrow> (Inl e, snd (c s')) | (Inr x, s') \<Rightarrow> (Inr x, s'))"

text \<open>The same sequence for results alone, and a result computed without touching the state.\<close>

definition bindS :: "error + 'a \<Rightarrow> ('a \<Rightarrow> error + 'b) \<Rightarrow> error + 'b" where
  "bindS r f = (case r of Inl e \<Rightarrow> Inl e | Inr x \<Rightarrow> f x)"

definition of_sum :: "error + 'a \<Rightarrow> ('s, 'a) op" where
  "of_sum r s = (r, s)"

lemmas op_defs = of_sum_def ok_def fail_def bindE_def attempt_def dropped_def wrap_err_def
  deferred_def on_error_def

lemma bindE_ok [simp]: "bindE (ok x) f = f x"
  by (rule ext) (simp add: bindE_def ok_def)

lemma bindE_fail [simp]: "bindE (fail e) f = fail e"
  by (rule ext) (simp add: bindE_def fail_def)

subsection \<open>Taking a run apart\<close>

text \<open>
  Elimination rules for a run that succeeded: \<open>elim op_elims\<close> turns one hypothesis about a
  composed operation into the runs of its steps.
\<close>

named_theorems op_elims "elimination rules for successful runs"

lemma ok_eq [simp]: "ok x s = (r, s') \<longleftrightarrow> r = Inr x \<and> s' = s"
  by (auto simp: ok_def)

lemma run_ok [simp]: "fst (ok x s) = Inr x" "snd (ok x s) = s"
  by (simp_all add: ok_def)

lemma run_fail [simp]: "fst (fail e s) = Inl e" "snd (fail e s) = s"
  by (simp_all add: fail_def)

lemma run_of_sum [simp]: "fst (of_sum r s) = r" "snd (of_sum r s) = s"
  by (simp_all add: of_sum_def)

lemma fail_eq [simp]: "fail e s = (r, s') \<longleftrightarrow> r = Inl e \<and> s' = s"
  by (auto simp: fail_def)

lemma result_cases:
  obtains (error) e s where "p = (Inl e, s)" | (ok) x s where "p = (Inr x, s)"
  by (metis old.prod.exhaust old.sum.exhaust)

lemma of_sum_eq [simp]: "of_sum r s = (r', s') \<longleftrightarrow> r' = r \<and> s' = s"
  by (auto simp: of_sum_def)

lemma bindS_simps [simp]: "bindS (Inl e) f = Inl e" "bindS (Inr x) f = f x"
  by (simp_all add: bindS_def)

lemma bindS_okE [op_elims]:
  assumes "bindS r f = Inr y"
  obtains x where "r = Inr x" and "f x = Inr y"
  using assms by (cases r) auto

lemma bindE_okE [op_elims]:
  assumes "bindE m f s = (Inr y, s')"
  obtains x s1 where "m s = (Inr x, s1)" and "f x s1 = (Inr y, s')"
  using assms by (auto simp: bindE_def split: prod.splits sum.splits)

lemma wrap_err_okE [op_elims]:
  assumes "wrap_err p m s = (Inr y, s')"
  obtains "m s = (Inr y, s')"
  using assms by (auto simp: wrap_err_def split: prod.splits sum.splits)

lemma on_error_okE [op_elims]:
  assumes "on_error c m s = (Inr y, s')"
  obtains "m s = (Inr y, s')"
  using assms by (auto simp: on_error_def split: prod.splits sum.splits)

lemma deferred_okE [op_elims]:
  assumes "deferred c m s = (Inr y, s')"
  obtains s1 where "m s = (Inr y, s1)" and "s' = snd (c s1)"
  using assms by (auto simp: deferred_def split: prod.splits)

lemma attempt_okE [op_elims]:
  assumes "attempt m s = (Inr y, s')"
  obtains "m s = (y, s')"
  using assms by (auto simp: attempt_def split: prod.splits)

lemma dropped_okE [op_elims]:
  assumes "dropped m s = (Inr y, s')"
  obtains "s' = snd (m s)"
  using assms by (auto simp: dropped_def)

text \<open>An error of a sequence is an error of one of its steps.\<close>

lemma bindE_errE:
  assumes "bindE m f s = (Inl e, s')"
  obtains "m s = (Inl e, s')" | x s1 where "m s = (Inr x, s1)" and "f x s1 = (Inl e, s')"
  using assms by (auto simp: bindE_def split: prod.splits sum.splits)

lemma bindE_run [simp]: "m s = (Inr x, s1) \<Longrightarrow> bindE m f s = f x s1"
  by (simp add: bindE_def)

lemma bindE_stop [simp]: "m s = (Inl e, s1) \<Longrightarrow> bindE m f s = (Inl e, s1)"
  by (simp add: bindE_def)

subsection \<open>A Hoare logic with an error post-condition\<close>

definition spec ::
  "('s \<Rightarrow> bool) \<Rightarrow> ('s, 'a) op \<Rightarrow> ('a \<Rightarrow> 's \<Rightarrow> bool) \<Rightarrow> (error \<Rightarrow> 's \<Rightarrow> bool) \<Rightarrow> bool" where
  "spec P m Q E \<longleftrightarrow>
     (\<forall>s. P s \<longrightarrow> (case m s of (Inl e, s') \<Rightarrow> E e s' | (Inr x, s') \<Rightarrow> Q x s'))"

definition keeps :: "('s \<Rightarrow> bool) \<Rightarrow> ('s, 'a) op \<Rightarrow> bool" where
  "keeps I m \<longleftrightarrow> (\<forall>s. I s \<longrightarrow> I (snd (m s)))"

named_theorems keeps_intros "rules that an operation keeps an invariant"
named_theorems spec_intros "rules of the Hoare logic"

lemma keepsD: "keeps I m \<Longrightarrow> I s \<Longrightarrow> I (snd (m s))"
  by (simp add: keeps_def)

lemma keepsD_eq: "keeps I m \<Longrightarrow> I s \<Longrightarrow> m s = (r, s') \<Longrightarrow> I s'"
  by (metis keepsD snd_conv)

lemma keeps_ok [keeps_intros]: "keeps I (ok x)"
  by (simp add: keeps_def ok_def)

lemma keeps_fail [keeps_intros]: "keeps I (fail e)"
  by (simp add: keeps_def fail_def)

lemma keeps_of_sum [keeps_intros]: "keeps I (of_sum r)"
  by (simp add: keeps_def of_sum_def)

lemma keeps_bindE [keeps_intros]:
  "keeps I m \<Longrightarrow> (\<And>x. keeps I (f x)) \<Longrightarrow> keeps I (bindE m f)"
  by (simp add: keeps_def bindE_def split: prod.splits sum.splits) (metis snd_conv)

lemma keeps_attempt [keeps_intros]: "keeps I m \<Longrightarrow> keeps I (attempt m)"
  by (simp add: keeps_def attempt_def split: prod.splits) (metis snd_conv)

lemma keeps_dropped [keeps_intros]: "keeps I m \<Longrightarrow> keeps I (dropped m)"
  by (simp add: keeps_def dropped_def)

lemma keeps_wrap_err [keeps_intros]: "keeps I m \<Longrightarrow> keeps I (wrap_err p m)"
  by (simp add: keeps_def wrap_err_def split: prod.splits sum.splits) (metis snd_conv)

lemma keeps_deferred [keeps_intros]: "keeps I m \<Longrightarrow> keeps I c \<Longrightarrow> keeps I (deferred c m)"
  by (simp add: keeps_def deferred_def split: prod.splits) (metis snd_conv)

lemma keeps_on_error [keeps_intros]: "keeps I m \<Longrightarrow> keeps I c \<Longrightarrow> keeps I (on_error c m)"
  by (simp add: keeps_def on_error_def split: prod.splits sum.splits) (metis snd_conv)

lemma keeps_if [keeps_intros]: "keeps I a \<Longrightarrow> keeps I b \<Longrightarrow> keeps I (if c then a else b)"
  by simp

lemma keeps_option [keeps_intros]:
  "keeps I a \<Longrightarrow> (\<And>x. keeps I (f x)) \<Longrightarrow> keeps I (case v of None \<Rightarrow> a | Some x \<Rightarrow> f x)"
  by (cases v) auto

lemma keeps_sum [keeps_intros]:
  "(\<And>e. keeps I (f e)) \<Longrightarrow> (\<And>x. keeps I (g x)) \<Longrightarrow>
   keeps I (case v of Inl e \<Rightarrow> f e | Inr x \<Rightarrow> g x)"
  by (cases v) auto

lemma keeps_prod [keeps_intros]:
  "(\<And>a b. keeps I (f a b)) \<Longrightarrow> keeps I (case v of (a, b) \<Rightarrow> f a b)"
  by (cases v) auto

lemma keeps_let [keeps_intros]: "(\<And>x. keeps I (f x)) \<Longrightarrow> keeps I (let x = v in f x)"
  by (simp add: Let_def)

lemma keeps_conj: "keeps I m \<Longrightarrow> keeps J m \<Longrightarrow> keeps (\<lambda>s. I s \<and> J s) m"
  by (simp add: keeps_def)

lemma specI:
  "(\<And>s e s'. P s \<Longrightarrow> m s = (Inl e, s') \<Longrightarrow> E e s') \<Longrightarrow>
   (\<And>s x s'. P s \<Longrightarrow> m s = (Inr x, s') \<Longrightarrow> Q x s') \<Longrightarrow> spec P m Q E"
  by (auto simp: spec_def split: prod.splits sum.splits)

lemma spec_errD: "spec P m Q E \<Longrightarrow> P s \<Longrightarrow> m s = (Inl e, s') \<Longrightarrow> E e s'"
  by (fastforce simp: spec_def)

lemma spec_okD: "spec P m Q E \<Longrightarrow> P s \<Longrightarrow> m s = (Inr x, s') \<Longrightarrow> Q x s'"
  by (fastforce simp: spec_def)

lemma spec_keeps: "keeps I m \<Longrightarrow> spec I m (\<lambda>_. I) (\<lambda>_. I)"
  by (rule specI) (auto dest: keepsD_eq)

lemma spec_ok [spec_intros]: "(\<And>s. P s \<Longrightarrow> Q x s) \<Longrightarrow> spec P (ok x) Q E"
  by (simp add: spec_def ok_def)

lemma spec_fail [spec_intros]: "(\<And>s. P s \<Longrightarrow> E e s) \<Longrightarrow> spec P (fail e) Q E"
  by (simp add: spec_def fail_def)

lemma spec_bindE:
  "spec P m R E \<Longrightarrow> (\<And>x. spec (R x) (f x) Q E) \<Longrightarrow> spec P (bindE m f) Q E"
  by (fastforce simp: spec_def bindE_def split: prod.splits sum.splits)

lemma spec_bindE_keeps:
  "keeps P m \<Longrightarrow> (\<And>e s. P s \<Longrightarrow> E e s) \<Longrightarrow> (\<And>x. spec P (f x) Q E) \<Longrightarrow> spec P (bindE m f) Q E"
  by (rule spec_bindE [where R = "\<lambda>_. P", OF specI]) (auto dest: keepsD_eq)

lemma spec_if [spec_intros]:
  "(c \<Longrightarrow> spec P a Q E) \<Longrightarrow> (\<not> c \<Longrightarrow> spec P b Q E) \<Longrightarrow> spec P (if c then a else b) Q E"
  by simp

lemma spec_weaken:
  "spec P m Q E \<Longrightarrow> (\<And>s. P' s \<Longrightarrow> P s) \<Longrightarrow> (\<And>x s. Q x s \<Longrightarrow> Q' x s) \<Longrightarrow>
   (\<And>e s. E e s \<Longrightarrow> E' e s) \<Longrightarrow> spec P' m Q' E'"
  by (fastforce simp: spec_def split: prod.splits sum.splits)

section \<open>Tables\<close>

definition upd_rows :: "('r \<Rightarrow> bool) \<Rightarrow> ('r \<Rightarrow> 'r) \<Rightarrow> 'r list \<Rightarrow> 'r list" where
  "upd_rows P f t = map (\<lambda>r. if P r then f r else r) t"

definition count_rows :: "('r \<Rightarrow> bool) \<Rightarrow> 'r list \<Rightarrow> nat" where
  "count_rows P t = length (filter P t)"

named_theorems table_simps "rewriting of queries over tables"

lemma upd_rows_Nil [simp]: "upd_rows P f [] = []"
  by (simp add: upd_rows_def)

lemma upd_rows_Cons [simp]:
  "upd_rows P f (r # t) = (if P r then f r else r) # upd_rows P f t"
  by (simp add: upd_rows_def)

lemma set_upd_rows: "set (upd_rows P f t) = (\<lambda>r. if P r then f r else r) ` set t"
  by (simp add: upd_rows_def)

lemma length_upd_rows [simp]: "length (upd_rows P f t) = length t"
  by (simp add: upd_rows_def)

lemma map_upd_rows_same:
  "(\<And>r. P r \<Longrightarrow> k (f r) = k r) \<Longrightarrow> map k (upd_rows P f t) = map k t"
  by (induction t) auto

lemma upd_rows_none: "(\<And>r. r \<in> set t \<Longrightarrow> \<not> P r) \<Longrightarrow> upd_rows P f t = t"
  by (induction t) auto

lemma find_upd_rows:
  "(\<And>r. Q (if P r then f r else r) = Q r) \<Longrightarrow>
   find Q (upd_rows P f t) = map_option (\<lambda>r. if P r then f r else r) (find Q t)"
  by (induction t) auto

lemma find_Some_iff_mem: "find P t = Some r \<Longrightarrow> r \<in> set t \<and> P r"
  by (induction t) (auto split: if_splits)

lemma find_None_mem: "find P t = None \<longleftrightarrow> (\<forall>r \<in> set t. \<not> P r)"
  by (induction t) auto

lemma find_append: "find P (s @ t) = (case find P s of None \<Rightarrow> find P t | Some r \<Rightarrow> Some r)"
  by (induction s) auto

lemma find_key_unique:
  "distinct (map k t) \<Longrightarrow> r \<in> set t \<Longrightarrow> find (\<lambda>x. k x = k r) t = Some r"
  by (induction t) (auto simp: rev_image_eqI)

lemma count_rows_append [table_simps]:
  "count_rows P (s @ t) = count_rows P s + count_rows P t"
  by (simp add: count_rows_def)

lemma count_rows_simps [table_simps]:
  "count_rows P [] = 0"
  "count_rows P (r # t) = (if P r then 1 else 0) + count_rows P t"
  by (simp_all add: count_rows_def)

lemma count_rows_0: "count_rows P t = 0 \<longleftrightarrow> (\<forall>r \<in> set t. \<not> P r)"
  by (auto simp: count_rows_def filter_empty_conv)

end
