(* ===== verification/Gostring.thy ===== *)
theory Gostring
  imports Prelude "HOL-Library.Char_ord"
begin

text \<open>
  The parts of Go's \<open>strings\<close>, \<open>unicode/utf8\<close> and \<open>time\<close> packages that the program uses.
  A string is its list of bytes. \<open>decode_runes\<close> is the loop of \<open>for _, r := range s\<close>:
  an invalid byte yields \<open>RuneError\<close> (0xFFFD) and advances by one, as \<open>utf8.DecodeRune\<close> does.
\<close>

section \<open>UTF-8\<close>

abbreviation byte :: "char \<Rightarrow> nat" where
  "byte c \<equiv> of_char c"

definition is_cont :: "char \<Rightarrow> bool" where
  "is_cont c \<longleftrightarrow> 128 \<le> byte c \<and> byte c < 192"

definition rune_error :: nat where
  "rune_error = 65533"

text \<open>
  The acceptable second byte after the first byte \<open>b\<close> (Go's \<open>acceptRanges\<close>): shorter after
  E0, F0 (overlong forms), ED (surrogates) and F4 (above U+10FFFF).
\<close>

definition second_ok :: "nat \<Rightarrow> nat \<Rightarrow> bool" where
  "second_ok b c \<longleftrightarrow>
     (if b = 224 then 160 \<le> c \<and> c < 192
      else if b = 237 then 128 \<le> c \<and> c < 160
      else if b = 240 then 144 \<le> c \<and> c < 192
      else if b = 244 then 128 \<le> c \<and> c < 144
      else 128 \<le> c \<and> c < 192)"

text \<open>One rune from the front of a non-empty string: the rune and its width in bytes.\<close>

definition decode_rune :: "string \<Rightarrow> nat \<times> nat" where
  "decode_rune s =
     (case s of
        [] \<Rightarrow> (rune_error, 0)
      | a # s1 \<Rightarrow>
          (let b = byte a in
           if b < 128 then (b, 1)
           else if b < 194 \<or> 245 \<le> b then (rune_error, 1)
           else (case s1 of
                   [] \<Rightarrow> (rune_error, 1)
                 | c # s2 \<Rightarrow>
                     if \<not> second_ok b (byte c) then (rune_error, 1)
                     else if b < 224 then ((b mod 32) * 64 + byte c mod 64, 2)
                     else (case s2 of
                             [] \<Rightarrow> (rune_error, 1)
                           | d # s3 \<Rightarrow>
                               if \<not> is_cont d then (rune_error, 1)
                               else if b < 240
                               then ((b mod 16) * 4096 + (byte c mod 64) * 64 + byte d mod 64, 3)
                               else (case s3 of
                                       [] \<Rightarrow> (rune_error, 1)
                                     | e # _ \<Rightarrow>
                                         if \<not> is_cont e then (rune_error, 1)
                                         else ((b mod 8) * 262144 + (byte c mod 64) * 4096
                                               + (byte d mod 64) * 64 + byte e mod 64, 4))))))"

lemma decode_rune_width: "s \<noteq> [] \<Longrightarrow> 1 \<le> snd (decode_rune s) \<and> snd (decode_rune s) \<le> length s"
  by (cases s) (auto simp: decode_rune_def Let_def split: list.splits)

lemma decode_rune_pos: "(r, n) = decode_rune s \<Longrightarrow> s \<noteq> [] \<Longrightarrow> 0 < n"
  using decode_rune_width [of s] by (cases "decode_rune s") auto

text \<open>The runes of a string, each with the bytes it was decoded from.\<close>

function decode_runes :: "string \<Rightarrow> (nat \<times> string) list" where
  "decode_runes s =
     (if s = [] then []
      else (case decode_rune s of (r, n) \<Rightarrow> (r, take n s) # decode_runes (drop n s)))"
  by pat_completeness auto
termination
  by (relation "measure length") (auto dest: decode_rune_pos)

declare decode_runes.simps [simp del]

lemma decode_runes_Nil [simp]: "decode_runes [] = []"
  by (simp add: decode_runes.simps)

lemma concat_decode_runes: "concat (map snd (decode_runes s)) = s"
proof (induction s rule: decode_runes.induct)
  case (1 s)
  then show ?case
    by (subst decode_runes.simps) (auto split: prod.splits)
qed

lemma length_decode_runes: "length (decode_runes s) \<le> length s"
proof (induction s rule: decode_runes.induct)
  case (1 s)
  show ?case
  proof (cases "s = []")
    case False
    obtain r n where d: "decode_rune s = (r, n)" by fastforce
    with False decode_rune_width [of s] have "1 \<le> n" "n \<le> length s" by auto
    with "1" [OF False] False d show ?thesis
      by (subst decode_runes.simps) fastforce
  qed simp
qed

lemma decode_runes_ascii: "byte c < 128 \<Longrightarrow> decode_runes (c # s) = (byte c, [c]) # decode_runes s"
  by (subst decode_runes.simps) (simp add: decode_rune_def Let_def)

text \<open>\<open>utf8.RuneCountInString\<close>, \<open>utf8.ValidString\<close> and \<open>[]rune(s)\<close> with a slice of it.\<close>

definition rune_count :: "string \<Rightarrow> nat" where
  "rune_count s = length (decode_runes s)"

definition valid_utf8 :: "string \<Rightarrow> bool" where
  "valid_utf8 s = list_all (\<lambda>(r, bs). r \<noteq> rune_error \<or> length bs = 3) (decode_runes s)"

definition encode_rune :: "nat \<Rightarrow> string" where
  "encode_rune r =
     (if r < 128 then [char_of r]
      else if r < 2048 then [char_of (192 + r div 64), char_of (128 + r mod 64)]
      else if r < 65536
      then [char_of (224 + r div 4096), char_of (128 + r div 64 mod 64), char_of (128 + r mod 64)]
      else [char_of (240 + r div 262144), char_of (128 + r div 4096 mod 64),
            char_of (128 + r div 64 mod 64), char_of (128 + r mod 64)])"

definition take_runes :: "nat \<Rightarrow> string \<Rightarrow> string" where
  "take_runes n s = concat (map (encode_rune \<circ> fst) (take n (decode_runes s)))"

section \<open>Package strings\<close>

text \<open>\<open>unicode.IsSpace\<close> and \<open>unicode.IsControl\<close> on code points.\<close>

definition is_space :: "nat \<Rightarrow> bool" where
  "is_space r \<longleftrightarrow> (9 \<le> r \<and> r \<le> 13) \<or> r = 32 \<or> r = 133 \<or> r = 160 \<or> r = 5760
     \<or> (8192 \<le> r \<and> r \<le> 8202) \<or> r = 8232 \<or> r = 8233 \<or> r = 8239 \<or> r = 8287 \<or> r = 12288"

definition is_control :: "nat \<Rightarrow> bool" where
  "is_control r \<longleftrightarrow> r < 32 \<or> (127 \<le> r \<and> r < 160)"

definition trim_space :: "string \<Rightarrow> string" where
  "trim_space s =
     (let rs = dropWhile (is_space \<circ> fst) (decode_runes s)
      in concat (map snd (rev (dropWhile (is_space \<circ> fst) (rev rs)))))"

text \<open>
  \<open>strings.Fields\<close> followed by \<open>strings.Join(.., " ")\<close>: the maximal runs without white space.
\<close>

fun fields_of :: "(nat \<times> string) list \<Rightarrow> string \<Rightarrow> string list" where
  "fields_of [] w = (if w = [] then [] else [w])"
| "fields_of ((r, bs) # rs) w =
     (if is_space r then (if w = [] then fields_of rs [] else w # fields_of rs [])
      else fields_of rs (w @ bs))"

definition fields :: "string \<Rightarrow> string list" where
  "fields s = fields_of (decode_runes s) []"

fun join :: "string \<Rightarrow> string list \<Rightarrow> string" where
  "join sep [] = []"
| "join sep [x] = x"
| "join sep (x # y # xs) = x @ sep @ join sep (y # xs)"

fun has_prefix :: "string \<Rightarrow> string \<Rightarrow> bool" where
  "has_prefix s [] = True"
| "has_prefix [] (p # ps) = False"
| "has_prefix (c # s) (p # ps) = (c = p \<and> has_prefix s ps)"

fun str_contains :: "string \<Rightarrow> string \<Rightarrow> bool" where
  "str_contains [] sub = has_prefix [] sub"
| "str_contains (c # s) sub = (has_prefix (c # s) sub \<or> str_contains s sub)"

text \<open>\<open>strings.ToLower\<close> on the ASCII letters; the texts it is applied to here are ASCII.\<close>

definition ascii_lower :: "char \<Rightarrow> char" where
  "ascii_lower c = (if 65 \<le> byte c \<and> byte c \<le> 90 then char_of (byte c + 32) else c)"

definition to_lower :: "string \<Rightarrow> string" where
  "to_lower s = map ascii_lower s"

text \<open>\<open>strings.EqualFold\<close> against letters of ASCII: the long s and the Kelvin sign fold to them too.\<close>

definition fold_rune :: "nat \<Rightarrow> nat" where
  "fold_rune r = (if 65 \<le> r \<and> r \<le> 90 then r + 32 else if r = 0x17F then 115
                  else if r = 0x212A then 107 else r)"

definition equal_fold :: "string \<Rightarrow> string \<Rightarrow> bool" where
  "equal_fold s t \<longleftrightarrow> map (fold_rune \<circ> fst) (decode_runes s) = map (fold_rune \<circ> fst) (decode_runes t)"

text \<open>\<open>strings.FieldsFunc\<close> for a separator of ASCII characters, and \<open>strings.Trim\<close> of such.\<close>

fun split_fields :: "(char \<Rightarrow> bool) \<Rightarrow> string \<Rightarrow> string \<Rightarrow> string list" where
  "split_fields P [] w = (if w = [] then [] else [w])"
| "split_fields P (c # s) w =
     (if P c then (if w = [] then split_fields P s [] else w # split_fields P s [])
      else split_fields P s (w @ [c]))"

definition fields_func :: "(char \<Rightarrow> bool) \<Rightarrow> string \<Rightarrow> string list" where
  "fields_func P s = split_fields P s []"

definition trim_chars :: "string \<Rightarrow> string \<Rightarrow> string" where
  "trim_chars cs s = rev (dropWhile (\<lambda>c. c \<in> set cs) (rev (dropWhile (\<lambda>c. c \<in> set cs) s)))"

definition replace_char :: "char \<Rightarrow> char \<Rightarrow> string \<Rightarrow> string" where
  "replace_char a b s = map (\<lambda>c. if c = a then b else c) s"

lemma trim_space_ascii_id:
  assumes "\<forall>c \<in> set s. byte c < 128 \<and> \<not> is_space (byte c)"
  shows "trim_space s = s"
proof -
  have "\<forall>p \<in> set (decode_runes s). \<not> is_space (fst p)"
    using assms by (induction s) (auto simp: decode_runes_ascii)
  then have "\<And>xs. set xs = set (decode_runes s) \<Longrightarrow> dropWhile (is_space \<circ> fst) xs = xs"
    by (metis comp_apply dropWhile_eq_self_iff hd_in_set)
  then have "dropWhile (is_space \<circ> fst) (decode_runes s) = decode_runes s"
    "dropWhile (is_space \<circ> fst) (rev (decode_runes s)) = rev (decode_runes s)"
    by simp_all
  then show ?thesis
    by (simp add: trim_space_def concat_decode_runes)
qed

lemma length_concat_dropWhile: "length (concat (map snd (dropWhile P xs))) \<le> length (concat (map snd xs))"
  by (induction xs) auto

lemma length_trim_space: "length (trim_space s) \<le> length s"
proof -
  let ?rs = "dropWhile (is_space \<circ> fst) (decode_runes s)"
  have "length (trim_space s) = length (concat (map snd (dropWhile (is_space \<circ> fst) (rev ?rs))))"
    by (simp add: trim_space_def Let_def length_concat rev_map [symmetric] sum_list_rev)
  also have "\<dots> \<le> length (concat (map snd (rev ?rs)))"
    by (rule length_concat_dropWhile)
  also have "\<dots> = length (concat (map snd ?rs))"
    by (simp add: length_concat rev_map [symmetric] sum_list_rev)
  also have "\<dots> \<le> length (concat (map snd (decode_runes s)))"
    by (rule length_concat_dropWhile)
  finally show ?thesis
    by (simp add: concat_decode_runes)
qed

section \<open>Decimal and hexadecimal\<close>

definition digit_char :: "nat \<Rightarrow> char" where
  "digit_char d = char_of (if d < 10 then 48 + d else 87 + d)"

fun hex_fixed :: "nat \<Rightarrow> nat \<Rightarrow> string" where
  "hex_fixed 0 n = []"
| "hex_fixed (Suc k) n = hex_fixed k (n div 16) @ [digit_char (n mod 16)]"

text \<open>\<open>uuid.UUID.String\<close>: 8-4-4-4-12 hexadecimal digits.\<close>

definition uuid_string :: "uuid \<Rightarrow> string" where
  "uuid_string u =
     hex_fixed 8 (u div 16 ^ 24) @ ''-'' @ hex_fixed 4 (u div 16 ^ 20) @ ''-'' @
     hex_fixed 4 (u div 16 ^ 16) @ ''-'' @ hex_fixed 4 (u div 16 ^ 12) @ ''-'' @ hex_fixed 12 u"

lemma length_hex_fixed [simp]: "length (hex_fixed k n) = k"
  by (induction k arbitrary: n) auto

lemma byte_digit_char: "d < 16 \<Longrightarrow> byte (digit_char d) = (if d < 10 then 48 + d else 87 + d)"
  by (simp add: digit_char_def)

lemma digit_char_inj:
  assumes "a < 16" and "b < 16" and "digit_char a = digit_char b"
  shows "a = b"
proof -
  have "byte (digit_char a) = byte (digit_char b)"
    using assms(3) by (rule arg_cong)
  then show ?thesis
    using assms(1,2) by (simp add: byte_digit_char split: if_splits)
qed

lemma base16_eq: "a < 16 \<Longrightarrow> b < 16 \<Longrightarrow> 16 * x + a = 16 * y + b \<longleftrightarrow> x = y \<and> a = (b::nat)"
  by (rule linorder_cases [of x y]) auto

lemma hex_fixed_eq: "hex_fixed k m = hex_fixed k n \<longleftrightarrow> m mod 16 ^ k = n mod 16 ^ k"
proof (induction k arbitrary: m n)
  case (Suc k)
  have "hex_fixed (Suc k) m = hex_fixed (Suc k) n \<longleftrightarrow>
      m div 16 mod 16 ^ k = n div 16 mod 16 ^ k \<and> m mod 16 = n mod 16"
    using Suc digit_char_inj [of "m mod 16" "n mod 16"] by auto
  also have "\<dots> \<longleftrightarrow> m mod 16 ^ Suc k = n mod 16 ^ Suc k"
    by (simp add: mod_mult2_eq base16_eq)
  finally show ?case .
qed simp

lemma div_mod_extend:
  "u div (a * b) = v div (a * b) \<Longrightarrow> u div a mod b = v div a mod b \<Longrightarrow> u div a = v div (a::nat)"
  by (metis div_mult2_eq div_mult_mod_eq)

lemma uuid_string_inj:
  assumes "u < 2 ^ 128" and "v < 2 ^ 128" and "uuid_string u = uuid_string v"
  shows "u = v"
proof -
  have parts: "u div 16 ^ 24 mod 16 ^ 8 = v div 16 ^ 24 mod 16 ^ 8"
    "u div 16 ^ 20 mod 16 ^ 4 = v div 16 ^ 20 mod 16 ^ 4"
    "u div 16 ^ 16 mod 16 ^ 4 = v div 16 ^ 16 mod 16 ^ 4"
    "u div 16 ^ 12 mod 16 ^ 4 = v div 16 ^ 12 mod 16 ^ 4"
    "u mod 16 ^ 12 = v mod 16 ^ 12"
    using assms(3) by (simp_all only: uuid_string_def append_eq_append_conv hex_fixed_eq
        length_hex_fixed list.inject append.simps simp_thms)
  have "u div 16 ^ 24 < 16 ^ 8" "v div 16 ^ 24 < 16 ^ 8"
    using assms by simp_all
  with parts(1) have "u div 16 ^ 24 = v div 16 ^ 24" by simp
  with parts(2) have "u div 16 ^ 20 = v div 16 ^ 20"
    using div_mod_extend [of u "16 ^ 20" "16 ^ 4" v] by simp
  with parts(3) have "u div 16 ^ 16 = v div 16 ^ 16"
    using div_mod_extend [of u "16 ^ 16" "16 ^ 4" v] by simp
  with parts(4) have "u div 16 ^ 12 = v div 16 ^ 12"
    using div_mod_extend [of u "16 ^ 12" "16 ^ 4" v] by simp
  with parts(5) show ?thesis
    by (metis div_mult_mod_eq)
qed

section \<open>Decimal numbers and times\<close>

text \<open>\<open>strconv.FormatInt(n, 10)\<close> and \<open>%0kd\<close>.\<close>

fun nat_string :: "nat \<Rightarrow> string" where
  "nat_string n = (if n < 10 then [digit_char n] else nat_string (n div 10) @ [digit_char (n mod 10)])"

declare nat_string.simps [simp del]

definition int_string :: "int \<Rightarrow> string" where
  "int_string i = (if i < 0 then ''-'' @ nat_string (nat (- i)) else nat_string (nat i))"

definition pad_number :: "nat \<Rightarrow> nat \<Rightarrow> string" where
  "pad_number k n = (let s = nat_string n in replicate (k - length s) CHR ''0'' @ s)"

text \<open>
  The proleptic Gregorian date of a day counted from 1970-01-01 (what \<open>time.Time.Date\<close>
  returns), by eras of 400 years that start on the first of March.
\<close>

definition civil_date :: "date \<Rightarrow> int \<times> int \<times> int" where
  "civil_date d =
     (let z = d + 719468;
          era = z div 146097;
          doe = z mod 146097;
          yoe = (doe - doe div 1460 + doe div 36524 - doe div 146096) div 365;
          doy = doe - (365 * yoe + yoe div 4 - yoe div 100);
          mp = (5 * doy + 2) div 153;
          m = (if mp < 10 then mp + 3 else mp - 9)
      in (yoe + era * 400 + (if m \<le> 2 then 1 else 0), m, doy - (153 * mp + 2) div 5 + 1))"

text \<open>\<open>t.UTC().Format(time.RFC3339)\<close> for a year of four digits.\<close>

definition rfc3339 :: "time \<Rightarrow> string" where
  "rfc3339 t =
     (case civil_date (t div day) of (y, m, d) \<Rightarrow>
        let s = t mod day div second in
        pad_number 4 (nat y) @ ''-'' @ pad_number 2 (nat m) @ ''-'' @ pad_number 2 (nat d) @ ''T'' @
        pad_number 2 (nat (s div 3600)) @ '':'' @ pad_number 2 (nat (s div 60 mod 60)) @ '':'' @
        pad_number 2 (nat (s mod 60)) @ ''Z'')"

lemma rfc3339_example: "rfc3339 1784635262000000 = ''2026-07-21T12:01:02Z''"
  by code_simp

end
