(* ===== verification/Schema.thy ===== *)
theory Schema
  imports Gostring
begin

text \<open>
  The rows of the PostgreSQL tables (\<open>internal/platform/store/models.go\<close>, the structs sqlc
  generates from \<open>migrations/\<close>). A nullable column is an \<open>option\<close>; a text column whose CHECK
  lists its values is a \<open>datatype\<close>. Field names carry the table's prefix. Columns no query of
  the program reads or writes (\<open>conversations.last_message_at\<close>) are left out, and a JSON column
  holds its value as a term of \<open>json\<close>.
\<close>

datatype json =
    JNull | JBool bool | JInt int | JFrac string | JStr string
  | JArr "json list" | JObj "(string \<times> json) list"

datatype actor_type = Guest | User | Global | OtherActor

fun actor_type_string :: "actor_type \<Rightarrow> string" where
  "actor_type_string Guest = ''guest''"
| "actor_type_string User = ''user''"
| "actor_type_string Global = ''global''"
| "actor_type_string OtherActor = ''''"

datatype role = RoleUser | RoleAdmin
datatype user_status = Active | DeletionPending | Disabled
datatype conv_status = ConvActive | ConvArchived
datatype generation_state = Idle | StateAccepted | StateStreaming
datatype message_role = MsgUser | MsgAssistant
datatype message_status = Pending | Complete | MsgCancelled | MsgFailed
datatype generation_status = Accepted | Streaming | Completed | Cancelled | Failed | Rejected
datatype reservation_status = Reserved | Committed | Refunded
datatype job_status = JobPending | JobProcessing | JobCompleted | JobFailed

record user_row =
  usr_id :: uuid
  usr_email :: string
  usr_display_name :: string
  usr_avatar_url :: "string option"
  usr_locale :: string
  usr_role :: role
  usr_status :: user_status
  usr_token_version :: int
  usr_created_at :: time
  usr_updated_at :: time
  usr_version :: int

record identity_row =
  idn_id :: uuid
  idn_user_id :: uuid
  idn_subject :: string
  idn_verified_email :: string

record session_row =
  ses_id :: uuid
  ses_user_id :: uuid
  ses_family_id :: uuid
  ses_device_label :: "string option"
  ses_token_version :: int
  ses_refresh_expires_at :: time
  ses_recent_auth_at :: time
  ses_last_seen_at :: time
  ses_revoked_at :: "time option"
  ses_reuse_detected_at :: "time option"
  ses_created_at :: time

record refresh_row =
  rt_hash :: string
  rt_session_id :: uuid
  rt_expires_at :: time
  rt_used_at :: "time option"

record terms_row =
  ta_user_id :: uuid
  ta_terms_version :: string
  ta_privacy_version :: string
  ta_ip_hash :: "string option"

record guest_row =
  gst_id :: uuid
  gst_identity_hash :: string
  gst_prompt_count :: int
  gst_output_tokens :: int
  gst_last_seen_at :: time
  gst_expires_at :: time
  gst_migrated_user_id :: "uuid option"
  gst_migrated_at :: "time option"

record conversation_row =
  conv_id :: uuid
  conv_user_id :: "uuid option"
  conv_guest_id :: "uuid option"
  conv_title :: string
  conv_status :: conv_status
  conv_created_at :: time
  conv_updated_at :: time
  conv_model_id :: uuid
  conv_gen_state :: generation_state
  conv_renamed :: bool
  conv_deleted_at :: "time option"
  conv_creation_key :: "string option"
  conv_deletion_key :: "string option"

record usage_row =
  us_actor_type :: actor_type
  us_actor_id :: uuid
  us_date :: date
  us_messages :: int
  us_tokens :: int
  us_updated_at :: time

record reservation_row =
  rsv_id :: uuid
  rsv_actor_type :: actor_type
  rsv_actor_id :: uuid
  rsv_date :: date
  rsv_reserved :: int
  rsv_actual :: "int option"
  rsv_status :: reservation_status
  rsv_settled_at :: "time option"

record outbox_row =
  obx_id :: uuid
  obx_type :: string
  obx_payload :: json
  obx_key :: string
  obx_attempts :: int
  obx_available_at :: time
  obx_locked_at :: "time option"
  obx_locked_by :: "string option"
  obx_processed_at :: "time option"
  obx_dead_at :: "time option"
  obx_error_class :: "string option"
  obx_created_at :: time

record audit_row =
  aud_id :: uuid
  aud_actor :: "uuid option"
  aud_action :: string
  aud_target_type :: string
  aud_target_id :: string
  aud_before :: "json option"
  aud_after :: "json option"
  aud_request_id :: "string option"
  aud_occurred_at :: time

record provider_row =
  prv_id :: uuid
  prv_code :: string
  prv_display_name :: string
  prv_adapter :: string
  prv_enabled :: bool
  prv_health :: string
  prv_version :: int

record model_row =
  mdl_id :: uuid
  mdl_slug :: string
  mdl_name :: string
  mdl_description :: string
  mdl_context_window :: int
  mdl_max_output :: int
  mdl_capabilities :: json
  mdl_enabled :: bool
  mdl_available :: bool
  mdl_supported :: bool
  mdl_audience :: "string list"
  mdl_default_for :: "string list"
  mdl_sort_order :: int
  mdl_version :: int

record mapping_row =
  pm_provider_id :: uuid
  pm_model_id :: uuid
  pm_upstream_id :: string
  pm_available :: bool
  pm_metadata :: json
  pm_synced_at :: time

record message_row =
  msg_id :: uuid
  msg_conversation_id :: uuid
  msg_role :: message_role
  msg_content :: string
  msg_status :: message_status
  msg_sequence :: int
  msg_created_at :: time
  msg_updated_at :: time

record generation_row =
  gen_id :: uuid
  gen_conversation_id :: uuid
  gen_user_message_id :: uuid
  gen_assistant_message_id :: uuid
  gen_parent_id :: "uuid option"
  gen_model_id :: uuid
  gen_provider_id :: uuid
  gen_reservation_id :: "uuid option"
  gen_idempotency_key :: string
  gen_status :: generation_status
  gen_retryable :: bool
  gen_finish_reason :: "string option"
  gen_error_code :: "string option"
  gen_input_tokens :: int
  gen_output_tokens :: int
  gen_cached_tokens :: int
  gen_stream_offset :: int
  gen_provider_request_id :: "string option"
  gen_accepted_at :: time
  gen_started_at :: "time option"
  gen_completed_at :: "time option"
  gen_updated_at :: time

record summary_row =
  sum_id :: uuid
  sum_conversation_id :: uuid
  sum_model_id :: uuid
  sum_content :: string
  sum_from :: int
  sum_through :: int
  sum_version :: int
  sum_input_tokens :: int
  sum_created_at :: time

record ledger_row =
  led_id :: uuid
  led_generation_id :: uuid
  led_actor_type :: actor_type
  led_actor_id :: uuid
  led_provider_id :: uuid
  led_model_id :: uuid
  led_input_tokens :: int
  led_output_tokens :: int
  led_cached_tokens :: int
  led_occurred_at :: time

record setting_row =
  set_name :: string
  set_kind :: string
  set_value :: json
  set_version :: int
  set_updated_by_user :: "uuid option"
  set_updated_at :: time

record job_row =
  job_id :: uuid
  job_user_id :: "uuid option"
  job_status :: job_status
  job_requested_at :: time
  job_due_at :: time
  job_started_at :: "time option"
  job_completed_at :: "time option"
  job_attempts :: int
  job_error_class :: "string option"

record database =
  users :: "user_row list"
  identities :: "identity_row list"
  auth_sessions :: "session_row list"
  refresh_tokens :: "refresh_row list"
  terms :: "terms_row list"
  guest_sessions :: "guest_row list"
  conversations :: "conversation_row list"
  daily_usage :: "usage_row list"
  reservations :: "reservation_row list"
  outbox_events :: "outbox_row list"
  outbox_receipts :: "(uuid \<times> string) list"
  audit_log :: "audit_row list"
  providers :: "provider_row list"
  models :: "model_row list"
  provider_models :: "mapping_row list"
  messages :: "message_row list"
  generations :: "generation_row list"
  summaries :: "summary_row list"
  usage_ledger :: "ledger_row list"
  settings :: "setting_row list"
  deletion_jobs :: "job_row list"

definition empty_db :: database where
  "empty_db = \<lparr>users = [], identities = [], auth_sessions = [], refresh_tokens = [], terms = [],
     guest_sessions = [], conversations = [], daily_usage = [], reservations = [],
     outbox_events = [], outbox_receipts = [], audit_log = [], providers = [], models = [],
     provider_models = [], messages = [], generations = [], summaries = [], usage_ledger = [],
     settings = [], deletion_jobs = []\<rparr>"

text \<open>The constraint violations a statement of the program can meet, with their SQLSTATEs.\<close>

abbreviation unique_violation :: "string \<Rightarrow> error" where
  "unique_violation c \<equiv>
     PgError ''23505'' (''duplicate key value violates unique constraint '' @ c)"

abbreviation foreign_key_violation :: "string \<Rightarrow> error" where
  "foreign_key_violation c \<equiv>
     PgError ''23503'' (''insert or update violates foreign key constraint '' @ c)"

abbreviation check_violation :: "string \<Rightarrow> error" where
  "check_violation c \<equiv>
     PgError ''23514'' (''new row violates check constraint '' @ c)"

abbreviation out_of_range :: error where
  "out_of_range \<equiv> PgError ''22003'' ''integer out of range''"

end
