(* ===== verification/World.thy ===== *)
theory World
  imports Schema
begin

text \<open>
  What a service operation reads and changes: the database, Redis, the clock, the ids and
  random tokens still to be drawn, and a schedule of faults.

  Every call that leaves the process (a query, BEGIN and COMMIT, a Redis command, drawing an id
  or a token) takes the next entry of \<open>faults\<close>: \<open>None\<close> lets it through, \<open>Some f\<close> makes it fail
  with the error of \<open>f\<close> (a lost connection, an error of the server, a cancelled context); an exhausted schedule lets every call
  through. A theorem over all schedules is a theorem about a database and a Redis that may fail
  at any call. \<open>new_ids\<close> and \<open>rand_tokens\<close> list the results of \<open>ids.Source.New\<close>
  (\<open>internal/platform/ids/ids.go\<close>, as its \<open>Fake\<close>) and \<open>ids.SecureToken\<close>. The clock stands still within one operation;
  time passes between operations.

  A Redis key holds a value and the instant it expires, if any; \<open>redis_prefix\<close> is the prefix the
  client was opened with (\<open>redisx.Client.prefix\<close>).
\<close>

datatype redis_value = RStr string | RInt int | RZset "(int \<times> string) list"

datatype fault = FaultDriver string | FaultServer string string | FaultCanceled | FaultDeadline

fun fault_error :: "fault \<Rightarrow> error" where
  "fault_error (FaultDriver m) = Driver m"
| "fault_error (FaultServer c m) = PgError c m"
| "fault_error FaultCanceled = ContextCanceled"
| "fault_error FaultDeadline = DeadlineExceeded"

record world =
  db :: database
  redis_prefix :: string
  redis :: "string \<Rightarrow> (redis_value \<times> time option) option"
  published :: "(string \<times> string) list"
  now :: time
  new_ids :: "uuid list"
  rand_tokens :: "string list"
  faults :: "fault option list"

definition call :: "(world, 'a) op \<Rightarrow> (world, 'a) op" where
  "call f w =
     (case faults w of
        [] \<Rightarrow> f w
      | None # fs \<Rightarrow> f (w\<lparr>faults := fs\<rparr>)
      | Some f # fs \<Rightarrow> (Inl (fault_error f), w\<lparr>faults := fs\<rparr>))"

section \<open>Queries and transactions\<close>

text \<open>One statement: it reads the database, or replaces it, or fails and leaves it.\<close>

definition db_read :: "(database \<Rightarrow> error + 'a) \<Rightarrow> (world, 'a) op" where
  "db_read q = call (\<lambda>w. (q (db w), w))"

definition db_exec :: "(database \<Rightarrow> error + 'a \<times> database) \<Rightarrow> (world, 'a) op" where
  "db_exec q = call (\<lambda>w. case q (db w) of
     Inl e \<Rightarrow> (Inl e, w) | Inr (x, d) \<Rightarrow> (Inr x, w\<lparr>db := d\<rparr>))"

text \<open>
  \<open>Pool.WithinTransaction\<close>: BEGIN, the body, COMMIT; a failing BEGIN, body or COMMIT leaves the
  database as it was at BEGIN.
\<close>

definition begin_tx :: "(world, unit) op" where
  "begin_tx = wrap_err ''begin transaction'' (call (ok ()))"

definition commit_tx :: "(world, unit) op" where
  "commit_tx = wrap_err ''commit transaction'' (call (ok ()))"

definition rollback_to :: "database \<Rightarrow> (world, 'a) op \<Rightarrow> (world, 'a) op" where
  "rollback_to d m w =
     (case m w of (Inl e, w') \<Rightarrow> (Inl e, w'\<lparr>db := d\<rparr>) | (Inr x, w') \<Rightarrow> (Inr x, w'))"

definition within_transaction :: "(world, 'a) op \<Rightarrow> (world, 'a) op" where
  "within_transaction body w =
     rollback_to (db w)
       (bindE begin_tx (\<lambda>_. bindE body (\<lambda>x. bindE commit_tx (\<lambda>_. ok x)))) w"

section \<open>Clock, ids and tokens\<close>

definition clock_now :: "(world, time) op" where
  "clock_now w = (Inr (now w), w)"

text \<open>\<open>ids.Source.New\<close>: the next id, or the error of an exhausted source.\<close>

definition ids_new :: "(world, uuid) op" where
  "ids_new = call (\<lambda>w. case new_ids w of
     [] \<Rightarrow> (Inl (Msg ''fake ID source exhausted''), w)
   | i # is \<Rightarrow> (Inr i, w\<lparr>new_ids := is\<rparr>))"

text \<open>\<open>ids.SecureToken(n)\<close>: fails below 16 bytes; otherwise the next random token.\<close>

definition secure_token :: "nat \<Rightarrow> (world, string) op" where
  "secure_token n =
     (if n < 16 then fail (Msg ''secure token length must be at least 16 bytes'')
      else call (\<lambda>w. case rand_tokens w of
        [] \<Rightarrow> (Inl (Msg ''generate secure token''), w)
      | t # ts \<Rightarrow> (Inr t, w\<lparr>rand_tokens := ts\<rparr>)))"

section \<open>Frames\<close>

lemma call_okE [op_elims]:
  assumes "call f w = (Inr x, w')"
  obtains fs where "f (w\<lparr>faults := fs\<rparr>) = (Inr x, w')"
  using assms by (auto simp: call_def split: list.splits option.splits) (metis world.surjective world.update_convs)

lemma call_cases:
  assumes "call f w = (z, w')"
  obtains (no_fault) "f w = (z, w')" "faults w = []"
  | (passed) fs where "f (w\<lparr>faults := fs\<rparr>) = (z, w')" "faults w = None # fs"
  | (failed) f fs where "faults w = Some f # fs" "z = Inl (fault_error f)" "w' = w\<lparr>faults := fs\<rparr>"
  using assms by (auto simp: call_def split: list.splits option.splits)

lemma clock_now_eq [simp]: "clock_now w = (r, w') \<longleftrightarrow> r = Inr (now w) \<and> w' = w"
  by (auto simp: clock_now_def)

text \<open>What a call does not touch, as rules for \<open>keeps\<close> over one component of the world.\<close>

lemma keeps_call:
  "(\<And>w fs. I w \<Longrightarrow> I (w\<lparr>faults := fs\<rparr>)) \<Longrightarrow> keeps I m \<Longrightarrow> keeps I (call m)"
  by (simp add: keeps_def call_def split: list.splits option.splits)

lemma keeps_db_call:
  "(\<And>w. db (snd (f w)) = db w) \<Longrightarrow> keeps (\<lambda>w. P (db w)) (call f)"
  by (simp add: keeps_def call_def split: list.splits option.splits)

lemma keeps_db_ids_new [keeps_intros]: "keeps (\<lambda>w. P (db w)) ids_new"
  by (simp add: ids_new_def keeps_def call_def split: list.splits option.splits)

lemma keeps_db_secure_token [keeps_intros]: "keeps (\<lambda>w. P (db w)) (secure_token n)"
  by (simp add: secure_token_def keeps_def call_def fail_def split: list.splits option.splits)

lemma keeps_db_read [keeps_intros]: "keeps (\<lambda>w. P (db w)) (db_read q)"
  by (simp add: db_read_def keeps_def call_def split: list.splits option.splits)

lemma keeps_clock_now [keeps_intros]: "keeps I clock_now"
  by (simp add: clock_now_def keeps_def)

lemma keeps_db_begin [keeps_intros]: "keeps (\<lambda>w. P (db w)) begin_tx"
  by (simp add: begin_tx_def keeps_def call_def wrap_err_def ok_def split: list.splits option.splits)

lemma keeps_db_commit [keeps_intros]: "keeps (\<lambda>w. P (db w)) commit_tx"
  by (simp add: commit_tx_def keeps_def call_def wrap_err_def ok_def split: list.splits option.splits)

lemma keeps_db_exec:
  "(\<And>d x d'. P d \<Longrightarrow> q d = Inr (x, d') \<Longrightarrow> P d') \<Longrightarrow> keeps (\<lambda>w. P (db w)) (db_exec q)"
  by (auto simp: db_exec_def keeps_def call_def split: list.splits option.splits sum.splits prod.splits)

text \<open>A transaction keeps what its body keeps, and on an error the database is the old one.\<close>

lemma keeps_db_transaction [keeps_intros]:
  assumes "keeps (\<lambda>w. P (db w)) body"
  shows "keeps (\<lambda>w. P (db w)) (within_transaction body)"
proof -
  have "keeps (\<lambda>w. P (db w)) (bindE begin_tx (\<lambda>_. bindE body (\<lambda>x. bindE commit_tx (\<lambda>_. ok x))))"
    by (intro keeps_intros assms)
  then show ?thesis
    by (auto simp: keeps_def within_transaction_def rollback_to_def split: prod.splits sum.splits)
qed

lemma within_transaction_error_db:
  "within_transaction body w = (Inl e, w') \<Longrightarrow> db w' = db w"
  by (auto simp: within_transaction_def rollback_to_def split: prod.splits sum.splits)

lemma begin_tx_db: "begin_tx w = (r, w') \<Longrightarrow> db w' = db w"
  using keepsD_eq [OF keeps_db_begin [where P = "\<lambda>d. d = db w"]] by blast

lemma commit_tx_db: "commit_tx w = (r, w') \<Longrightarrow> db w' = db w"
  using keepsD_eq [OF keeps_db_commit [where P = "\<lambda>d. d = db w"]] by blast

text \<open>A committed transaction is its body, run on the same database.\<close>

lemma within_transaction_okD:
  assumes "within_transaction body w = (Inr x, w')"
  obtains w1 w2 where "db w1 = db w" "body w1 = (Inr x, w2)" "db w' = db w2"
  using assms
  by (auto simp: within_transaction_def rollback_to_def bindE_def ok_def
      split: prod.splits sum.splits dest!: begin_tx_db commit_tx_db intro: that)

lemma db_exec_okD:
  "db_exec q w = (Inr x, w') \<Longrightarrow> q (db w) = Inr (x, db w')"
  by (auto simp: db_exec_def call_def split: list.splits option.splits sum.splits prod.splits)

lemma db_exec_errD: "db_exec q w = (Inl e, w') \<Longrightarrow> db w' = db w"
  by (auto simp: db_exec_def call_def split: list.splits option.splits sum.splits prod.splits)

lemma db_read_okD: "db_read q w = (Inr x, w') \<Longrightarrow> q (db w) = Inr x \<and> db w' = db w"
  by (auto simp: db_read_def call_def split: list.splits option.splits sum.splits prod.splits)

lemma db_read_db: "db_read q w = (r, w') \<Longrightarrow> db w' = db w"
  using keepsD_eq [OF keeps_db_read [where P = "\<lambda>d. d = db w"]] by blast

text \<open>A call that fails says neither that a row nor that a key is missing.\<close>

lemma fault_not_missing [simp]:
  "\<not> errors_is (fault_error f) NoRows" "\<not> errors_is (fault_error f) RedisNotFound"
  by (cases f; simp)+

lemma fault_code: "pg_code (fault_error f) = Some c \<Longrightarrow> \<exists>m. f = FaultServer c m"
  by (cases f) auto

lemma db_read_cases:
  assumes "db_read q w = (r, w')"
  obtains (row) x where "r = Inr x" "q (db w) = Inr x" "db w' = db w"
  | (refused) e where "r = Inl e" "q (db w) = Inl e" "db w' = db w"
  | (failed) f where "r = Inl (fault_error f)" "db w' = db w"
  using assms by (cases "q (db w)") (auto simp: db_read_def elim!: call_cases)

lemma db_read_missingD:
  "db_read q w = (Inl e, w') \<Longrightarrow> errors_is e NoRows \<Longrightarrow> q (db w) = Inl e"
  by (auto simp: db_read_def elim!: call_cases)

lemma ids_new_db: "ids_new w = (r, w') \<Longrightarrow> db w' = db w"
  using keepsD_eq [OF keeps_db_ids_new [where P = "\<lambda>d. d = db w"]] by blast

lemma secure_token_db: "secure_token n w = (r, w') \<Longrightarrow> db w' = db w"
  using keepsD_eq [OF keeps_db_secure_token [where P = "\<lambda>d. d = db w"]] by blast

lemmas db_frames = begin_tx_db commit_tx_db db_exec_errD db_read_db ids_new_db secure_token_db

text \<open>
  A predicate about Redis and the clock alone is kept by every database operation, a schedule
  without faults by every operation.
\<close>

definition redis_view :: "(world \<Rightarrow> bool) \<Rightarrow> bool" where
  "redis_view I \<longleftrightarrow> (\<forall>w d fs is ts. I (w\<lparr>db := d\<rparr>) = I w \<and> I (w\<lparr>faults := fs\<rparr>) = I w
     \<and> I (w\<lparr>new_ids := is\<rparr>) = I w \<and> I (w\<lparr>rand_tokens := ts\<rparr>) = I w)"

lemma keeps_call_view:
  "redis_view I \<Longrightarrow> (\<And>w. I w \<Longrightarrow> I (snd (f w))) \<Longrightarrow> keeps I (call f)"
  by (rule keeps_call) (auto simp: redis_view_def keeps_def)

named_theorems view_intros "rules for predicates about Redis alone"

lemma keeps_redis_db_ops [view_intros]:
  assumes "redis_view I"
  shows "keeps I (db_read q)" "keeps I (db_exec q')" "keeps I begin_tx" "keeps I commit_tx"
    "keeps I ids_new" "keeps I (secure_token n)"
  using assms
  by (auto simp: redis_view_def keeps_def db_read_def db_exec_def begin_tx_def commit_tx_def
      ids_new_def secure_token_def call_def op_defs
      split: list.splits option.splits sum.splits prod.splits)

lemma keeps_redis_transaction [view_intros]:
  assumes I: "redis_view I" and "keeps I body"
  shows "keeps I (within_transaction body)"
proof -
  have "keeps I (bindE begin_tx (\<lambda>_. bindE body (\<lambda>x. bindE commit_tx (\<lambda>_. ok x))))"
    by (intro keeps_bindE keeps_ok view_intros assms)
  with I show ?thesis
    by (auto simp: keeps_def within_transaction_def rollback_to_def redis_view_def
        split: prod.splits sum.splits)
qed

text \<open>What the operations do when no fault is scheduled.\<close>

lemma call_run [simp]: "faults w = [] \<Longrightarrow> call f w = f w"
  by (simp add: call_def)

lemma db_read_run: "faults w = [] \<Longrightarrow> db_read q w = (q (db w), w)"
  by (simp add: db_read_def)

lemma db_exec_run:
  "faults w = [] \<Longrightarrow> q (db w) = Inr (x, d) \<Longrightarrow> db_exec q w = (Inr x, w\<lparr>db := d\<rparr>)"
  by (simp add: db_exec_def)

lemma within_transaction_run:
  "faults w = [] \<Longrightarrow> body w = (Inr x, w') \<Longrightarrow> faults w' = [] \<Longrightarrow>
   within_transaction body w = (Inr x, w')"
  by (simp add: within_transaction_def rollback_to_def begin_tx_def commit_tx_def wrap_err_def bindE_def
      ok_def)

lemma secure_token_run:
  "faults w = [] \<Longrightarrow> rand_tokens w = t # ts \<Longrightarrow> 16 \<le> n \<Longrightarrow>
   secure_token n w = (Inr t, w\<lparr>rand_tokens := ts\<rparr>)"
  by (simp add: secure_token_def)

lemma ids_new_run:
  "faults w = [] \<Longrightarrow> new_ids w = i # is \<Longrightarrow> ids_new w = (Inr i, w\<lparr>new_ids := is\<rparr>)"
  by (simp add: ids_new_def)

text \<open>A world without faults, for the witnesses.\<close>

definition world_of :: "database \<Rightarrow> time \<Rightarrow> uuid list \<Rightarrow> string list \<Rightarrow> world" where
  "world_of d t is ts = \<lparr>db = d, redis_prefix = ''glazz'',
     redis = (\<lambda>_. None), published = [], now = t, new_ids = is,
     rand_tokens = ts, faults = []\<rparr>"

lemmas world_eval = world_of_def call_def db_read_def db_exec_def within_transaction_def
  rollback_to_def begin_tx_def commit_tx_def clock_now_def ids_new_def secure_token_def op_defs

end
