(* ===== verification/Json.thy ===== *)
theory Json
  imports Schema
begin

text \<open>
  \<open>encoding/json\<close>, as far as the program uses it: the text \<open>Marshal\<close> prints for a value (with the
  HTML-safe escapes) and what \<open>Unmarshal\<close> reads. A struct is the object of its fields in the order
  of its declaration. Only integers, booleans, strings, arrays and objects are decoded into Go
  fields by the program; any other number is kept as its text (\<open>JFrac\<close>).
\<close>

section \<open>Printing\<close>

definition escape_rune :: "nat \<times> string \<Rightarrow> string" where
  "escape_rune rb =
     (case rb of (r, bs) \<Rightarrow>
        if r = 34 then [CHR 0x5C, CHR 0x22]
        else if r = 92 then [CHR 0x5C, CHR 0x5C]
        else if r = 8 then CHR 0x5C # ''b''
        else if r = 12 then CHR 0x5C # ''f''
        else if r = 10 then CHR 0x5C # ''n''
        else if r = 13 then CHR 0x5C # ''r''
        else if r = 9 then CHR 0x5C # ''t''
        else if r < 32 \<or> r = 60 \<or> r = 62 \<or> r = 38 \<or> r = 8232 \<or> r = 8233
        then CHR 0x5C # ''u'' @ hex_fixed 4 r
        else if r = rune_error \<and> length bs \<noteq> 3 then CHR 0x5C # ''ufffd''
        else bs)"

definition json_string :: "string \<Rightarrow> string" where
  "json_string s = CHR 0x22 # concat (map escape_rune (decode_runes s)) @ [CHR 0x22]"

primrec json_text :: "json \<Rightarrow> string" where
  "json_text JNull = ''null''"
| "json_text (JBool b) = (if b then ''true'' else ''false'')"
| "json_text (JInt i) = int_string i"
| "json_text (JFrac s) = s"
| "json_text (JStr s) = json_string s"
| "json_text (JArr xs) = ''['' @ join '','' (map json_text xs) @ '']''"
| "json_text (JObj kvs) =
     ''{'' @ join '','' (map (\<lambda>p. json_string (fst p) @ '':'' @ snd p) (map (map_prod id json_text) kvs))
     @ ''}''"

section \<open>Parsing\<close>

definition is_json_space :: "char \<Rightarrow> bool" where
  "is_json_space c \<longleftrightarrow> c = CHR '' '' \<or> c = CHR 0x09 \<or> c = CHR 0x0A \<or> c = CHR 0x0D"

definition skip_space :: "string \<Rightarrow> string" where
  "skip_space = dropWhile is_json_space"

definition is_digit :: "char \<Rightarrow> bool" where
  "is_digit c \<longleftrightarrow> 48 \<le> byte c \<and> byte c \<le> 57"

definition hex_value :: "char \<Rightarrow> nat option" where
  "hex_value c =
     (if is_digit c then Some (byte c - 48)
      else if 97 \<le> byte c \<and> byte c \<le> 102 then Some (byte c - 87)
      else if 65 \<le> byte c \<and> byte c \<le> 70 then Some (byte c - 55)
      else None)"

definition hex4 :: "string \<Rightarrow> (nat \<times> string) option" where
  "hex4 s =
     (case s of
        a # b # c # d # rest \<Rightarrow>
          (case (hex_value a, hex_value b, hex_value c, hex_value d) of
             (Some w, Some x, Some y, Some z) \<Rightarrow> Some (w * 4096 + x * 256 + y * 16 + z, rest)
           | _ \<Rightarrow> None)
      | _ \<Rightarrow> None)"

text \<open>
  The rest of a string literal after its opening quote, with the text read so far. A lone
  surrogate becomes U+FFFD, a high one followed by a low one is their code point.
\<close>

fun parse_string :: "nat \<Rightarrow> string \<Rightarrow> string \<Rightarrow> (string \<times> string) option" where
  "parse_string 0 s acc = None"
| "parse_string (Suc n) [] acc = None"
| "parse_string (Suc n) (c # s) acc =
     (if byte c = 34 then Some (acc, s)
      else if byte c < 32 then None
      else if byte c \<noteq> 92 then parse_string n s (acc @ [c])
      else (case s of
              [] \<Rightarrow> None
            | e # s1 \<Rightarrow>
                if byte e = 34 \<or> byte e = 92 \<or> byte e = 47 then parse_string n s1 (acc @ [e])
                else if e = CHR ''b'' then parse_string n s1 (acc @ [CHR 0x08])
                else if e = CHR ''f'' then parse_string n s1 (acc @ [CHR 0x0C])
                else if e = CHR ''n'' then parse_string n s1 (acc @ [CHR 0x0A])
                else if e = CHR ''r'' then parse_string n s1 (acc @ [CHR 0x0D])
                else if e = CHR ''t'' then parse_string n s1 (acc @ [CHR 0x09])
                else if e = CHR ''u''
                then (case hex4 s1 of
                        None \<Rightarrow> None
                      | Some (r, s2) \<Rightarrow>
                          if 55296 \<le> r \<and> r < 57344
                          then (case s2 of
                                  b # u # s3 \<Rightarrow>
                                    (case (if byte b = 92 \<and> u = CHR ''u'' then hex4 s3 else None) of
                                       Some (r', s4) \<Rightarrow>
                                         if r < 56320 \<and> 56320 \<le> r' \<and> r' < 57344
                                         then parse_string n s4 (acc @
                                           encode_rune (65536 + (r - 55296) * 1024 + (r' - 56320)))
                                         else parse_string n s2 (acc @ encode_rune rune_error)
                                     | None \<Rightarrow> parse_string n s2 (acc @ encode_rune rune_error))
                                | _ \<Rightarrow> parse_string n s2 (acc @ encode_rune rune_error))
                          else parse_string n s2 (acc @ encode_rune r))
                else None))"

fun digits_value :: "string \<Rightarrow> int" where
  "digits_value [] = 0"
| "digits_value (c # s) = (int (byte c) - 48) * 10 ^ length s + digits_value s"

text \<open>A number literal: optional minus, integer part, optional fraction and exponent.\<close>

definition parse_number :: "string \<Rightarrow> (json \<times> string) option" where
  "parse_number s =
     (let (neg, s0) = (case s of c # t \<Rightarrow> if c = CHR ''-'' then (True, t) else (False, s) | [] \<Rightarrow> (False, []));
          ds = takeWhile is_digit s0; s1 = dropWhile is_digit s0;
          frac = (case s1 of c # t \<Rightarrow> if c = CHR ''.'' then c # takeWhile is_digit t else [] | [] \<Rightarrow> []);
          s2 = drop (length frac) s1;
          ex = (case s2 of
                  c # t \<Rightarrow>
                    if c = CHR ''e'' \<or> c = CHR ''E''
                    then (case t of
                            g # t' \<Rightarrow> if g = CHR ''+'' \<or> g = CHR ''-'' then c # g # takeWhile is_digit t'
                                       else c # takeWhile is_digit t
                          | [] \<Rightarrow> [c])
                    else []
                | [] \<Rightarrow> []);
          s3 = drop (length ex) s2
      in if ds = [] \<or> (length ds > 1 \<and> hd ds = CHR ''0'') \<or> length frac = 1
            \<or> (ex \<noteq> [] \<and> \<not> is_digit (last ex)) then None
         else if frac = [] \<and> ex = []
         then Some (JInt (if neg then - digits_value ds else digits_value ds), s3)
         else Some (JFrac ((if neg then ''-'' else []) @ ds @ frac @ ex), s3))"

fun parse_value :: "nat \<Rightarrow> string \<Rightarrow> (json \<times> string) option"
  and parse_elems :: "nat \<Rightarrow> string \<Rightarrow> json list \<Rightarrow> (json \<times> string) option"
  and parse_members :: "nat \<Rightarrow> string \<Rightarrow> (string \<times> json) list \<Rightarrow> (json \<times> string) option"
where
  "parse_value 0 s = None"
| "parse_value (Suc n) s =
     (let s = skip_space s in
      if has_prefix s ''null'' then Some (JNull, drop 4 s)
      else if has_prefix s ''true'' then Some (JBool True, drop 4 s)
      else if has_prefix s ''false'' then Some (JBool False, drop 5 s)
      else case s of
        [] \<Rightarrow> None
      | c # t \<Rightarrow>
          if byte c = 34
          then (case parse_string (length s) t [] of Some (x, r) \<Rightarrow> Some (JStr x, r) | None \<Rightarrow> None)
          else if c = CHR ''[''
          then (case skip_space t of
                  d # r \<Rightarrow> if d = CHR '']'' then Some (JArr [], r) else parse_elems n t []
                | [] \<Rightarrow> None)
          else if c = CHR ''{''
          then (case skip_space t of
                  d # r \<Rightarrow> if d = CHR ''}'' then Some (JObj [], r) else parse_members n t []
                | [] \<Rightarrow> None)
          else parse_number s)"
| "parse_elems 0 s acc = None"
| "parse_elems (Suc n) s acc =
     (case parse_value n s of
        None \<Rightarrow> None
      | Some (v, r) \<Rightarrow>
          (case skip_space r of
             c # t \<Rightarrow> if c = CHR '','' then parse_elems n t (acc @ [v])
                      else if c = CHR '']'' then Some (JArr (acc @ [v]), t) else None
           | [] \<Rightarrow> None))"
| "parse_members 0 s acc = None"
| "parse_members (Suc n) s acc =
     (case skip_space s of
        q # s0 \<Rightarrow>
          if byte q \<noteq> 34 then None
          else (case parse_string (length s) s0 [] of
             None \<Rightarrow> None
           | Some (k, r) \<Rightarrow>
               (case skip_space r of
                  e # s1 \<Rightarrow>
                    if e \<noteq> CHR '':'' then None
                    else (case parse_value n s1 of
                       None \<Rightarrow> None
                     | Some (v, r1) \<Rightarrow>
                         (case skip_space r1 of
                            c # t \<Rightarrow>
                              if c = CHR '','' then parse_members n t (acc @ [(k, v)])
                              else if c = CHR ''}'' then Some (JObj (acc @ [(k, v)]), t) else None
                          | [] \<Rightarrow> None))
                | [] \<Rightarrow> None))
      | [] \<Rightarrow> None)"

text \<open>A whole text: one value and nothing but white space after it. Every call consumes a byte
  or descends from a call that did, so \<open>2 * length + 2\<close> steps are enough.\<close>

definition parse_json :: "string \<Rightarrow> json option" where
  "parse_json s =
     (case parse_value (2 * length s + 2) s of
        Some (v, r) \<Rightarrow> if skip_space r = [] then Some v else None
      | None \<Rightarrow> None)"

section \<open>Decoding into Go values\<close>

text \<open>
  \<open>Unmarshal\<close> into a field: a value of another kind is an error, \<open>null\<close> leaves the zero value.
  A struct takes the last member whose name is the field's up to ASCII case.
\<close>

definition as_bool :: "json \<Rightarrow> bool option" where
  "as_bool j = (case j of JBool b \<Rightarrow> Some b | JNull \<Rightarrow> Some False | _ \<Rightarrow> None)"

definition as_int64 :: "json \<Rightarrow> int option" where
  "as_int64 j =
     (case j of JInt i \<Rightarrow> if - (2 ^ 63) \<le> i \<and> i < 2 ^ 63 then Some i else None
              | JNull \<Rightarrow> Some 0 | _ \<Rightarrow> None)"

definition as_string :: "json \<Rightarrow> string option" where
  "as_string j = (case j of JStr s \<Rightarrow> Some s | JNull \<Rightarrow> Some [] | _ \<Rightarrow> None)"

definition all_some :: "'a option list \<Rightarrow> 'a list option" where
  "all_some xs = (if list_all (\<lambda>x. x \<noteq> None) xs then Some (map the xs) else None)"

definition as_strings :: "json \<Rightarrow> string list option" where
  "as_strings j = (case j of JArr xs \<Rightarrow> all_some (map as_string xs) | JNull \<Rightarrow> Some [] | _ \<Rightarrow> None)"

definition json_field :: "string \<Rightarrow> json \<Rightarrow> json" where
  "json_field name j =
     (case j of
        JObj kvs \<Rightarrow> (case find (\<lambda>(k, v). to_lower k = to_lower name) (rev kvs) of
                       Some (k, v) \<Rightarrow> v | None \<Rightarrow> JNull)
      | _ \<Rightarrow> JNull)"

end
