(* ===== verification/Redis.thy ===== *)
theory Redis
  imports World Json "HOL-Library.List_Lexorder" "HOL-Library.Product_Lexorder"
begin

text \<open>
  \<open>internal/platform/redisx/client.go\<close>: the Redis client. A command reads and writes the key
  \<open>prefix:part:part\<close> of the keyspace in \<open>world\<close>; a key that has expired counts as absent. Lua
  scripts and MULTI pipelines are one atomic call; \<open>NextSequence\<close> is the two calls it makes.
\<close>

section \<open>Keys and raw commands\<close>

definition redis_key :: "world \<Rightarrow> string list \<Rightarrow> string" where
  "redis_key w parts = join '':'' (redis_prefix w # map (replace_char CHR '':'' CHR ''_'') parts)"

definition live :: "world \<Rightarrow> string \<Rightarrow> redis_value option" where
  "live w k =
     (case redis w k of
        None \<Rightarrow> None
      | Some (v, None) \<Rightarrow> Some v
      | Some (v, Some t) \<Rightarrow> if now w < t then Some v else None)"

definition expiry :: "world \<Rightarrow> string \<Rightarrow> time option" where
  "expiry w k = (case live w k of None \<Rightarrow> None | Some _ \<Rightarrow> snd (the (redis w k)))"

definition set_key :: "string \<Rightarrow> redis_value \<Rightarrow> time option \<Rightarrow> world \<Rightarrow> world" where
  "set_key k v t w = w\<lparr>redis := (redis w)(k \<mapsto> (v, t))\<rparr>"

definition del_key :: "string \<Rightarrow> world \<Rightarrow> world" where
  "del_key k w = w\<lparr>redis := (redis w)(k := None)\<rparr>"

abbreviation wrong_type :: error where
  "wrong_type \<equiv> Driver ''WRONGTYPE Operation against a key holding the wrong kind of value''"

section \<open>Values that are put, read and taken\<close>

definition put_value :: "string \<Rightarrow> string \<Rightarrow> string \<Rightarrow> time \<Rightarrow> (world, unit) op" where
  "put_value namespace i v ttl =
     (if ttl \<le> 0 then fail (Msg ''Redis Put TTL must be positive'')
      else call (\<lambda>w. (Inr (), set_key (redis_key w [namespace, i]) (RStr v) (Some (now w + ttl)) w)))"

definition get_value :: "string \<Rightarrow> string \<Rightarrow> (world, string) op" where
  "get_value namespace i =
     bindE (wrap_err ''read Redis value''
       (call (\<lambda>w. (case live w (redis_key w [namespace, i]) of
           Some (RStr v) \<Rightarrow> (Inr (Some v), w)
         | Some (RInt n) \<Rightarrow> (Inr (Some (int_string n)), w)
         | Some (RZset _) \<Rightarrow> (Inl wrong_type, w)
         | None \<Rightarrow> (Inr None, w)))))
     (\<lambda>r. case r of None \<Rightarrow> fail RedisNotFound | Some v \<Rightarrow> ok v)"

text \<open>\<open>GETDEL\<close>: the value is read and removed in one command.\<close>

definition take_value :: "string \<Rightarrow> string \<Rightarrow> (world, string) op" where
  "take_value namespace i =
     bindE (wrap_err ''consume Redis value''
       (call (\<lambda>w. (let k = redis_key w [namespace, i] in
         case live w k of
           Some (RStr v) \<Rightarrow> (Inr (Some v), del_key k w)
         | Some (RInt n) \<Rightarrow> (Inr (Some (int_string n)), del_key k w)
         | Some (RZset _) \<Rightarrow> (Inl wrong_type, w)
         | None \<Rightarrow> (Inr None, w)))))
     (\<lambda>r. case r of None \<Rightarrow> fail RedisNotFound | Some v \<Rightarrow> ok v)"

definition delete_key :: "string \<Rightarrow> string \<Rightarrow> (world, unit) op" where
  "delete_key namespace i = call (\<lambda>w. (Inr (), del_key (redis_key w [namespace, i]) w))"

section \<open>Rate limits and leases\<close>

record rate_result =
  rr_allowed :: bool
  rr_used :: int
  rr_remaining :: int
  rr_reset_in :: time

text \<open>
  The script of \<open>AddRateUsage\<close>: INCRBY, PEXPIRE when the key is new, PTTL (-1 without expiry,
  -2 when PEXPIRE 0 has removed the key).
\<close>

definition rate_script :: "string \<Rightarrow> int \<Rightarrow> int \<Rightarrow> int \<Rightarrow> (world, int \<times> int \<times> int \<times> int) op" where
  "rate_script k amount limit window_ms w =
     (case live w k of
        Some (RZset _) \<Rightarrow> (Inl wrong_type, w)
      | Some (RStr _) \<Rightarrow> (Inl (Driver ''ERR value is not an integer or out of range''), w)
      | old \<Rightarrow>
          (let n = (case old of Some (RInt n) \<Rightarrow> n | _ \<Rightarrow> 0);
               cnt = n + amount;
               t = (if cnt = amount then Some (now w + window_ms * 1000) else expiry w k);
               pttl = (if cnt = amount \<and> window_ms \<le> 0 then - 2
                       else case t of None \<Rightarrow> - 1 | Some x \<Rightarrow> (x - now w) div 1000)
           in if cnt \<ge> 2 ^ 63 then (Inl (Driver ''ERR increment or decrement would overflow''), w)
              else (Inr (if cnt \<le> limit then 1 else 0, cnt, max (limit - cnt) 0, pttl),
                    if cnt = amount \<and> window_ms \<le> 0 then del_key k w
                    else set_key k (RInt cnt) t w)))"

definition add_rate_usage :: "string \<Rightarrow> int \<Rightarrow> int \<Rightarrow> time \<Rightarrow> (world, rate_result) op" where
  "add_rate_usage bucket amount limit window =
     (if amount \<le> 0 \<or> limit \<le> 0 \<or> window \<le> 0
      then fail (Msg ''rate usage amount, limit, and window must be positive'')
      else bindE
        (wrap_err ''apply Redis rate usage''
          (call (\<lambda>w. rate_script (redis_key w [''rate'', bucket]) amount limit (window div 1000) w)))
        (\<lambda>(allowed, used, remaining, pttl). ok
          \<lparr>rr_allowed = (allowed = 1), rr_used = used, rr_remaining = remaining,
           rr_reset_in = pttl * 1000\<rparr>))"

definition acquire_lease :: "string \<Rightarrow> string \<Rightarrow> string \<Rightarrow> time \<Rightarrow> (world, bool) op" where
  "acquire_lease namespace i owner ttl =
     (if owner = [] \<or> ttl \<le> 0 then fail (Msg ''lease owner and positive TTL are required'')
      else wrap_err ''acquire Redis lease''
        (call (\<lambda>w. (let k = redis_key w [''lease'', namespace, i] in
           case live w k of
             Some _ \<Rightarrow> (Inr False, w)
           | None \<Rightarrow> (Inr True, set_key k (RStr owner) (Some (now w + ttl)) w)))))"

definition release_lease :: "string \<Rightarrow> string \<Rightarrow> string \<Rightarrow> (world, bool) op" where
  "release_lease namespace i owner =
     wrap_err ''release Redis lease''
       (call (\<lambda>w. (let k = redis_key w [''lease'', namespace, i] in
          case live w k of
            Some (RStr v) \<Rightarrow> if v = owner then (Inr True, del_key k w) else (Inr False, w)
          | Some (RInt n) \<Rightarrow>
              if int_string n = owner then (Inr True, del_key k w) else (Inr False, w)
          | Some (RZset _) \<Rightarrow> (Inl wrong_type, w)
          | None \<Rightarrow> (Inr False, w))))"

section \<open>Topics, sequences and replay buffers\<close>

definition publish :: "string \<Rightarrow> string \<Rightarrow> (world, unit) op" where
  "publish topic payload =
     call (\<lambda>w. (Inr (), w\<lparr>published := published w @ [(redis_key w [''topic'', topic], payload)]\<rparr>))"

definition incr :: "string \<Rightarrow> (world, int) op" where
  "incr k w =
     (case live w k of
        Some (RZset _) \<Rightarrow> (Inl wrong_type, w)
      | Some (RStr _) \<Rightarrow> (Inl (Driver ''ERR value is not an integer or out of range''), w)
      | Some (RInt n) \<Rightarrow>
          if n + 1 \<ge> 2 ^ 63 then (Inl (Driver ''ERR increment or decrement would overflow''), w)
          else (Inr (n + 1), set_key k (RInt (n + 1)) (expiry w k) w)
      | None \<Rightarrow> (Inr 1, set_key k (RInt 1) None w))"

definition expire_key :: "string \<Rightarrow> time \<Rightarrow> world \<Rightarrow> world" where
  "expire_key k ttl w =
     (case live w k of Some v \<Rightarrow> set_key k v (Some (now w + ttl)) w | None \<Rightarrow> w)"

definition next_sequence :: "string \<Rightarrow> string \<Rightarrow> time \<Rightarrow> (world, int) op" where
  "next_sequence namespace i ttl =
     (if ttl \<le> 0 then fail (Msg ''sequence TTL must be positive'')
      else bindE (wrap_err ''increment Redis sequence''
                   (call (\<lambda>w. incr (redis_key w [''sequence'', namespace, i]) w)))
        (\<lambda>n. bindE (wrap_err ''expire Redis sequence''
                   (call (\<lambda>w. (Inr (), expire_key (redis_key w [''sequence'', namespace, i]) ttl w))))
        (\<lambda>_. ok n)))"

definition current_sequence :: "string \<Rightarrow> string \<Rightarrow> (world, int) op" where
  "current_sequence namespace i =
     wrap_err ''read Redis sequence''
       (call (\<lambda>w. (case live w (redis_key w [''sequence'', namespace, i]) of
            None \<Rightarrow> (Inr 0, w)
          | Some (RInt n) \<Rightarrow> (Inr n, w)
          | Some (RStr _) \<Rightarrow> (Inl (Driver ''invalid syntax''), w)
          | Some (RZset _) \<Rightarrow> (Inl wrong_type, w))))"

text \<open>
  ZADD moves a member that is already there to the new score; the members are ordered by score,
  then by bytes. ZREMRANGEBYRANK 0 .. -(limit+1) keeps the last \<open>limit\<close>.
\<close>

definition zadd :: "int \<Rightarrow> string \<Rightarrow> (int \<times> string) list \<Rightarrow> (int \<times> string) list" where
  "zadd score m z = insort (score, m) (filter (\<lambda>(_, m'). m' \<noteq> m) z)"

definition keep_last :: "int \<Rightarrow> 'x list \<Rightarrow> 'x list" where
  "keep_last limit z = drop (length z - nat limit) z"

definition append_replay ::
  "string \<Rightarrow> string \<Rightarrow> int \<Rightarrow> string \<Rightarrow> int \<Rightarrow> time \<Rightarrow> (world, unit) op" where
  "append_replay namespace i sequence payload limit ttl =
     (if sequence \<le> 0 \<or> limit \<le> 0 \<or> ttl \<le> 0
      then fail (Msg ''positive sequence, replay limit, and TTL are required'')
      else wrap_err ''append Redis replay event''
        (call (\<lambda>w. (let k = redis_key w [''replay'', namespace, i] in
           case live w k of
             Some (RZset z) \<Rightarrow>
               (Inr (), set_key k (RZset (keep_last limit (zadd sequence payload z)))
                  (Some (now w + ttl)) w)
           | None \<Rightarrow>
               (Inr (), set_key k (RZset [(sequence, payload)]) (Some (now w + ttl)) w)
           | Some v \<Rightarrow> (Inl wrong_type, set_key k v (Some (now w + ttl)) w)))))"

definition replay_after :: "string \<Rightarrow> string \<Rightarrow> int \<Rightarrow> int \<Rightarrow> (world, string list) op" where
  "replay_after namespace i sequence limit =
     (if sequence < 0 \<or> limit \<le> 0
      then fail (Msg ''non-negative sequence and positive limit are required'')
      else wrap_err ''read Redis replay events''
        (call (\<lambda>w. (case live w (redis_key w [''replay'', namespace, i]) of
            None \<Rightarrow> (Inr [], w)
          | Some (RZset z) \<Rightarrow>
              (Inr (take (nat limit) (map snd (filter (\<lambda>(s, _). sequence + 1 \<le> s) z))), w)
          | Some _ \<Rightarrow> (Inl wrong_type, w)))))"

section \<open>Redis leaves the database alone\<close>

lemma db_set_key [simp]: "db (set_key k v t w) = db w"
  by (simp add: set_key_def)

lemma db_del_key [simp]: "db (del_key k w) = db w"
  by (simp add: del_key_def)

lemma db_rate_script: "db (snd (rate_script k a l m w)) = db w"
  by (auto simp: rate_script_def Let_def split: option.splits redis_value.splits)

lemma db_incr: "db (snd (incr k w)) = db w"
  by (auto simp: incr_def split: option.splits redis_value.splits)

lemma db_expire_key [simp]: "db (expire_key k t w) = db w"
  by (auto simp: expire_key_def split: option.splits)

lemma keeps_db_put [keeps_intros]: "keeps (\<lambda>w. P (db w)) (put_value ns i v t)"
  by (auto simp: put_value_def intro!: keeps_intros keeps_db_call)

lemma keeps_db_get [keeps_intros]: "keeps (\<lambda>w. P (db w)) (get_value ns i)"
  unfolding get_value_def
  by (intro keeps_intros keeps_db_call) (simp split: option.split redis_value.split)

lemma keeps_db_take_value [keeps_intros]: "keeps (\<lambda>w. P (db w)) (take_value ns i)"
  unfolding take_value_def
  by (intro keeps_intros keeps_db_call) (simp add: Let_def split: option.split redis_value.split)

lemma keeps_db_delete_key [keeps_intros]: "keeps (\<lambda>w. P (db w)) (delete_key ns i)"
  by (auto simp: delete_key_def intro!: keeps_db_call)

lemma keeps_db_add_rate_usage [keeps_intros]:
  "keeps (\<lambda>w. P (db w)) (add_rate_usage b a l t)"
  by (auto simp: add_rate_usage_def db_rate_script intro!: keeps_intros keeps_db_call)

lemma keeps_db_acquire_lease [keeps_intros]:
  "keeps (\<lambda>w. P (db w)) (acquire_lease ns i own t)"
  by (auto simp: acquire_lease_def Let_def intro!: keeps_intros keeps_db_call split: option.splits)

lemma keeps_db_release_lease [keeps_intros]:
  "keeps (\<lambda>w. P (db w)) (release_lease ns i own)"
  by (auto simp: release_lease_def Let_def intro!: keeps_intros keeps_db_call
      split: option.splits redis_value.splits)

lemma keeps_db_publish [keeps_intros]: "keeps (\<lambda>w. P (db w)) (publish t p)"
  by (auto simp: publish_def intro!: keeps_db_call)

lemma keeps_db_next_sequence [keeps_intros]: "keeps (\<lambda>w. P (db w)) (next_sequence ns i t)"
  by (auto simp: next_sequence_def db_incr intro!: keeps_intros keeps_db_call)

lemma keeps_db_current_sequence [keeps_intros]: "keeps (\<lambda>w. P (db w)) (current_sequence ns i)"
  by (auto simp: current_sequence_def intro!: keeps_intros keeps_db_call
      split: option.splits redis_value.splits)

lemma keeps_db_append_replay [keeps_intros]:
  "keeps (\<lambda>w. P (db w)) (append_replay ns i s p l t)"
  by (auto simp: append_replay_def Let_def intro!: keeps_intros keeps_db_call
      split: option.splits redis_value.splits)

lemma keeps_db_replay_after [keeps_intros]: "keeps (\<lambda>w. P (db w)) (replay_after ns i s l)"
  by (auto simp: replay_after_def intro!: keeps_intros keeps_db_call
      split: option.splits redis_value.splits)

section \<open>Without faults\<close>

lemma keeps_no_faults_call:
  "(\<And>w. faults w = [] \<Longrightarrow> faults (snd (f w)) = []) \<Longrightarrow> keeps (\<lambda>w. faults w = []) (call f)"
  by (simp add: keeps_def call_def)

lemma faults_keys [simp]:
  "faults (set_key k v t w) = faults w" "faults (del_key k w) = faults w"
  by (simp_all add: set_key_def del_key_def)

lemma faults_rate_script: "faults (snd (rate_script k a l m w)) = faults w"
  by (auto simp: rate_script_def Let_def split: option.splits redis_value.splits)

lemma keeps_no_faults_rate [keeps_intros]: "keeps (\<lambda>w. faults w = []) (add_rate_usage b a l t)"
  by (auto simp: add_rate_usage_def faults_rate_script intro!: keeps_intros keeps_no_faults_call)

lemma keeps_no_faults_acquire [keeps_intros]:
  "keeps (\<lambda>w. faults w = []) (acquire_lease ns i own t)"
  by (auto simp: acquire_lease_def Let_def intro!: keeps_intros keeps_no_faults_call
      split: option.splits)

lemma keeps_no_faults_get [keeps_intros]: "keeps (\<lambda>w. faults w = []) (get_value ns i)"
  unfolding get_value_def
  by (intro keeps_intros keeps_no_faults_call) (simp split: option.split redis_value.split)

lemma keeps_view_get:
  assumes "redis_view I"
  shows "keeps I (get_value ns i)"
  unfolding get_value_def
  by (intro keeps_intros keeps_call_view assms) (simp split: option.split redis_value.split)

lemma keeps_no_faults_put [keeps_intros]: "keeps (\<lambda>w. faults w = []) (put_value ns i v t)"
  by (auto simp: put_value_def intro!: keeps_intros keeps_no_faults_call)

lemma keeps_no_faults_delete [keeps_intros]: "keeps (\<lambda>w. faults w = []) (delete_key ns i)"
  by (auto simp: delete_key_def intro!: keeps_no_faults_call)

lemma keeps_no_faults_db [keeps_intros]:
  "keeps (\<lambda>w. faults w = []) (db_read q)" "keeps (\<lambda>w. faults w = []) (db_exec q')"
  "keeps (\<lambda>w. faults w = []) begin_tx" "keeps (\<lambda>w. faults w = []) commit_tx"
  "keeps (\<lambda>w. faults w = []) ids_new" "keeps (\<lambda>w. faults w = []) (secure_token n)"
  by (auto simp: keeps_def db_read_def db_exec_def begin_tx_def commit_tx_def ids_new_def
      secure_token_def call_def op_defs split: list.splits option.splits sum.splits prod.splits)

lemma keeps_no_faults_transaction [keeps_intros]:
  assumes "keeps (\<lambda>w. faults w = []) body"
  shows "keeps (\<lambda>w. faults w = []) (within_transaction body)"
proof -
  have "keeps (\<lambda>w. faults w = []) (bindE begin_tx (\<lambda>_. bindE body (\<lambda>x. bindE commit_tx (\<lambda>_. ok x))))"
    by (intro keeps_intros assms)
  then show ?thesis
    by (auto simp: keeps_def within_transaction_def rollback_to_def split: prod.splits sum.splits)
qed

text \<open>A lease that is not granted changes nothing.\<close>

lemma acquire_refused_world:
  assumes "acquire_lease ns i own t w = (z, w')" and "z \<noteq> Inr True"
  shows "w' = w \<or> faults w \<noteq> [] \<and> (\<exists>fs. w' = w\<lparr>faults := fs\<rparr>)"
proof -
  have "w' = w" if "(let k = redis_key w [''lease'', ns, i] in
           case live w k of
             Some _ \<Rightarrow> (Inr False, w)
           | None \<Rightarrow> (Inr True, set_key k (RStr own) (Some (now w + t)) w)) = (r, w')"
    and "r \<noteq> Inr True" for w w' and r :: "error + bool"
    using that by (simp add: Let_def split: option.splits)
  then show ?thesis
    using assms
    by (auto simp: acquire_lease_def wrap_err_def split: if_splits prod.splits sum.splits
        elim!: call_cases)
qed

lemmas redis_eval = add_rate_usage_def rate_script_def acquire_lease_def release_lease_def
  live_def expiry_def redis_key_def set_key_def del_key_def replace_char_def

end
