(* ===== verification/Settings.thy ===== *)
theory Settings
  imports Redis
begin

text \<open>
  \<open>internal/settings/service.go\<close>: the runtime settings, read through a cache whose entry lives ten
  seconds. The optional \<open>Cache\<close> of the service is a record of its operations.
\<close>

record cache =
  cache_get :: "string \<Rightarrow> string \<Rightarrow> (world, string) op"
  cache_put :: "string \<Rightarrow> string \<Rightarrow> string \<Rightarrow> time \<Rightarrow> (world, unit) op"
  cache_delete :: "string \<Rightarrow> string \<Rightarrow> (world, unit) op"

definition redis_cache :: cache where
  "redis_cache = \<lparr>cache_get = get_value, cache_put = put_value, cache_delete = delete_key\<rparr>"

record snapshot =
  snap_maintenance :: bool
  snap_guest_messages :: int
  snap_guest_output :: int
  snap_user_messages :: int
  snap_user_output :: int
  snap_global_output :: int
  snap_global_concurrent :: int
  snap_system_prompt :: string
  snap_summary_model_id :: string
  snap_input_categories :: "string list"
  snap_output_categories :: "string list"

definition snapshot_json :: "snapshot \<Rightarrow> json" where
  "snapshot_json s = JObj
     [(''maintenance'', JBool (snap_maintenance s)),
      (''guestMessageLimit'', JInt (snap_guest_messages s)),
      (''guestOutputTokenLimit'', JInt (snap_guest_output s)),
      (''userMessageLimit'', JInt (snap_user_messages s)),
      (''userOutputTokenLimit'', JInt (snap_user_output s)),
      (''globalOutputTokenLimit'', JInt (snap_global_output s)),
      (''globalConcurrentStreams'', JInt (snap_global_concurrent s)),
      (''systemPrompt'', JStr (snap_system_prompt s)),
      (''summaryModelId'', JStr (snap_summary_model_id s)),
      (''inputSafetyCategories'', JArr (map JStr (snap_input_categories s))),
      (''outputSafetyCategories'', JArr (map JStr (snap_output_categories s)))]"

text \<open>\<open>json.Unmarshal\<close> into the struct: any JSON but an object or null is an error.\<close>

definition snapshot_of_json :: "json \<Rightarrow> snapshot option" where
  "snapshot_of_json j =
     (let b = (\<lambda>n. as_bool (json_field n j)); i = (\<lambda>n. as_int64 (json_field n j));
          t = (\<lambda>n. as_string (json_field n j)); l = (\<lambda>n. as_strings (json_field n j)) in
      case (j, b ''maintenance'', i ''guestMessageLimit'', i ''guestOutputTokenLimit'',
            i ''userMessageLimit'', i ''userOutputTokenLimit'', i ''globalOutputTokenLimit'',
            i ''globalConcurrentStreams'', t ''systemPrompt'', t ''summaryModelId'',
            l ''inputSafetyCategories'', l ''outputSafetyCategories'') of
        (_, Some m, Some gm, Some go, Some um, Some uo, Some glo, Some glc, Some sp, Some sm,
         Some ic, Some oc) \<Rightarrow>
          (case j of
             JObj _ \<Rightarrow> Some \<lparr>snap_maintenance = m, snap_guest_messages = gm, snap_guest_output = go,
               snap_user_messages = um, snap_user_output = uo, snap_global_output = glo,
               snap_global_concurrent = glc, snap_system_prompt = sp, snap_summary_model_id = sm,
               snap_input_categories = ic, snap_output_categories = oc\<rparr>
           | JNull \<Rightarrow> Some \<lparr>snap_maintenance = m, snap_guest_messages = gm, snap_guest_output = go,
               snap_user_messages = um, snap_user_output = uo, snap_global_output = glo,
               snap_global_concurrent = glc, snap_system_prompt = sp, snap_summary_model_id = sm,
               snap_input_categories = ic, snap_output_categories = oc\<rparr>
           | _ \<Rightarrow> None)
      | _ \<Rightarrow> None)"

definition list_runtime_settings :: "database \<Rightarrow> error + setting_row list" where
  "list_runtime_settings d = Inr (sort_key set_name (settings d))"

definition decode_setting ::
  "(string \<rightharpoonup> json) \<Rightarrow> string \<Rightarrow> (json \<Rightarrow> 'a option) \<Rightarrow> error + 'a" where
  "decode_setting values k conv =
     (case values k of
        None \<Rightarrow> Inl (Msg (''runtime setting '' @ [CHR 0x22] @ k @ [CHR 0x22] @ '' is missing''))
      | Some raw \<Rightarrow>
          (case conv raw of
             None \<Rightarrow> Inl (Wrap (''decode runtime setting '' @ [CHR 0x22] @ k @ [CHR 0x22])
                            (Msg ''json: cannot unmarshal''))
           | Some x \<Rightarrow> Inr x))"

definition decode_snapshot :: "setting_row list \<Rightarrow> error + snapshot" where
  "decode_snapshot records =
    (let values = foldl (\<lambda>m r. m(set_name r \<mapsto> set_value r)) Map.empty records in
     bindS (decode_setting values ''maintenance.enabled'' as_bool) (\<lambda>m.
     bindS (decode_setting values ''quota.guest.messages'' as_int64) (\<lambda>gm.
     bindS (decode_setting values ''quota.guest.output_tokens'' as_int64) (\<lambda>go.
     bindS (decode_setting values ''quota.user.messages'' as_int64) (\<lambda>um.
     bindS (decode_setting values ''quota.user.output_tokens'' as_int64) (\<lambda>uo.
     bindS (decode_setting values ''quota.global.output_tokens'' as_int64) (\<lambda>glo.
     bindS (decode_setting values ''quota.global.concurrent_generations'' as_int64) (\<lambda>glc.
     bindS (decode_setting values ''chat.system_prompt'' as_string) (\<lambda>sp.
     bindS (decode_setting values ''chat.summary_model_id'' as_string) (\<lambda>sm.
     bindS (decode_setting values ''safety.input_categories'' as_strings) (\<lambda>ic.
     bindS (decode_setting values ''safety.output_categories'' as_strings) (\<lambda>oc.
     Inr \<lparr>snap_maintenance = m, snap_guest_messages = gm, snap_guest_output = go,
         snap_user_messages = um, snap_user_output = uo, snap_global_output = glo,
         snap_global_concurrent = glc, snap_system_prompt = sp, snap_summary_model_id = sm,
         snap_input_categories = ic, snap_output_categories = oc\<rparr>))))))))))))"

definition load_from_db :: "(world, snapshot) op" where
  "load_from_db =
     bindE (wrap_err ''list runtime settings'' (db_read list_runtime_settings))
       (\<lambda>records. of_sum (decode_snapshot records))"

definition load_and_cache :: "cache option \<Rightarrow> (world, snapshot) op" where
  "load_and_cache c =
     bindE load_from_db (\<lambda>s.
       case c of
         None \<Rightarrow> ok s
       | Some k \<Rightarrow>
           bindE (dropped (cache_put k ''runtime-settings'' ''snapshot''
             (json_text (snapshot_json s)) (10 * second))) (\<lambda>_. ok s))"

definition load_settings :: "cache option \<Rightarrow> (world, snapshot) op" where
  "load_settings c =
     (case c of
        None \<Rightarrow> load_and_cache c
      | Some k \<Rightarrow>
          bindE (attempt (cache_get k ''runtime-settings'' ''snapshot'')) (\<lambda>r.
            case r of
              Inl _ \<Rightarrow> load_and_cache c
            | Inr text \<Rightarrow>
                (case Option.bind (parse_json text) snapshot_of_json of
                   Some s \<Rightarrow> ok s
                 | None \<Rightarrow>
                     bindE (dropped (cache_delete k ''runtime-settings'' ''snapshot''))
                       (\<lambda>_. load_and_cache c))))"

definition invalidate_settings :: "cache option \<Rightarrow> (world, unit) op" where
  "invalidate_settings c =
     (case c of
        None \<Rightarrow> ok ()
      | Some k \<Rightarrow> wrap_err ''invalidate runtime settings cache''
                    (cache_delete k ''runtime-settings'' ''snapshot''))"

section \<open>Lemmas\<close>

text \<open>\<open>Load\<close> keeps what its cache and its query keep.\<close>

lemma keeps_load_settings:
  assumes "keeps I (cache_get k ''runtime-settings'' ''snapshot'')"
    "\<And>v t. keeps I (cache_put k ''runtime-settings'' ''snapshot'' v t)"
    "keeps I (cache_delete k ''runtime-settings'' ''snapshot'')"
    "keeps I (db_read list_runtime_settings)"
  shows "keeps I (load_settings (Some k))"
proof -
  have "keeps I (load_and_cache (Some k))"
    unfolding load_and_cache_def load_from_db_def
    by simp (intro keeps_intros assms)
  then show ?thesis
    unfolding load_settings_def by simp (intro keeps_intros assms)
qed

text \<open>The interface \<open>Cache\<close>: it leaves the database alone, and so does \<open>Load\<close>.\<close>

locale settings_cache =
  fixes k :: cache
  assumes get_db: "keeps (\<lambda>w. P (db w)) (cache_get k ns i)"
    and put_db: "keeps (\<lambda>w. P (db w)) (cache_put k ns i v t)"
    and delete_db: "keeps (\<lambda>w. P (db w)) (cache_delete k ns i)"
begin

lemma keeps_db_load: "keeps (\<lambda>w. P (db w)) (load_settings (Some k))"
  by (intro keeps_load_settings get_db put_db delete_db keeps_db_read)

lemma keeps_db_invalidate: "keeps (\<lambda>w. P (db w)) (invalidate_settings (Some k))"
  unfolding invalidate_settings_def by (simp) (intro keeps_intros delete_db)

end

interpretation rc: settings_cache redis_cache
  by unfold_locales (simp_all add: redis_cache_def keeps_intros)

lemmas keeps_db_settings [keeps_intros] = rc.keeps_db_load rc.keeps_db_invalidate

lemma keeps_no_faults_settings [keeps_intros]:
  "keeps (\<lambda>w. faults w = []) (load_settings (Some redis_cache))"
  by (rule keeps_load_settings) (simp_all add: redis_cache_def keeps_intros)

text \<open>The rows the migrations insert.\<close>

definition default_settings :: "setting_row list" where
  "default_settings = map (\<lambda>(n, k, v). \<lparr>set_name = n, set_kind = k, set_value = v, set_version = 1,
       set_updated_by_user = None, set_updated_at = 0\<rparr>)
     [(''maintenance.enabled'', ''boolean'', JBool False),
      (''quota.guest.messages'', ''integer'', JInt 4),
      (''quota.guest.output_tokens'', ''integer'', JInt 2000),
      (''quota.user.messages'', ''integer'', JInt 50),
      (''quota.user.output_tokens'', ''integer'', JInt 50000),
      (''quota.global.concurrent_generations'', ''integer'', JInt 100),
      (''chat.system_prompt'', ''string'', JStr ''You are Glazz, a helpful assistant.''),
      (''safety.input_categories'', ''string_array'', JArr []),
      (''safety.output_categories'', ''string_array'', JArr []),
      (''quota.global.output_tokens'', ''integer'', JInt 10000000),
      (''chat.summary_model_id'', ''string'', JStr ''00000000-0000-7000-8000-000000000101'')]"

definition default_snapshot :: snapshot where
  "default_snapshot = \<lparr>snap_maintenance = False, snap_guest_messages = 4, snap_guest_output = 2000,
     snap_user_messages = 50, snap_user_output = 50000, snap_global_output = 10000000,
     snap_global_concurrent = 100, snap_system_prompt = ''You are Glazz, a helpful assistant.'',
     snap_summary_model_id = ''00000000-0000-7000-8000-000000000101'',
     snap_input_categories = [], snap_output_categories = []\<rparr>"

lemma decode_default: "decode_snapshot (sort_key set_name default_settings) = Inr default_snapshot"
  by code_simp

text \<open>A load while Redis is down: the cache is asked and written in vain.\<close>

lemma load_default_settings:
  assumes "settings (db w) = default_settings"
  shows "load_settings (Some redis_cache) (w\<lparr>faults := [Some f, None, Some f']\<rparr>)
    = (Inr default_snapshot, w\<lparr>faults := []\<rparr>)"
  using assms decode_default
  by (simp add: load_settings_def load_and_cache_def load_from_db_def redis_cache_def get_value_def
      put_value_def list_runtime_settings_def db_read_def call_def op_defs)

end
