(* ===== verification/Quota.thy ===== *)
theory Quota
  imports Settings
begin

text \<open>
  \<open>internal/quota/service.go\<close> with its queries of \<open>store/platform.sql.go\<close> and
  \<open>store/guests.sql.go\<close>: rate limits, the one-generation lease of an actor, the allowances of
  guests, users and the whole service, and the reservations that charge them. HMAC-SHA256 is the
  parameter \<open>qs_hmac\<close>; an address is the text of its unmapped form (\<open>None\<close>: not valid).
\<close>

section \<open>Data\<close>

record actor =
  act_type :: actor_type
  act_id :: uuid
  act_ip :: "string option"

record policy =
  guest_message_limit :: int
  guest_output_limit :: int
  user_message_limit :: int
  user_output_limit :: int
  global_message_cap :: int
  global_output_cap :: int
  global_concurrent_limit :: int
  actor_requests_per_minute :: int
  ip_requests_per_minute :: int
  generation_lease_ttl :: time

definition default_policy :: policy where
  "default_policy = \<lparr>guest_message_limit = 4, guest_output_limit = 2000,
     user_message_limit = 50, user_output_limit = 50000,
     global_message_cap = 10000, global_output_cap = 10000000, global_concurrent_limit = 100,
     actor_requests_per_minute = 10, ip_requests_per_minute = 30,
     generation_lease_ttl = 5 * minute\<rparr>"

text \<open>The interface \<open>Limiter\<close>, and the fields of \<open>Service\<close> that are not the world.\<close>

record limiter =
  lim_add_rate :: "string \<Rightarrow> int \<Rightarrow> int \<Rightarrow> time \<Rightarrow> (world, rate_result) op"
  lim_acquire :: "string \<Rightarrow> string \<Rightarrow> string \<Rightarrow> time \<Rightarrow> (world, bool) op"
  lim_release :: "string \<Rightarrow> string \<Rightarrow> string \<Rightarrow> (world, bool) op"

definition redis_limiter :: limiter where
  "redis_limiter = \<lparr>lim_add_rate = add_rate_usage, lim_acquire = acquire_lease,
     lim_release = release_lease\<rparr>"

record quota_service =
  qs_limiter :: limiter
  qs_policy :: policy
  qs_policies :: "(world, policy) op option"
  qs_ip_key :: string
  qs_hmac :: "string \<Rightarrow> string \<Rightarrow> string"

record reservation =
  res_id :: uuid
  res_actor :: actor
  res_owner :: string
  res_date :: date
  res_reserved :: int
  res_reset_at :: time

definition hash_ip :: "(string \<Rightarrow> string \<Rightarrow> string) \<Rightarrow> string \<Rightarrow> string \<Rightarrow> string" where
  "hash_ip hmac k address = concat (map (\<lambda>c. hex_fixed 2 (byte c)) (hmac k address))"

text \<open>\<open>midnightUTC\<close>: the day an instant falls on; midnight of day \<open>d\<close> is the instant \<open>d * day\<close>.\<close>

definition usage_day :: "time \<Rightarrow> date" where
  "usage_day t = t div day"

section \<open>Queries\<close>

definition lock_global_admission :: "(world, unit) op" where
  "lock_global_admission = call (ok ())"

definition count_active_reservations :: "database \<Rightarrow> error + int" where
  "count_active_reservations d =
     Inr (int (count_rows (\<lambda>r. rsv_status r = Reserved) (reservations d)))"

text \<open>The CHECKs of \<open>guest_sessions\<close> on its two counters.\<close>

definition guest_counters_ok :: "guest_row \<Rightarrow> bool" where
  "guest_counters_ok g \<longleftrightarrow> 0 \<le> gst_prompt_count g \<and> gst_prompt_count g \<le> 20
     \<and> 0 \<le> gst_output_tokens g \<and> gst_output_tokens g \<le> 10000"

definition increment_guest_allowance ::
  "int \<Rightarrow> time \<Rightarrow> uuid \<Rightarrow> int \<Rightarrow> int \<Rightarrow> database \<Rightarrow> error + guest_row \<times> database" where
  "increment_guest_allowance tokens t guest message_limit output_limit d =
     (case find (\<lambda>g. gst_id g = guest \<and> gst_migrated_user_id g = None \<and> t < gst_expires_at g
               \<and> gst_prompt_count g < message_limit) (guest_sessions d) of
        None \<Rightarrow> Inl NoRows
      | Some g \<Rightarrow>
          let total = gst_output_tokens g + tokens;
              g' = g\<lparr>gst_prompt_count := gst_prompt_count g + 1, gst_output_tokens := total,
                     gst_last_seen_at := t\<rparr>
          in if total \<ge> 2 ^ 31 then Inl out_of_range
             else if total > output_limit then Inl NoRows
             else if \<not> guest_counters_ok g' then Inl (check_violation ''guest_sessions'')
             else Inr (g', d\<lparr>guest_sessions :=
                    upd_rows (\<lambda>r. gst_id r = guest) (\<lambda>_. g') (guest_sessions d)\<rparr>))"

definition adjust_guest_output :: "int \<Rightarrow> time \<Rightarrow> uuid \<Rightarrow> database \<Rightarrow> error + unit \<times> database" where
  "adjust_guest_output delta t guest d =
     (let upd = (\<lambda>g. g\<lparr>gst_output_tokens := max (gst_output_tokens g + delta) 0,
                       gst_last_seen_at := t\<rparr>)
      in if list_ex (\<lambda>g. gst_id g = guest \<and> \<not> guest_counters_ok (upd g)) (guest_sessions d)
         then Inl (check_violation ''guest_sessions'')
         else Inr ((), d\<lparr>guest_sessions :=
                upd_rows (\<lambda>g. gst_id g = guest) upd (guest_sessions d)\<rparr>))"

definition get_guest_session :: "uuid \<Rightarrow> database \<Rightarrow> error + guest_row" where
  "get_guest_session guest d =
     (case find (\<lambda>g. gst_id g = guest) (guest_sessions d) of None \<Rightarrow> Inl NoRows | Some g \<Rightarrow> Inr g)"

definition usage_key :: "actor_type \<Rightarrow> uuid \<Rightarrow> date \<Rightarrow> usage_row \<Rightarrow> bool" where
  "usage_key at i dt u \<longleftrightarrow> us_actor_type u = at \<and> us_actor_id u = i \<and> us_date u = dt"

definition get_daily_usage :: "actor_type \<Rightarrow> uuid \<Rightarrow> date \<Rightarrow> database \<Rightarrow> error + usage_row" where
  "get_daily_usage at i dt d =
     (case find (usage_key at i dt) (daily_usage d) of None \<Rightarrow> Inl NoRows | Some u \<Rightarrow> Inr u)"

text \<open>
  INSERT .. ON CONFLICT DO UPDATE .. WHERE: a first row is inserted without looking at the
  limits; a row that is over a limit is not updated and nothing is returned.
\<close>

definition add_daily_usage ::
  "actor_type \<Rightarrow> uuid \<Rightarrow> date \<Rightarrow> int \<Rightarrow> int \<Rightarrow> int \<Rightarrow> time \<Rightarrow> database \<Rightarrow>
     error + usage_row \<times> database" where
  "add_daily_usage at i dt tokens message_limit output_limit t d =
     (case find (usage_key at i dt) (daily_usage d) of
        None \<Rightarrow>
          let u = \<lparr>us_actor_type = at, us_actor_id = i, us_date = dt, us_messages = 1,
                   us_tokens = tokens, us_updated_at = t\<rparr>
          in if tokens < 0 then Inl (check_violation ''daily_usage'')
             else Inr (u, d\<lparr>daily_usage := daily_usage d @ [u]\<rparr>)
      | Some u \<Rightarrow>
          let u' = u\<lparr>us_messages := us_messages u + 1, us_tokens := us_tokens u + tokens,
                     us_updated_at := t\<rparr>
          in if us_messages u' \<ge> 2 ^ 31 \<or> us_tokens u' \<ge> 2 ^ 63 then Inl out_of_range
             else if us_messages u' > message_limit \<or> us_tokens u' > output_limit then Inl NoRows
             else if us_tokens u' < 0 then Inl (check_violation ''daily_usage'')
             else Inr (u', d\<lparr>daily_usage := upd_rows (usage_key at i dt) (\<lambda>_. u') (daily_usage d)\<rparr>))"

definition adjust_daily_output ::
  "int \<Rightarrow> time \<Rightarrow> actor_type \<Rightarrow> uuid \<Rightarrow> date \<Rightarrow> database \<Rightarrow> error + unit \<times> database" where
  "adjust_daily_output delta t at i dt d =
     Inr ((), d\<lparr>daily_usage := upd_rows (usage_key at i dt)
       (\<lambda>u. u\<lparr>us_tokens := max (us_tokens u + delta) 0, us_updated_at := t\<rparr>) (daily_usage d)\<rparr>)"

definition create_quota_reservation ::
  "uuid \<Rightarrow> actor_type \<Rightarrow> uuid \<Rightarrow> date \<Rightarrow> int \<Rightarrow> database \<Rightarrow> error + unit \<times> database" where
  "create_quota_reservation i at actor dt reserved d =
     (if reserved \<le> 0 then Inl (check_violation ''quota_reservations'')
      else if list_ex (\<lambda>r. rsv_id r = i) (reservations d)
      then Inl (unique_violation ''quota_reservations_pkey'')
      else Inr ((), d\<lparr>reservations := reservations d @
        [\<lparr>rsv_id = i, rsv_actor_type = at, rsv_actor_id = actor, rsv_date = dt,
          rsv_reserved = reserved, rsv_actual = None, rsv_status = Reserved,
          rsv_settled_at = None\<rparr>]\<rparr>))"

definition lock_quota_reservation :: "uuid \<Rightarrow> database \<Rightarrow> error + reservation_row" where
  "lock_quota_reservation i d =
     (case find (\<lambda>r. rsv_id r = i) (reservations d) of None \<Rightarrow> Inl NoRows | Some r \<Rightarrow> Inr r)"

definition settle_quota_reservation ::
  "uuid \<Rightarrow> int \<Rightarrow> reservation_status \<Rightarrow> time \<Rightarrow> database \<Rightarrow> error + int \<times> database" where
  "settle_quota_reservation i actual status t d =
     (let hit = (\<lambda>r. rsv_id r = i \<and> rsv_status r = Reserved)
      in if actual < 0 \<and> list_ex hit (reservations d)
         then Inl (check_violation ''quota_reservations'')
         else Inr (int (count_rows hit (reservations d)), d\<lparr>reservations :=
           upd_rows hit (\<lambda>r. r\<lparr>rsv_actual := Some actual, rsv_status := status,
             rsv_settled_at := Some t\<rparr>) (reservations d)\<rparr>))"

section \<open>The service\<close>

definition current_policy :: "quota_service \<Rightarrow> (world, policy) op" where
  "current_policy s =
     (case qs_policies s of
        None \<Rightarrow> ok (qs_policy s)
      | Some source \<Rightarrow> wrap_err ''load quota policy'' source)"

definition rate_bucket :: "time \<Rightarrow> string" where
  "rate_bucket t = rfc3339 (t - t mod minute)"

definition apply_rate_limits :: "quota_service \<Rightarrow> actor \<Rightarrow> time \<Rightarrow> policy \<Rightarrow> (world, unit) op" where
  "apply_rate_limits s a t p =
     bindE (wrap_err ''apply actor rate limit''
       (lim_add_rate (qs_limiter s) (''actor:'' @ rate_bucket t @ '':'' @ uuid_string (act_id a))
          1 (actor_requests_per_minute p) minute))
     (\<lambda>r. if \<not> rr_allowed r then fail QuotaExceeded
          else case act_ip a of
                 None \<Rightarrow> ok ()
               | Some ip \<Rightarrow>
                   bindE (wrap_err ''apply IP rate limit''
                     (lim_add_rate (qs_limiter s)
                        (''ip:'' @ rate_bucket t @ '':'' @ hash_ip (qs_hmac s) (qs_ip_key s) ip)
                        1 (ip_requests_per_minute p) minute))
                   (\<lambda>r. if \<not> rr_allowed r then fail QuotaExceeded else ok ()))"

text \<open>
  An allowance query of \<open>Reserve\<close>: no row means the limit is reached, any other error is
  wrapped.
\<close>

definition charge :: "string \<Rightarrow> (database \<Rightarrow> error + 'a \<times> database) \<Rightarrow> (world, unit) op" where
  "charge what q =
     bindE (attempt (db_exec q))
       (\<lambda>r. case r of
              Inl e \<Rightarrow> if errors_is e NoRows then fail QuotaExceeded else fail (Wrap what e)
            | Inr _ \<Rightarrow> ok ())"

definition reserve_tx :: "policy \<Rightarrow> actor \<Rightarrow> int \<Rightarrow> time \<Rightarrow> uuid \<Rightarrow> (world, unit) op" where
  "reserve_tx p a tokens t rid =
     bindE (wrap_err ''lock global generation admission'' lock_global_admission) (\<lambda>_.
     bindE (wrap_err ''count global active generations'' (db_read count_active_reservations))
       (\<lambda>active.
     if active \<ge> global_concurrent_limit p then fail QuotaBusy
     else
       bindE (if act_type a = Guest
              then charge ''reserve guest allowance'' (increment_guest_allowance tokens t (act_id a)
                     (int32 (guest_message_limit p)) (int32 (guest_output_limit p)))
              else charge ''reserve user allowance'' (add_daily_usage User (act_id a) (usage_day t)
                     tokens (int32 (user_message_limit p)) (user_output_limit p) t)) (\<lambda>_.
       bindE (charge ''reserve global allowance'' (add_daily_usage Global uuid_nil (usage_day t)
                tokens (int32 (global_message_cap p)) (global_output_cap p) t)) (\<lambda>_.
       db_exec (create_quota_reservation rid (act_type a) (act_id a) (usage_day t) tokens)))))"

definition actor_valid :: "actor \<Rightarrow> bool" where
  "actor_valid a \<longleftrightarrow> (act_type a = Guest \<or> act_type a = User) \<and> act_id a \<noteq> uuid_nil"

definition reserve :: "quota_service \<Rightarrow> actor \<Rightarrow> int \<Rightarrow> (world, reservation) op" where
  "reserve s a tokens =
     (if \<not> actor_valid a \<or> tokens \<le> 0 \<or> length (qs_ip_key s) < 32 then fail QuotaInvalid
      else
        bindE clock_now (\<lambda>t.
        bindE (current_policy s) (\<lambda>p.
        bindE (apply_rate_limits s a t p) (\<lambda>_.
        bindE ids_new (\<lambda>rid.
        bindE (secure_token 24) (\<lambda>owner.
        bindE (wrap_err ''acquire generation lease''
          (lim_acquire (qs_limiter s) ''generation'' (uuid_string (act_id a)) owner
             (generation_lease_ttl p))) (\<lambda>acquired.
        if \<not> acquired then fail QuotaBusy
        else
          on_error (lim_release (qs_limiter s) ''generation'' (uuid_string (act_id a)) owner)
            (bindE (within_transaction (reserve_tx p a tokens t rid)) (\<lambda>_.
             ok \<lparr>res_id = rid, res_actor = a, res_owner = owner, res_date = usage_day t,
                 res_reserved = tokens, res_reset_at = (usage_day t + 1) * day\<rparr>)))))))))"

definition output_usage :: "actor_type \<Rightarrow> uuid \<Rightarrow> date \<Rightarrow> (world, int) op" where
  "output_usage at i dt =
     bindE (attempt (db_read (get_daily_usage at i dt)))
       (\<lambda>r. case r of
              Inl e \<Rightarrow> if errors_is e NoRows then ok 0 else fail (Wrap ''load daily output usage'' e)
            | Inr u \<Rightarrow> ok (us_tokens u))"

definition available_output_tokens :: "int \<Rightarrow> int list \<Rightarrow> error + int" where
  "available_output_tokens model_limit remaining =
     (let available = foldl (\<lambda>a v. if v < a then v else a) model_limit remaining
      in if available \<le> 0 then Inl QuotaExceeded else Inr (int32 available))"

definition max_output_tokens :: "quota_service \<Rightarrow> actor \<Rightarrow> int \<Rightarrow> (world, int) op" where
  "max_output_tokens s a model_limit =
     (if model_limit \<le> 0 \<or> \<not> actor_valid a then fail QuotaInvalid
      else
        bindE (current_policy s) (\<lambda>p.
        bindE clock_now (\<lambda>t.
        bindE (if act_type a = Guest
               then bindE (wrap_err ''load guest output usage''
                      (db_read (get_guest_session (act_id a))))
                      (\<lambda>g. ok (guest_output_limit p - gst_output_tokens g))
               else bindE (output_usage User (act_id a) (usage_day t))
                      (\<lambda>used. ok (user_output_limit p - used))) (\<lambda>actor_left.
        bindE (output_usage Global uuid_nil (usage_day t)) (\<lambda>global_used.
        case available_output_tokens model_limit
               [actor_left, global_output_cap p - global_used] of
          Inl e \<Rightarrow> fail e | Inr n \<Rightarrow> ok n)))))"

text \<open>The rest of the settling transaction, once the reservation's row is locked.\<close>

definition settle_found :: "reservation \<Rightarrow> int \<Rightarrow> time \<Rightarrow> reservation_row \<Rightarrow> (world, unit) op" where
  "settle_found res actual t r =
     (if rsv_status r \<noteq> Reserved then ok ()
      else if rsv_actor_type r \<noteq> act_type (res_actor res)
           \<or> rsv_actor_id r \<noteq> act_id (res_actor res)
           \<or> rsv_reserved r \<noteq> res_reserved res then fail QuotaInvalid
      else let refund = rsv_reserved r - actual in
        bindE (if 0 < refund
               then bindE (if act_type (res_actor res) = Guest
                      then wrap_err ''refund guest allowance''
                        (db_exec (adjust_guest_output (- refund) t (act_id (res_actor res))))
                      else wrap_err ''refund user allowance''
                        (db_exec (adjust_daily_output (- refund) t User
                           (act_id (res_actor res)) (rsv_date r)))) (\<lambda>_.
                    wrap_err ''refund global allowance''
                      (db_exec (adjust_daily_output (- refund) t Global uuid_nil (rsv_date r))))
               else ok ()) (\<lambda>_.
        bindE (wrap_err ''settle quota reservation''
                (db_exec (settle_quota_reservation (res_id res) actual
                   (if actual = 0 then Refunded else Committed) t))) (\<lambda>updated.
        if updated \<noteq> 1 then fail QuotaInvalid else ok ())))"

definition settle_tx :: "reservation \<Rightarrow> int \<Rightarrow> time \<Rightarrow> (world, unit) op" where
  "settle_tx res actual t =
     bindE (attempt (db_read (lock_quota_reservation (res_id res)))) (\<lambda>found.
     case found of
       Inl e \<Rightarrow> if errors_is e NoRows then fail QuotaInvalid
                else fail (Wrap ''lock quota reservation'' e)
     | Inr r \<Rightarrow> settle_found res actual t r)"

definition settle :: "quota_service \<Rightarrow> reservation \<Rightarrow> int \<Rightarrow> (world, unit) op" where
  "settle s res actual =
     deferred (lim_release (qs_limiter s) ''generation''
                (uuid_string (act_id (res_actor res))) (res_owner res))
       (if actual < 0 \<or> res_reserved res < actual then fail QuotaInvalid
        else bindE clock_now (\<lambda>t. within_transaction (settle_tx res actual t)))"


text \<open>The service \<open>cmd/api/main.go\<close> builds: its policy is read from the runtime settings.\<close>

definition runtime_policy :: "cache option \<Rightarrow> (world, policy) op" where
  "runtime_policy c =
     bindE (load_settings c) (\<lambda>s. ok (default_policy
       \<lparr>guest_message_limit := snap_guest_messages s,
        guest_output_limit := snap_guest_output s,
        user_message_limit := snap_user_messages s,
        user_output_limit := snap_user_output s,
        global_output_cap := snap_global_output s,
        global_concurrent_limit := snap_global_concurrent s\<rparr>))"

definition api_quota :: "(string \<Rightarrow> string \<Rightarrow> string) \<Rightarrow> string \<Rightarrow> quota_service" where
  "api_quota hmac signing_key =
     \<lparr>qs_limiter = redis_limiter, qs_policy = default_policy,
      qs_policies = Some (runtime_policy (Some redis_cache)), qs_ip_key = signing_key,
      qs_hmac = hmac\<rparr>"

section \<open>The limiter's contract\<close>

text \<open>
  What the service relies on: limiter and policy source leave the database alone, a lease is
  granted only when nobody holds it, and releasing it with its owner's token frees it.
\<close>

definition lease_owner :: "world \<Rightarrow> uuid \<Rightarrow> string option" where
  "lease_owner w i =
     (case live w (redis_key w [''lease'', ''generation'', uuid_string i]) of
        Some (RStr v) \<Rightarrow> Some v | _ \<Rightarrow> None)"

text \<open>A step that changes no generation lease and meets no fault of its own.\<close>

definition quiet :: "world \<Rightarrow> world \<Rightarrow> bool" where
  "quiet w w' \<longleftrightarrow> (\<forall>u. lease_owner w' u = lease_owner w u) \<and> (faults w = [] \<longrightarrow> faults w' = [])"

lemma quiet_refl [simp]: "quiet w w"
  by (simp add: quiet_def)

lemma quiet_trans: "quiet w w1 \<Longrightarrow> quiet w1 w2 \<Longrightarrow> quiet w w2"
  by (simp add: quiet_def)

lemma quietI:
  assumes "\<And>u x. keeps (\<lambda>w. lease_owner w u = x) m" "keeps (\<lambda>w. faults w = []) m" "m w = (r, w')"
  shows "quiet w w'"
proof -
  have "lease_owner w' u = lease_owner w u" for u
    using keepsD_eq [OF assms(1) refl assms(3)] .
  moreover have "faults w = [] \<Longrightarrow> faults w' = []"
    using keepsD_eq [OF assms(2) _ assms(3)] by simp
  ultimately show ?thesis by (simp add: quiet_def)
qed

lemma live_faults [simp]: "live (w\<lparr>faults := fs\<rparr>) k = live w k"
  by (simp add: live_def split: option.splits)

lemma key_faults [simp]: "redis_key (w\<lparr>faults := fs\<rparr>) ps = redis_key w ps"
  by (simp add: redis_key_def)

lemma key_set_key [simp]: "redis_key (set_key k v t w) ps = redis_key w ps"
  by (simp add: redis_key_def set_key_def)

lemma key_del_key [simp]: "redis_key (del_key k w) ps = redis_key w ps"
  by (simp add: redis_key_def del_key_def)

lemma live_set_key: "live (set_key k v (Some t) w) k = (if now w < t then Some v else None)"
  by (simp add: live_def set_key_def)

lemma live_del_key: "live (del_key k w) k = None"
  by (simp add: live_def del_key_def)

lemma live_other:
  "k \<noteq> k' \<Longrightarrow> live (set_key k v t w) k' = live w k'"
  "k \<noteq> k' \<Longrightarrow> live (del_key k w) k' = live w k'"
  by (simp_all add: live_def set_key_def del_key_def split: option.splits)

lemma lease_key_other:
  "redis_key w [''rate'', b] \<noteq> redis_key w [''lease'', ns, i]"
  "redis_key w [''runtime-settings'', b] \<noteq> redis_key w [''lease'', ns, i]"
  by (simp_all add: redis_key_def replace_char_def)

lemma lease_owner_view [intro]: "redis_view (\<lambda>w. lease_owner w u = x)"
  by (simp add: redis_view_def lease_owner_def live_def redis_key_def cong: option.case_cong)

lemma lease_owner_rate_script:
  "lease_owner (snd (rate_script (redis_key w [''rate'', b]) a l m w)) u = lease_owner w u"
  using lease_key_other(1) [of w b]
  by (auto simp: rate_script_def lease_owner_def Let_def live_other
      split: option.splits redis_value.splits)

lemma keeps_lease_rate: "keeps (\<lambda>w. lease_owner w u = x) (add_rate_usage b a l t)"
  unfolding add_rate_usage_def
  by (intro keeps_intros keeps_call_view lease_owner_view) (simp add: lease_owner_rate_script)

lemma keeps_lease_settings: "keeps (\<lambda>w. lease_owner w u = x) (load_settings (Some redis_cache))"
proof (rule keeps_load_settings)
  show "keeps (\<lambda>w. lease_owner w u = x) (cache_get redis_cache ''runtime-settings'' ''snapshot'')"
    by (simp add: redis_cache_def keeps_view_get lease_owner_view)
  show "keeps (\<lambda>w. lease_owner w u = x) (cache_put redis_cache ''runtime-settings'' ''snapshot'' v t)" for v t
    unfolding redis_cache_def put_value_def cache.simps
    by (intro keeps_intros keeps_call_view lease_owner_view)
      (simp add: lease_owner_def live_other lease_key_other)
  show "keeps (\<lambda>w. lease_owner w u = x) (cache_delete redis_cache ''runtime-settings'' ''snapshot'')"
    unfolding redis_cache_def delete_key_def cache.simps
    by (intro keeps_call_view lease_owner_view)
      (simp add: lease_owner_def live_other lease_key_other)
qed (intro view_intros lease_owner_view)

lemma acquire_lease_owner:
  "acquire_lease ''generation'' (uuid_string u) own t w = (Inr True, w') \<Longrightarrow>
   lease_owner w u = None \<and> lease_owner w' u = Some own"
  by (auto simp: acquire_lease_def lease_owner_def Let_def live_set_key
      split: if_splits option.splits elim!: op_elims)

lemma release_lease_runs:
  "faults w = [] \<Longrightarrow> lease_owner w u = Some own \<Longrightarrow>
   \<exists>r w'. release_lease ''generation'' (uuid_string u) own w = (Inr r, w')"
  by (auto simp: release_lease_def lease_owner_def call_def op_defs Let_def
      split: option.splits redis_value.splits)

lemma lease_owner_faults [simp]: "lease_owner (w\<lparr>faults := fs\<rparr>) u = lease_owner w u"
  by (simp add: lease_owner_def)

lemma acquire_lease_refused:
  "acquire_lease ns i own t w = (z, w') \<Longrightarrow> z \<noteq> Inr True \<Longrightarrow> quiet w w'"
  by (auto simp: quiet_def dest!: acquire_refused_world)

lemma release_lease_owner:
  "release_lease ''generation'' (uuid_string u) own w = (Inr r, w') \<Longrightarrow>
   lease_owner w' u = (if lease_owner w u = Some own then None else lease_owner w u)"
  by (auto simp: release_lease_def lease_owner_def Let_def live_del_key
      split: if_splits option.splits redis_value.splits elim!: op_elims)

locale quota_contract =
  fixes S :: quota_service
  assumes rate_db: "keeps (\<lambda>w. db w = d) (lim_add_rate (qs_limiter S) b n l t)"
    and acquire_db: "keeps (\<lambda>w. db w = d) (lim_acquire (qs_limiter S) ns i own t)"
    and release_db: "keeps (\<lambda>w. db w = d) (lim_release (qs_limiter S) ns i own)"
    and policy_db: "keeps (\<lambda>w. db w = d) (current_policy S)"
    and acquire_owner:
      "lim_acquire (qs_limiter S) ''generation'' (uuid_string u) own t w = (Inr True, w') \<Longrightarrow>
       lease_owner w u = None \<and> lease_owner w' u = Some own"
    and release_owner:
      "lim_release (qs_limiter S) ''generation'' (uuid_string u) own w = (Inr r, w') \<Longrightarrow>
       lease_owner w' u = (if lease_owner w u = Some own then None else lease_owner w u)"
    and rate_quiet: "lim_add_rate (qs_limiter S) b n l t w = (x, w') \<Longrightarrow> quiet w w'"
    and policy_quiet: "current_policy S w = (y, w') \<Longrightarrow> quiet w w'"
    and acquire_quiet:
      "lim_acquire (qs_limiter S) ''generation'' (uuid_string u) own t w = (z, w') \<Longrightarrow>
       z \<noteq> Inr True \<Longrightarrow> quiet w w'"
    and acquire_no_faults:
      "keeps (\<lambda>w. faults w = []) (lim_acquire (qs_limiter S) ns i own t)"
    and release_runs:
      "faults w = [] \<Longrightarrow> lease_owner w u = Some own \<Longrightarrow>
       \<exists>r w'. lim_release (qs_limiter S) ''generation'' (uuid_string u) own w = (Inr r, w')"
begin

lemma keeps_rate_limits: "keeps (\<lambda>w. db w = d) (apply_rate_limits S a t p)"
  unfolding apply_rate_limits_def by (intro keeps_intros rate_db)

lemma acquire_db_eq:
  "lim_acquire (qs_limiter S) ns i own t w = (r, w') \<Longrightarrow> db w' = db w"
  by (rule keepsD_eq [OF acquire_db]) auto

lemma rate_limits_db_eq: "apply_rate_limits S a t p w = (r, w') \<Longrightarrow> db w' = db w"
  by (rule keepsD_eq [OF keeps_rate_limits]) auto

lemma policy_db_eq: "current_policy S w = (r, w') \<Longrightarrow> db w' = db w"
  by (rule keepsD_eq [OF policy_db]) auto

lemma release_db_eq: "db (snd (lim_release (qs_limiter S) ns i own w)) = db w"
  using keepsD [OF release_db] by simp

lemma policy_run:
  "current_policy S w = (r, w') \<Longrightarrow> db w' = db w \<and> fst (current_policy S w) = r"
  by (simp add: policy_db_eq)

text \<open>A reservation that was granted ran its transaction once, on the database it found.\<close>

lemma reserve_okD:
  assumes "reserve S a tokens w = (Inr res, w')"
  obtains p w1 w2 where "reserve_tx p a tokens (now w) (res_id res) w1 = (Inr (), w2)"
    "fst (current_policy S w) = Inr p" "db w1 = db w" "db w' = db w2" "actor_valid a" "0 < tokens"
    "res_actor res = a" "res_reserved res = tokens" "res_date res = usage_day (now w)"
proof -
  have valid: "actor_valid a" "0 < tokens" "\<not> length (qs_ip_key S) < 32"
    using assms by (auto simp: reserve_def split: if_splits)
  show thesis
    using assms valid unfolding reserve_def
    apply (simp split: if_splits)
    apply (elim op_elims)
    apply (auto split: if_splits elim!: op_elims within_transaction_okD
        dest!: policy_run rate_limits_db_eq acquire_db_eq ids_new_db secure_token_db)
    apply (rule that, simp, assumption+, simp_all)
    done
qed

text \<open>A reservation that was refused left the database as it was.\<close>

lemma reserve_error_db:
  assumes "reserve S a tokens w = (Inl e, w')"
  shows "db w' = db w"
  using assms unfolding reserve_def
  by (auto split: if_splits prod.splits sum.splits elim!: bindE_errE
      simp: on_error_def wrap_err_def release_db_eq
      dest!: policy_db_eq rate_limits_db_eq acquire_db_eq ids_new_db secure_token_db
        within_transaction_error_db)

end


lemma policy_parts:
  "keeps I (load_settings (Some redis_cache)) \<Longrightarrow> keeps I (current_policy (api_quota hmac k))"
  unfolding current_policy_def api_quota_def runtime_policy_def
  by simp (intro keeps_intros, assumption)

interpretation aq: quota_contract "api_quota hmac k" for hmac k
proof (unfold_locales, goal_cases)
  case (4 d)
  then show ?case by (intro policy_parts keeps_db_settings)
next
  case (8 w y w')
  show ?case
    using 8
    by (intro quietI [of "current_policy (api_quota hmac k)"] policy_parts keeps_lease_settings
        keeps_no_faults_settings)
next
  case (7 b n l t w x w')
  then show ?case
    by (intro quietI [of "add_rate_usage b n l t"] keeps_lease_rate keeps_no_faults_rate)
      (simp add: api_quota_def redis_limiter_def)
qed (auto simp: api_quota_def redis_limiter_def intro: keeps_intros release_lease_runs
    dest: acquire_lease_owner release_lease_owner acquire_lease_refused)

section \<open>What the transactions do to the database\<close>

lemma keeps_charge [keeps_intros]: "keeps I (db_exec q) \<Longrightarrow> keeps I (charge what q)"
  unfolding charge_def by (intro keeps_intros)

lemma keeps_reserve_tx_view: "redis_view I \<Longrightarrow> keeps I (reserve_tx p a n t rid)"
  unfolding reserve_tx_def lock_global_admission_def
  by (intro keeps_intros view_intros keeps_call_view) (simp_all add: ok_def)

lemma keeps_reserve_tx_faults: "keeps (\<lambda>w. faults w = []) (reserve_tx p a n t rid)"
  unfolding reserve_tx_def lock_global_admission_def
  by (intro keeps_intros keeps_no_faults_call) (simp_all add: ok_def)

lemma charge_okD: "charge what q w = (Inr u, w') \<Longrightarrow> \<exists>x. q (db w) = Inr (x, db w')"
  by (auto simp: charge_def split: sum.splits if_splits elim!: op_elims dest!: db_exec_okD)

lemma lock_admission_db: "lock_global_admission w = (r, w') \<Longrightarrow> db w' = db w"
  by (auto simp: lock_global_admission_def call_def split: list.splits option.splits)

text \<open>The three changes of a granted reservation, in order.\<close>

definition reserve_db :: "policy \<Rightarrow> actor \<Rightarrow> int \<Rightarrow> time \<Rightarrow> uuid \<Rightarrow> database \<Rightarrow> database \<Rightarrow> bool" where
  "reserve_db p a tokens t rid d d' \<longleftrightarrow>
     int (count_rows (\<lambda>r. rsv_status r = Reserved) (reservations d)) < global_concurrent_limit p \<and>
     (\<exists>d1 d2 x y.
        (if act_type a = Guest
         then increment_guest_allowance tokens t (act_id a) (int32 (guest_message_limit p))
                (int32 (guest_output_limit p)) d = Inr (x, d1)
         else \<exists>u. add_daily_usage User (act_id a) (usage_day t) tokens
                (int32 (user_message_limit p)) (user_output_limit p) t d = Inr (u, d1)) \<and>
        add_daily_usage Global uuid_nil (usage_day t) tokens (int32 (global_message_cap p))
          (global_output_cap p) t d1 = Inr (y, d2) \<and>
        create_quota_reservation rid (act_type a) (act_id a) (usage_day t) tokens d2 = Inr ((), d'))"

lemma reserve_tx_okD:
  "reserve_tx p a tokens t rid w = (Inr u, w') \<Longrightarrow> reserve_db p a tokens t rid (db w) (db w')"
  unfolding reserve_tx_def reserve_db_def
  by (auto split: if_splits elim!: op_elims dest!: db_read_okD charge_okD db_exec_okD lock_admission_db
      simp: count_active_reservations_def)

section \<open>Accounting\<close>

text \<open>
  What a reservation costs its actor: what it reserved while it is open, what it used once it is
  settled. In a database that is in balance every counter is the sum of the costs of the
  reservations charged to it.
\<close>

definition cost :: "reservation_row \<Rightarrow> int" where
  "cost r = (if rsv_status r = Reserved then rsv_reserved r
             else case rsv_actual r of Some n \<Rightarrow> n | None \<Rightarrow> 0)"

definition costs :: "(reservation_row \<Rightarrow> bool) \<Rightarrow> reservation_row list \<Rightarrow> int" where
  "costs P rs = sum_list (map cost (filter P rs))"

definition used :: "actor_type \<Rightarrow> uuid \<Rightarrow> date \<Rightarrow> database \<Rightarrow> int" where
  "used at i dt d =
     (case find (usage_key at i dt) (daily_usage d) of None \<Rightarrow> 0 | Some u \<Rightarrow> us_tokens u)"

definition reservation_ok :: "reservation_row \<Rightarrow> bool" where
  "reservation_ok r \<longleftrightarrow> 0 < rsv_reserved r \<and> 0 \<le> cost r \<and> cost r \<le> rsv_reserved r"

abbreviation charged_to :: "uuid \<Rightarrow> date \<Rightarrow> reservation_row \<Rightarrow> bool" where
  "charged_to i dt \<equiv> \<lambda>r. rsv_actor_type r \<noteq> Guest \<and> rsv_actor_id r = i \<and> rsv_date r = dt"

abbreviation charged_to_guest :: "uuid \<Rightarrow> reservation_row \<Rightarrow> bool" where
  "charged_to_guest i \<equiv> \<lambda>r. rsv_actor_type r = Guest \<and> rsv_actor_id r = i"

definition in_balance :: "database \<Rightarrow> bool" where
  "in_balance d \<longleftrightarrow>
     distinct (map rsv_id (reservations d)) \<and> list_all reservation_ok (reservations d) \<and>
     (\<forall>i dt. used User i dt d = costs (charged_to i dt) (reservations d)) \<and>
     (\<forall>dt. used Global uuid_nil dt d = costs (\<lambda>r. rsv_date r = dt) (reservations d)) \<and>
     list_all (\<lambda>g. gst_output_tokens g = costs (charged_to_guest (gst_id g)) (reservations d))
       (guest_sessions d)"

lemma usage_key_set [simp]:
  "usage_key at i dt (u\<lparr>us_tokens := n, us_updated_at := t\<rparr>) = usage_key at i dt u"
  by (simp add: usage_key_def)

lemma usage_key_eq:
  "usage_key at i dt u \<Longrightarrow> usage_key at' i' dt' u \<longleftrightarrow> at' = at \<and> i' = i \<and> dt' = dt"
  by (auto simp: usage_key_def)

lemma find_usage_upd:
  assumes "\<And>u. usage_key at i dt u \<Longrightarrow> usage_key at i dt (f u)"
  shows "find (usage_key at' i' dt') (upd_rows (usage_key at i dt) f us) =
     (if at' = at \<and> i' = i \<and> dt' = dt then map_option f (find (usage_key at i dt) us)
      else find (usage_key at' i' dt') us)"
proof (induction us)
  case (Cons u us)
  show ?case
  proof (cases "usage_key at i dt u")
    case True
    show ?thesis
      using Cons by (simp add: True usage_key_eq [OF True] usage_key_eq [OF assms [OF True]])
  next
    case False
    with Cons show ?thesis by auto
  qed
qed simp

lemma add_daily_usage_db:
  assumes "add_daily_usage at i dt tokens ml ol t d = Inr (u, d')"
  shows "used at' i' dt' d' = used at' i' dt' d + (if at' = at \<and> i' = i \<and> dt' = dt then tokens else 0)
    \<and> reservations d' = reservations d \<and> guest_sessions d' = guest_sessions d"
proof (cases "find (usage_key at i dt) (daily_usage d)")
  case None
  with assms show ?thesis
    by (auto simp: add_daily_usage_def used_def Let_def find_append usage_key_def
        split: if_splits option.splits)
next
  case (Some x)
  then have key: "usage_key at i dt x"
    by (auto dest: find_Some_iff_mem)
  with assms Some have "d' = d\<lparr>daily_usage := upd_rows (usage_key at i dt) (\<lambda>_. u) (daily_usage d)\<rparr>"
    and u: "us_tokens u = us_tokens x + tokens" "usage_key at i dt u"
    by (auto simp: add_daily_usage_def Let_def usage_key_def split: if_splits)
  then show ?thesis
    using Some key by (simp add: used_def find_usage_upd)
qed

lemma adjust_daily_output_used:
  "adjust_daily_output delta t at i dt d = Inr (u, d') \<Longrightarrow>
   (\<forall>at' i' dt'. used at' i' dt' d' =
     (if at' = at \<and> i' = i \<and> dt' = dt \<and> find (usage_key at i dt) (daily_usage d) \<noteq> None
      then max (used at i dt d + delta) 0 else used at' i' dt' d))
   \<and> reservations d' = reservations d \<and> guest_sessions d' = guest_sessions d"
  by (cases "find (usage_key at i dt) (daily_usage d)")
    (auto simp: adjust_daily_output_def used_def find_usage_upd)

text \<open>The guest's own counter.\<close>

lemma increment_guest_db:
  assumes "increment_guest_allowance tokens t i ml ol d = Inr (g', d')"
  obtains g where "gst_id g = i" "g \<in> set (guest_sessions d)"
    "gst_output_tokens g' = gst_output_tokens g + tokens" "gst_id g' = i"
    "gst_prompt_count g' = gst_prompt_count g + 1"
    "gst_prompt_count g < ml" "gst_output_tokens g' \<le> ol" "gst_migrated_user_id g = None"
    "t < gst_expires_at g" "guest_counters_ok g'"
    "d' = d\<lparr>guest_sessions := upd_rows (\<lambda>r. gst_id r = i) (\<lambda>_. g') (guest_sessions d)\<rparr>"
  using assms
  by (auto simp: increment_guest_allowance_def Let_def split: option.splits if_splits
      dest!: find_Some_iff_mem intro: that)

lemma used_guest_sessions [simp]: "used at i dt (d\<lparr>guest_sessions := gs\<rparr>) = used at i dt d"
  by (simp add: used_def)

lemma used_reservations [simp]: "used at i dt (d\<lparr>reservations := rs\<rparr>) = used at i dt d"
  by (simp add: used_def)

lemma costs_append [simp]: "costs P (rs @ [r]) = costs P rs + (if P r then cost r else 0)"
  by (simp add: costs_def)

lemma create_reservation_db:
  "create_quota_reservation rid at i dt n d = Inr (u, d') \<Longrightarrow>
   0 < n \<and> rid \<notin> rsv_id ` set (reservations d) \<and>
   d' = d\<lparr>reservations := reservations d @
        [\<lparr>rsv_id = rid, rsv_actor_type = at, rsv_actor_id = i, rsv_date = dt, rsv_reserved = n,
          rsv_actual = None, rsv_status = Reserved, rsv_settled_at = None\<rparr>]\<rparr>"
  by (auto simp: create_quota_reservation_def list_ex_iff split: if_splits)





lemma reserve_db_row:
  assumes "reserve_db p a n t rid d d'"
  obtains r where "reservations d' = reservations d @ [r]" "rsv_id r = rid" "rsv_status r = Reserved"
    "\<forall>x \<in> set (reservations d). rsv_id x \<noteq> rid"
  using assms unfolding reserve_db_def
  by (auto split: if_splits dest!: add_daily_usage_db create_reservation_db elim!: increment_guest_db
      intro!: that)

text \<open>A granted reservation keeps the balance.\<close>

lemma reserve_db_balance:
  assumes "reserve_db p a tokens t rid d d'" and "in_balance d"
  shows "in_balance d'"
proof -
  obtain d1 d2 x y where
    actor: "if act_type a = Guest
         then increment_guest_allowance tokens t (act_id a) (int32 (guest_message_limit p))
                (int32 (guest_output_limit p)) d = Inr (x, d1)
         else \<exists>u. add_daily_usage User (act_id a) (usage_day t) tokens
                (int32 (user_message_limit p)) (user_output_limit p) t d = Inr (u, d1)"
    and glob: "add_daily_usage Global uuid_nil (usage_day t) tokens (int32 (global_message_cap p))
          (global_output_cap p) t d1 = Inr (y, d2)"
    and create: "create_quota_reservation rid (act_type a) (act_id a) (usage_day t) tokens d2 = Inr ((), d')"
    using assms(1) unfolding reserve_db_def by blast
  note create = create_reservation_db [OF create] and glob = add_daily_usage_db [OF glob]
  have "reservations d1 = reservations d \<and>
      (\<forall>i dt. used User i dt d1 = costs (charged_to i dt) (reservations d)
        + (if act_type a \<noteq> Guest \<and> i = act_id a \<and> dt = usage_day t then tokens else 0)) \<and>
      (\<forall>dt. used Global uuid_nil dt d1 = costs (\<lambda>r. rsv_date r = dt) (reservations d)) \<and>
      list_all (\<lambda>g. gst_output_tokens g = costs (charged_to_guest (gst_id g)) (reservations d)
        + (if act_type a = Guest \<and> gst_id g = act_id a then tokens else 0)) (guest_sessions d1)"
  proof (cases "act_type a = Guest")
    case True
    with actor obtain g where g: "gst_id g = act_id a" "g \<in> set (guest_sessions d)"
      "gst_output_tokens x = gst_output_tokens g + tokens" "gst_id x = act_id a"
      "d1 = d\<lparr>guest_sessions := upd_rows (\<lambda>r. gst_id r = act_id a) (\<lambda>_. x) (guest_sessions d)\<rparr>"
      by (auto elim!: increment_guest_db)
    then show ?thesis
      using assms(2) True by (auto simp: in_balance_def list_all_iff set_upd_rows)
  next
    case False
    then obtain u where "add_daily_usage User (act_id a) (usage_day t) tokens
                (int32 (user_message_limit p)) (user_output_limit p) t d = Inr (u, d1)"
      using actor by auto
    from add_daily_usage_db [OF this] show ?thesis
      using assms(2) False by (auto simp: in_balance_def list_all_iff)
  qed
  moreover have "cost \<lparr>rsv_id = rid, rsv_actor_type = act_type a, rsv_actor_id = act_id a,
      rsv_date = usage_day t, rsv_reserved = tokens, rsv_actual = None, rsv_status = Reserved,
      rsv_settled_at = None\<rparr> = tokens"
    by (simp add: cost_def)
  ultimately show ?thesis
    using create glob assms(2)
    by (auto simp: in_balance_def list_all_iff reservation_ok_def)
qed

text \<open>The changes of a settlement: none for a reservation that is settled already.\<close>

definition settled :: "int \<Rightarrow> time \<Rightarrow> reservation_row \<Rightarrow> reservation_row" where
  "settled actual t r = r\<lparr>rsv_actual := Some actual,
     rsv_status := (if actual = 0 then Refunded else Committed), rsv_settled_at := Some t\<rparr>"

definition settle_db :: "reservation \<Rightarrow> int \<Rightarrow> time \<Rightarrow> database \<Rightarrow> database \<Rightarrow> bool" where
  "settle_db res actual t d d' \<longleftrightarrow>
     (\<exists>r. find (\<lambda>r. rsv_id r = res_id res) (reservations d) = Some r \<and>
       (if rsv_status r \<noteq> Reserved then d' = d
        else rsv_actor_type r = act_type (res_actor res) \<and> rsv_actor_id r = act_id (res_actor res)
          \<and> rsv_reserved r = res_reserved res \<and>
          (\<exists>d1 d2.
             (if 0 < rsv_reserved r - actual
              then (if rsv_actor_type r = Guest
                    then adjust_guest_output (actual - rsv_reserved r) t (rsv_actor_id r) d = Inr ((), d1)
                    else adjust_daily_output (actual - rsv_reserved r) t User (rsv_actor_id r)
                           (rsv_date r) d = Inr ((), d1))
                 \<and> adjust_daily_output (actual - rsv_reserved r) t Global uuid_nil (rsv_date r) d1 = Inr ((), d2)
              else d2 = d) \<and>
             settle_quota_reservation (res_id res) actual (if actual = 0 then Refunded else Committed)
               t d2 = Inr (1, d'))))"

lemma settle_tx_okD:
  assumes "settle_tx res actual t w = (Inr u, w')"
  shows "settle_db res actual t (db w) (db w')"
proof -
  obtain r w1 where read: "db_read (lock_quota_reservation (res_id res)) w = (Inr r, w1)"
    and run: "settle_found res actual t r w1 = (Inr u, w')"
    using assms unfolding settle_tx_def
    by (elim op_elims) (auto split: sum.splits if_splits)
  from read have "find (\<lambda>r. rsv_id r = res_id res) (reservations (db w)) = Some r" "db w1 = db w"
    by (auto simp: lock_quota_reservation_def dest!: db_read_okD split: option.splits)
  with run show ?thesis
    unfolding settle_found_def
    by (cases "rsv_status r = Reserved"; cases "0 < rsv_reserved r - actual"; cases "act_type (res_actor res) = Guest")
      (force simp: settle_db_def Let_def split: if_splits elim!: op_elims dest!: db_exec_okD)+
qed

lemma costs_nonneg: "list_all reservation_ok rs \<Longrightarrow> 0 \<le> costs P rs"
  by (induction rs) (auto simp: costs_def reservation_ok_def)

lemma cost_le_costs: "list_all reservation_ok rs \<Longrightarrow> r \<in> set rs \<Longrightarrow> P r \<Longrightarrow> cost r \<le> costs P rs"
proof (induction rs)
  case (Cons x rs)
  then have "0 \<le> cost x" and "list_all reservation_ok rs"
    by (simp_all add: reservation_ok_def [of x])
  with Cons costs_nonneg [of rs P] show ?case
    by (auto simp: costs_def)
qed simp

lemma costs_upd:
  "distinct (map rsv_id rs) \<Longrightarrow> r \<in> set rs \<Longrightarrow> rsv_status r = Reserved \<Longrightarrow> P (f r) = P r \<Longrightarrow>
   costs P (upd_rows (\<lambda>x. rsv_id x = rsv_id r \<and> rsv_status x = Reserved) f rs) =
     costs P rs + (if P r then cost (f r) - cost r else 0)"
proof (induction rs)
  case (Cons x rs)
  show ?case
  proof (cases "x = r")
    case True
    then have "\<forall>y \<in> set rs. rsv_id y \<noteq> rsv_id r"
      using Cons.prems by (auto simp: image_iff)
    then have "upd_rows (\<lambda>x. rsv_id x = rsv_id r \<and> rsv_status x = Reserved) f rs = rs"
      by (intro upd_rows_none) auto
    then show ?thesis
      using True Cons.prems by (simp add: costs_def)
  next
    case False
    then have "rsv_id x \<noteq> rsv_id r" "r \<in> set rs"
      using Cons.prems by (auto simp: image_iff)
    then show ?thesis
      using Cons by (simp add: costs_def)
  qed
qed simp

lemma count_hit:
  "distinct (map rsv_id rs) \<Longrightarrow> count_rows (\<lambda>x. rsv_id x = i \<and> rsv_status x = Reserved) rs \<le> 1"
  by (induction rs) (auto simp: count_rows_simps count_rows_0 image_iff)

lemma settle_quota_db:
  "settle_quota_reservation i actual (if actual = 0 then Refunded else Committed) t d = Inr (n, d') \<Longrightarrow>
   d' = d\<lparr>reservations := upd_rows (\<lambda>r. rsv_id r = i \<and> rsv_status r = Reserved)
     (settled actual t) (reservations d)\<rparr>"
  by (auto simp: settle_quota_reservation_def Let_def settled_def [abs_def] split: if_splits)

lemma adjust_daily_reservations:
  "adjust_daily_output delta t at i dt d = Inr (u, d') \<Longrightarrow> reservations d' = reservations d"
  by (auto simp: adjust_daily_output_def)

lemma adjust_guest_db:
  "adjust_guest_output delta t i d = Inr (u, d') \<Longrightarrow>
   d' = d\<lparr>guest_sessions := upd_rows (\<lambda>g. gst_id g = i)
     (\<lambda>g. g\<lparr>gst_output_tokens := max (gst_output_tokens g + delta) 0, gst_last_seen_at := t\<rparr>)
     (guest_sessions d)\<rparr>"
  by (auto simp: adjust_guest_output_def Let_def split: if_splits)

lemma settle_db_openE:
  assumes "settle_db res n t d d'" and "find (\<lambda>r. rsv_id r = res_id res) (reservations d) = Some r"
    and "rsv_status r = Reserved"
  obtains d2 where "settle_quota_reservation (res_id res) n
      (if n = 0 then Refunded else Committed) t d2 = Inr (1, d')"
    and "if 0 < rsv_reserved r - n
      then \<exists>d1. (if rsv_actor_type r = Guest
              then adjust_guest_output (n - rsv_reserved r) t (rsv_actor_id r) d = Inr ((), d1)
              else adjust_daily_output (n - rsv_reserved r) t User (rsv_actor_id r) (rsv_date r) d = Inr ((), d1))
           \<and> adjust_daily_output (n - rsv_reserved r) t Global uuid_nil (rsv_date r) d1 = Inr ((), d2)
      else d2 = d"
  using assms unfolding settle_db_def by (auto split: if_splits)

lemma settle_db_closed:
  assumes "settle_db res n t d d'"
  obtains r where "find (\<lambda>r. rsv_id r = res_id res) (reservations d') = Some r" "rsv_status r \<noteq> Reserved"
proof -
  obtain r where r: "find (\<lambda>r. rsv_id r = res_id res) (reservations d) = Some r"
    using assms by (auto simp: settle_db_def)
  show thesis
  proof (cases "rsv_status r = Reserved")
    case False
    then show ?thesis using assms r by (intro that) (auto simp: settle_db_def)
  next
    case True
    obtain d2 where quota: "settle_quota_reservation (res_id res) n
        (if n = 0 then Refunded else Committed) t d2 = Inr (1, d')"
      and "if 0 < rsv_reserved r - n
      then \<exists>d1. (if rsv_actor_type r = Guest
              then adjust_guest_output (n - rsv_reserved r) t (rsv_actor_id r) d = Inr ((), d1)
              else adjust_daily_output (n - rsv_reserved r) t User (rsv_actor_id r) (rsv_date r) d = Inr ((), d1))
           \<and> adjust_daily_output (n - rsv_reserved r) t Global uuid_nil (rsv_date r) d1 = Inr ((), d2)
      else d2 = d"
      by (rule settle_db_openE [OF assms r True])
    then have "reservations d2 = reservations d"
      by (auto split: if_splits dest!: adjust_guest_db adjust_daily_reservations)
    with settle_quota_db [OF quota]
    have "find (\<lambda>r. rsv_id r = res_id res) (reservations d') = Some (settled n t r)"
      using r True find_Some_iff_mem [OF r] by (simp add: find_upd_rows settled_def)
    then show ?thesis by (rule that) (simp add: settled_def)
  qed
qed

lemma used_row: "0 < used at i dt d \<Longrightarrow> \<exists>u. find (usage_key at i dt) (daily_usage d) = Some u"
  by (simp add: used_def split: option.splits)

text \<open>
  The refund of a settlement is exact: no counter is below the cost of an open reservation charged
  to it, so \<open>GREATEST(.., 0)\<close> never cuts it.
\<close>

lemma settle_db_changes:
  assumes "settle_db res actual t d d'" and bal: "in_balance d"
    and "0 \<le> actual" "actual \<le> res_reserved res"
    and find: "find (\<lambda>r. rsv_id r = res_id res) (reservations d) = Some r"
    and act: "rsv_status r = Reserved"
  defines "delta \<equiv> actual - rsv_reserved r"
  shows "reservations d' = upd_rows (\<lambda>x. rsv_id x = rsv_id r \<and> rsv_status x = Reserved)
           (settled actual t) (reservations d) \<and>
     (\<forall>i dt. used User i dt d' = used User i dt d + (if charged_to i dt r then delta else 0)) \<and>
     (\<forall>dt. used Global uuid_nil dt d' = used Global uuid_nil dt d + (if rsv_date r = dt then delta else 0)) \<and>
     list_all (\<lambda>g. gst_output_tokens g = costs (charged_to_guest (gst_id g)) (reservations d)
        + (if charged_to_guest (gst_id g) r then delta else 0)) (guest_sessions d')"
proof -
  let ?rs = "reservations d"
  have mem: "r \<in> set ?rs" "rsv_id r = res_id res"
    using find by (auto dest: find_Some_iff_mem)
  have inv: "list_all reservation_ok ?rs"
    "\<And>i dt. used User i dt d = costs (charged_to i dt) ?rs"
    "\<And>dt. used Global uuid_nil dt d = costs (\<lambda>r. rsv_date r = dt) ?rs"
    "\<And>g. g \<in> set (guest_sessions d) \<Longrightarrow> gst_output_tokens g = costs (charged_to_guest (gst_id g)) ?rs"
    using bal by (auto simp: in_balance_def list_all_iff)
  have cost: "cost r = rsv_reserved r" "0 < rsv_reserved r"
    using act inv(1) mem by (auto simp: cost_def list_all_iff reservation_ok_def)
  have le: "rsv_reserved r \<le> costs P ?rs" if "P r" for P
    using cost_le_costs [where P = P, OF inv(1) mem(1) that] cost by simp
  have rsv: "rsv_reserved r = res_reserved res"
    using assms(1) find act by (auto simp: settle_db_def)
  obtain d2 where d': "settle_quota_reservation (res_id res) actual
      (if actual = 0 then Refunded else Committed) t d2 = Inr (1, d')"
    and d2: "if 0 < rsv_reserved r - actual
      then \<exists>d1. (if rsv_actor_type r = Guest
              then adjust_guest_output delta t (rsv_actor_id r) d = Inr ((), d1)
              else adjust_daily_output delta t User (rsv_actor_id r) (rsv_date r) d = Inr ((), d1))
           \<and> adjust_daily_output delta t Global uuid_nil (rsv_date r) d1 = Inr ((), d2)
      else d2 = d"
    unfolding delta_def by (rule settle_db_openE [OF assms(1) find act])
  have "reservations d2 = ?rs \<and>
     (\<forall>i dt. used User i dt d2 = used User i dt d + (if charged_to i dt r then delta else 0)) \<and>
     (\<forall>dt. used Global uuid_nil dt d2 = used Global uuid_nil dt d + (if rsv_date r = dt then delta else 0)) \<and>
     list_all (\<lambda>g. gst_output_tokens g = costs (charged_to_guest (gst_id g)) ?rs
        + (if charged_to_guest (gst_id g) r then delta else 0)) (guest_sessions d2)"
  proof (cases "0 < rsv_reserved r - actual")
    case False
    then show ?thesis
      using d2 inv(4) rsv assms(4) by (simp add: delta_def list_all_iff)
  next
    case True
    then obtain d1 where glob: "adjust_daily_output delta t Global uuid_nil (rsv_date r) d1 = Inr ((), d2)"
      and actor: "if rsv_actor_type r = Guest
              then adjust_guest_output delta t (rsv_actor_id r) d = Inr ((), d1)
              else adjust_daily_output delta t User (rsv_actor_id r) (rsv_date r) d = Inr ((), d1)"
      using d2 by (auto split: if_splits)
    have "reservations d1 = ?rs \<and>
     (\<forall>i dt. used User i dt d1 = used User i dt d + (if charged_to i dt r then delta else 0)) \<and>
     (\<forall>dt. used Global uuid_nil dt d1 = used Global uuid_nil dt d) \<and>
     list_all (\<lambda>g. gst_output_tokens g = costs (charged_to_guest (gst_id g)) ?rs
        + (if charged_to_guest (gst_id g) r then delta else 0)) (guest_sessions d1)"
    proof (cases "rsv_actor_type r = Guest")
      case True
      with actor have "d1 = d\<lparr>guest_sessions := upd_rows (\<lambda>g. gst_id g = rsv_actor_id r)
         (\<lambda>g. g\<lparr>gst_output_tokens := max (gst_output_tokens g + delta) 0, gst_last_seen_at := t\<rparr>)
         (guest_sessions d)\<rparr>"
        by (auto dest!: adjust_guest_db)
      moreover have "0 \<le> costs (charged_to_guest (rsv_actor_id r)) ?rs + delta"
        using le [of "charged_to_guest (rsv_actor_id r)"] True assms(3) by (simp add: delta_def)
      ultimately show ?thesis
        using True inv(4) by (auto simp: list_all_iff set_upd_rows)
    next
      case False
      then have "0 < used User (rsv_actor_id r) (rsv_date r) d"
        "0 \<le> used User (rsv_actor_id r) (rsv_date r) d + delta"
        using le [of "charged_to (rsv_actor_id r) (rsv_date r)"] inv(2) cost(2) assms(3)
        by (simp_all add: delta_def)
      then show ?thesis
        using False actor inv(4)
        by (auto simp: list_all_iff dest!: adjust_daily_output_used dest: used_row)
    qed
    moreover have "0 < used Global uuid_nil (rsv_date r) d"
      "0 \<le> used Global uuid_nil (rsv_date r) d + delta"
      using le [of "\<lambda>x. rsv_date x = rsv_date r"] inv(3) cost(2) assms(3)
      by (simp_all add: delta_def)
    ultimately show ?thesis
      using glob used_row [of Global uuid_nil "rsv_date r" d1]
      by (auto simp: list_all_iff dest!: adjust_daily_output_used)
  qed
  with settle_quota_db [OF d'] mem(2) show ?thesis
    by simp
qed

lemma settle_db_balance:
  assumes "settle_db res actual t d d'" and bal: "in_balance d"
    and "0 \<le> actual" "actual \<le> res_reserved res"
  shows "in_balance d'"
proof -
  let ?rs = "reservations d"
  obtain r where r: "find (\<lambda>r. rsv_id r = res_id res) ?rs = Some r"
    using assms(1) by (auto simp: settle_db_def)
  show ?thesis
  proof (cases "rsv_status r = Reserved")
    case False
    then show ?thesis using assms r by (auto simp: settle_db_def)
  next
    case True
    let ?hit = "\<lambda>x. rsv_id x = rsv_id r \<and> rsv_status x = Reserved"
    note change = settle_db_changes [OF assms r True]
    have mem: "r \<in> set ?rs" and inv: "distinct (map rsv_id ?rs)" "list_all reservation_ok ?rs"
      using r bal by (auto simp: in_balance_def dest: find_Some_iff_mem)
    have rsv: "rsv_reserved r = res_reserved res"
      using assms(1) r True by (auto simp: settle_db_def)
    have same: "map rsv_id (upd_rows ?hit (settled actual t) ?rs) = map rsv_id ?rs"
      by (rule map_upd_rows_same) (simp add: settled_def)
    have ok: "reservation_ok (settled actual t x)" if "x \<in> set ?rs" "?hit x" for x
    proof -
      have "x = r" using that mem inv(1) by (auto simp: distinct_map dest: inj_onD)
      then show ?thesis
        using rsv inv(2) mem assms(3,4) by (auto simp: list_all_iff reservation_ok_def cost_def settled_def)
    qed
    have sum: "costs P (upd_rows ?hit (settled actual t) ?rs) =
        costs P ?rs + (if P r then actual - rsv_reserved r else 0)" if "P (settled actual t r) = P r" for P
      using costs_upd [where P = P and f = "settled actual t", OF inv(1) mem True that] True by (simp add: cost_def settled_def)
    show ?thesis
      using change same ok inv bal sum
      by (auto simp: in_balance_def list_all_iff set_upd_rows settled_def)
  qed
qed

section \<open>Runs of the service\<close>

text \<open>
  What may happen to the world between and during calls: any sequence of reservations and
  settlements, with any faults, ids, tokens and clock readings before each.
\<close>

datatype quota_call =
    CallReserve actor int
  | CallSettle reservation int
  | Environment time "fault option list" "uuid list" "string list"

fun quota_step :: "quota_service \<Rightarrow> quota_call \<Rightarrow> world \<Rightarrow> world" where
  "quota_step S (CallReserve a n) w = snd (reserve S a n w)"
| "quota_step S (CallSettle res n) w = snd (settle S res n w)"
| "quota_step S (Environment t fs is ts) w =
     w\<lparr>now := t, faults := fs, new_ids := is, rand_tokens := ts\<rparr>"

abbreviation quota_run :: "quota_service \<Rightarrow> quota_call list \<Rightarrow> world \<Rightarrow> world" where
  "quota_run S cs w \<equiv> fold (quota_step S) cs w"

context quota_contract
begin

lemma settle_db_or_same:
  assumes "settle S res actual w = (r, w')"
  shows "db w' = db w \<or> 0 \<le> actual \<and> actual \<le> res_reserved res
    \<and> settle_db res actual (now w) (db w) (db w')"
proof -
  obtain w1 where run: "(if actual < 0 \<or> res_reserved res < actual then fail QuotaInvalid
        else bindE clock_now (\<lambda>t. within_transaction (settle_tx res actual t))) w = (r, w1)"
    and "db w' = db w1"
    using assms unfolding settle_def deferred_def
    by (auto split: prod.splits simp: release_db_eq)
  then show ?thesis
    by (cases r) (auto split: if_splits dest!: within_transaction_error_db settle_tx_okD
        elim!: within_transaction_okD)
qed

lemma quiet_transaction:
  "within_transaction (reserve_tx p a n t rid) w = (r, w') \<Longrightarrow> quiet w w'"
  by (erule quietI [rotated 2])
    (intro keeps_no_faults_transaction keeps_reserve_tx_faults view_intros keeps_reserve_tx_view lease_owner_view)+

lemma quiet_ids_token:
  "ids_new w = (r, w') \<Longrightarrow> quiet w w'" "secure_token n w = (r', w') \<Longrightarrow> quiet w w'"
  by (erule quietI [rotated 2], (intro keeps_no_faults_db view_intros lease_owner_view)+)+

lemma rate_limits_quiet: "apply_rate_limits S a t p w = (r, w') \<Longrightarrow> quiet w w'"
  unfolding apply_rate_limits_def
  by (auto simp: bindE_def wrap_err_def split: prod.splits sum.splits if_splits option.splits
      dest!: rate_quiet intro: quiet_trans)

lemma failed_transaction_lease:
  assumes "lim_acquire (qs_limiter S) ''generation'' (uuid_string (act_id a)) own t w = (Inr True, w1)"
    and "within_transaction (reserve_tx p a n t' rid) w1 = (r, w2)" and "faults w = []"
  shows "lease_owner (snd (lim_release (qs_limiter S) ''generation'' (uuid_string (act_id a)) own w2))
    (act_id a) = lease_owner w (act_id a)"
proof -
  have "lease_owner w (act_id a) = None" "lease_owner w2 (act_id a) = Some own" "faults w2 = []"
    using assms acquire_owner [OF assms(1)] keepsD_eq [OF acquire_no_faults _ assms(1)]
      quiet_transaction [OF assms(2)] by (auto simp: quiet_def)
  with release_runs [of w2 "act_id a" own] release_owner show ?thesis
    by fastforce
qed

lemma reserve_refused_lease:
  assumes "reserve S a n w = (Inl e, w')" and "faults w = []"
  shows "lease_owner w' (act_id a) = lease_owner w (act_id a)"
  using assms unfolding reserve_def
  apply (auto split: if_splits prod.splits sum.splits elim!: bindE_errE
      simp: on_error_def wrap_err_def
      dest!: policy_quiet rate_limits_quiet quiet_ids_token)
  apply (auto simp: quiet_def failed_transaction_lease dest!: acquire_quiet)
  done

lemma settle_okD:
  assumes "settle S res n w = (Inr u, w')"
  shows "0 \<le> n \<and> n \<le> res_reserved res \<and> settle_db res n (now w) (db w) (db w')"
proof -
  obtain w3 where "within_transaction (settle_tx res n (now w)) w = (Inr u, w3)" "db w' = db w3"
    and "0 \<le> n" "n \<le> res_reserved res"
    using assms(1) unfolding settle_def
    by (auto simp: release_db_eq split: if_splits elim!: op_elims)
  then show ?thesis
    by (auto elim!: within_transaction_okD dest!: settle_tx_okD)
qed

lemma reserve_balance: "in_balance (db w) \<Longrightarrow> in_balance (db (snd (reserve S a n w)))"
  by (cases "reserve S a n w" rule: result_cases)
    (auto dest: reserve_error_db elim!: reserve_okD dest!: reserve_tx_okD dest: reserve_db_balance)

lemma settle_balance: "in_balance (db w) \<Longrightarrow> in_balance (db (snd (settle S res n w)))"
  by (cases "settle S res n w") (auto dest!: settle_db_or_same dest: settle_db_balance)

lemma settle_again:
  assumes "settle S res n w = (Inr u, w1)" and "db w2 = db w1"
  shows "db (snd (settle S res m w2)) = db w2"
proof -
  have "settle_db res n (now w) (db w) (db w2)"
    using settle_okD [OF assms(1)] assms(2) by simp
  then obtain r where "find (\<lambda>r. rsv_id r = res_id res) (reservations (db w2)) = Some r"
    "rsv_status r \<noteq> Reserved"
    by (rule settle_db_closed)
  then show ?thesis
    using settle_db_or_same [of res m w2] by (cases "settle S res m w2") (auto simp: settle_db_def)
qed

lemma refund_restores:
  assumes "in_balance (db w)" and "reserve S a n w = (Inr res, w1)"
    and "db w2 = db w1" and "settle S res 0 w2 = (Inr (), w3)"
  shows "(\<exists>r. reservations (db w3) = reservations (db w) @ [r] \<and> rsv_status r = Refunded \<and> cost r = 0)
     \<and> used User i dt (db w3) = used User i dt (db w)
     \<and> used Global uuid_nil dt (db w3) = used Global uuid_nil dt (db w)
     \<and> list_all (\<lambda>g. gst_output_tokens g = costs (charged_to_guest (gst_id g)) (reservations (db w)))
         (guest_sessions (db w3))"
proof -
  obtain p where "reserve_db p a n (now w) (res_id res) (db w) (db w1)"
    using assms(2) by (auto elim!: reserve_okD dest!: reserve_tx_okD)
  then obtain row where rows: "reservations (db w1) = reservations (db w) @ [row]"
    and row: "rsv_id row = res_id res" "rsv_status row = Reserved" "\<forall>x \<in> set (reservations (db w)). rsv_id x \<noteq> res_id res"
    by (rule reserve_db_row)
  have bal: "in_balance (db w2)" "in_balance (db w3)"
    using reserve_balance [OF assms(1), of a n] settle_balance [of w2 res 0] assms by simp_all
  have settle: "settle_db res 0 (now w2) (db w2) (db w3)" "0 \<le> res_reserved res"
    using settle_okD [OF assms(4)] by simp_all
  have "find (\<lambda>r. rsv_id r = res_id res) (reservations (db w)) = None"
    using row(3) by (auto simp: find_None_mem)
  then have found: "find (\<lambda>r. rsv_id r = res_id res) (reservations (db w2)) = Some row"
    using rows row assms(3) by (simp add: find_append)
  have "upd_rows (\<lambda>x. rsv_id x = rsv_id row \<and> rsv_status x = Reserved) (settled 0 (now w2)) (reservations (db w))
      = reservations (db w)"
    using row by (intro upd_rows_none) auto
  then have "reservations (db w3) = reservations (db w) @ [settled 0 (now w2) row]"
    using settle_db_changes [OF settle(1) bal(1) _ settle(2) found row(2)] rows row(2) assms(3)
    by (simp add: upd_rows_def)
  moreover have "rsv_status (settled 0 (now w2) row) = Refunded" "cost (settled 0 (now w2) row) = 0"
    by (simp_all add: settled_def cost_def)
  ultimately show ?thesis
    using assms(1) bal(2) by (auto simp: in_balance_def list_all_iff)
qed

lemma run_balance: "in_balance (db w) \<Longrightarrow> in_balance (db (quota_run S cs w))"
proof (induction cs arbitrary: w)
  case (Cons c cs)
  have "in_balance (db (quota_step S c w))"
    by (cases c) (simp_all add: Cons.prems reserve_balance settle_balance)
  then show ?case using Cons.IH by simp
qed simp

end

section \<open>Properties\<close>

lemmas quota_eval = reserve_def settle_def settle_tx_def settle_found_def reserve_tx_def
  actor_valid_def apply_rate_limits_def lock_global_admission_def charge_def
  count_active_reservations_def count_rows_def add_daily_usage_def create_quota_reservation_def
  lock_quota_reservation_def adjust_daily_output_def settle_quota_reservation_def usage_day_def
  usage_key_def redis_limiter_def uuid_nil_def

subsection \<open>An example\<close>

definition example_actor :: actor where
  "example_actor = \<lparr>act_type = User, act_id = 5, act_ip = None\<rparr>"

definition example_quota :: quota_service where
  "example_quota = api_quota (\<lambda>k x. x) (replicate 32 CHR ''k'')"

definition quota_world :: "fault option list \<Rightarrow> world" where
  "quota_world fs = (world_of (empty_db\<lparr>settings := default_settings\<rparr>) (20000 * day) [7] [''token''])
     \<lparr>faults := fs\<rparr>"

abbreviation cache_down :: "fault option list" where
  "cache_down \<equiv> [Some (FaultDriver []), None, Some (FaultDriver [])]"

definition example_reservation :: reservation where
  "example_reservation = \<lparr>res_id = 7, res_actor = example_actor, res_owner = ''token'',
     res_date = 20000, res_reserved = 100, res_reset_at = 20001 * day\<rparr>"

lemma example_policy:
  "current_policy example_quota (quota_world cache_down) = (Inr default_policy, quota_world [])"
proof -
  have "load_settings (Some redis_cache) (quota_world cache_down) = (Inr default_snapshot, quota_world [])"
    using load_default_settings [of "quota_world cache_down" "FaultDriver []" "FaultDriver []"]
    by (simp add: quota_world_def world_of_def)
  then show ?thesis
    by (simp add: current_policy_def example_quota_def api_quota_def runtime_policy_def op_defs
        default_snapshot_def default_policy_def)
qed

lemma example_reserve:
  "\<exists>w'. reserve example_quota example_actor 100 (quota_world cache_down) = (Inr example_reservation, w')
     \<and> reservations (db w') = [\<lparr>rsv_id = 7, rsv_actor_type = User, rsv_actor_id = 5, rsv_date = 20000,
          rsv_reserved = 100, rsv_actual = None, rsv_status = Reserved, rsv_settled_at = None\<rparr>]
     \<and> daily_usage (db w') =
         [\<lparr>us_actor_type = User, us_actor_id = 5, us_date = 20000, us_messages = 1, us_tokens = 100,
           us_updated_at = 20000 * day\<rparr>,
          \<lparr>us_actor_type = Global, us_actor_id = 0, us_date = 20000, us_messages = 1, us_tokens = 100,
           us_updated_at = 20000 * day\<rparr>]
     \<and> now w' = 20000 * day \<and> faults w' = []"
proof -
  have "now (quota_world cache_down) = 20000 * day"
    by (simp add: quota_world_def world_of_def)
  then show ?thesis
    apply (simp add: reserve_def actor_valid_def example_actor_def uuid_nil_def clock_now_def
        bindE_def example_policy example_reservation_def)
    apply (simp add: example_quota_def api_quota_def default_policy_def quota_world_def world_eval
        quota_eval redis_eval empty_db_def Let_def)
    done
qed



definition reserved_world :: world where
  "reserved_world = snd (reserve example_quota example_actor 100 (quota_world cache_down))"

lemma example_settle:
  assumes "0 \<le> n" and "n \<le> 100"
  shows "fst (settle example_quota example_reservation n reserved_world) = Inr ()"
proof -
  obtain "reservations (db reserved_world) = [\<lparr>rsv_id = 7, rsv_actor_type = User, rsv_actor_id = 5, rsv_date = 20000,
          rsv_reserved = 100, rsv_actual = None, rsv_status = Reserved, rsv_settled_at = None\<rparr>]"
    and "faults reserved_world = []"
    using example_reserve by (auto simp: reserved_world_def)
  with assms show ?thesis
    by (simp add: quota_eval example_reservation_def example_actor_def example_quota_def api_quota_def
        world_eval Let_def)
qed

subsection \<open>The theorems\<close>

text \<open>C1: in every sequence of reservations and settlements, with any faults of PostgreSQL and Redis,
  the counters of users, guests and of the whole service stay equal to the sum of what their
  reservations cost (the reserved tokens while open, the tokens used once settled).\<close>
theorem quota_balance:
  assumes "in_balance (db w)"
  shows "in_balance (db (quota_run (api_quota hmac k) cs w))"
  using assms by (rule aq.run_balance)

theorem quota_balance_witness:
  "in_balance (db (quota_run (api_quota (\<lambda>k x. x) (replicate 32 CHR ''k''))
     [CallReserve example_actor 100, CallSettle example_reservation 40] (quota_world cache_down)))"
  by (rule quota_balance)
    (simp add: in_balance_def quota_world_def world_of_def empty_db_def used_def costs_def)





text \<open>C10: a second settlement of a reservation changes nothing, whatever number of tokens it names.\<close>
theorem settle_twice:
  assumes "settle (api_quota hmac k) res n w = (Inr (), w1)"
    and "db w2 = db w1"
  shows "db (snd (settle (api_quota hmac k) res m w2)) = db w2"
  using aq.settle_again assms by simp

theorem settle_twice_witness:
  "\<exists>w1. fst (settle example_quota example_reservation 40 reserved_world) = Inr ()
     \<and> w1 = snd (settle example_quota example_reservation 40 reserved_world)
     \<and> db (snd (settle example_quota example_reservation 0 w1)) = db w1"
  using example_settle [of 40]
    settle_twice [where res = example_reservation and n = 40 and w = reserved_world, OF _ refl]
  unfolding example_quota_def by (auto simp: prod_eq_iff)



end
