(* ===== verification/Http.thy ===== *)
theory Http
  imports World
begin

text \<open>
  Requests, responses and the middleware of \<open>internal/platform/httpx/httpx.go\<close>. A request carries
  what its context was given (request id, correlation id, client address). A response records what
  is sent: a header or cookie set after the status line is lost, and only the first status counts.
  The packages \<open>net\<close> and \<open>net/netip\<close> are the parameter \<open>net_library\<close>; panics and deadlines
  (\<open>Recovery\<close>, \<open>MaxBody\<close>) are the run time's and are left out.
\<close>

section \<open>Requests and responses\<close>

datatype same_site = SameSiteLax | SameSiteStrict

record http_cookie =
  ck_name :: string
  ck_value :: string
  ck_path :: string
  ck_domain :: string
  ck_max_age :: int
  ck_http_only :: bool
  ck_secure :: bool
  ck_same_site :: same_site

record problem =
  prob_code :: string
  prob_message :: string
  prob_request_id :: string

datatype body = ProblemBody problem | JsonBody json

record 'a http_request =
  req_method :: string
  req_headers :: "(string \<times> string) list"
  req_cookies :: "(string \<times> string) list"
  req_remote :: string
  req_query :: "(string \<times> string) list"
  req_id :: string
  req_correlation :: string
  req_client_ip :: "'a option"
  req_deadline :: "time option"

record http_response =
  resp_status :: "nat option"
  resp_headers :: "(string \<times> string) list"
  resp_cookies :: "http_cookie list"
  resp_body :: "body list"

definition new_response :: http_response where
  "new_response = \<lparr>resp_status = None, resp_headers = [], resp_cookies = [], resp_body = []\<rparr>"

text \<open>A handler runs on the world and the response it writes.\<close>

type_synonym http_state = "world \<times> http_response"
type_synonym 'a handler = "'a http_request \<Rightarrow> http_state \<Rightarrow> http_state"

definition lift_world :: "(world, 'b) op \<Rightarrow> (http_state, 'b) op" where
  "lift_world m s = (case s of (w, r) \<Rightarrow> (case m w of (x, w') \<Rightarrow> (x, (w', r))))"

text \<open>\<open>Header.Get\<close>: the first value of the header, or the empty string; \<open>Request.Cookie\<close>.\<close>

definition get_header :: "string \<Rightarrow> 'a http_request \<Rightarrow> string" where
  "get_header name req = (case map_of (req_headers req) name of None \<Rightarrow> '''' | Some v \<Rightarrow> v)"

definition get_cookie :: "string \<Rightarrow> 'a http_request \<Rightarrow> string option" where
  "get_cookie name req = map_of (req_cookies req) name"

definition add_header :: "string \<Rightarrow> string \<Rightarrow> http_response \<Rightarrow> http_response" where
  "add_header name v r =
     (if resp_status r = None then r\<lparr>resp_headers := resp_headers r @ [(name, v)]\<rparr> else r)"

definition set_header :: "string \<Rightarrow> string \<Rightarrow> http_response \<Rightarrow> http_response" where
  "set_header name v r =
     (if resp_status r = None
      then r\<lparr>resp_headers := filter (\<lambda>h. fst h \<noteq> name) (resp_headers r) @ [(name, v)]\<rparr> else r)"

definition set_cookie :: "http_cookie \<Rightarrow> http_response \<Rightarrow> http_response" where
  "set_cookie c r = (if resp_status r = None then r\<lparr>resp_cookies := resp_cookies r @ [c]\<rparr> else r)"

definition write_header :: "nat \<Rightarrow> http_response \<Rightarrow> http_response" where
  "write_header status r = (if resp_status r = None then r\<lparr>resp_status := Some status\<rparr> else r)"

definition write_error ::
  "'a http_request \<Rightarrow> nat \<Rightarrow> string \<Rightarrow> string \<Rightarrow> http_response \<Rightarrow> http_response" where
  "write_error req status code message r =
     (let r1 = write_header status (set_header ''Cache-Control'' ''no-store''
                 (set_header ''Content-Type'' ''application/problem+json'' r))
      in r1\<lparr>resp_body := resp_body r1 @ [ProblemBody \<lparr>prob_code = code, prob_message = message,
                                              prob_request_id = req_id req\<rparr>]\<rparr>)"

definition write_json :: "nat \<Rightarrow> json \<Rightarrow> http_response \<Rightarrow> http_response" where
  "write_json status v r =
     (let r1 = write_header status (set_header ''Content-Type'' ''application/json'' r)
      in r1\<lparr>resp_body := resp_body r1 @ [JsonBody v]\<rparr>)"

definition method_not_allowed :: "'a handler" where
  "method_not_allowed req s =
     (fst s, write_error req 405 ''invalid_request'' ''Method is not allowed.'' (snd s))"

definition not_found :: "'a handler" where
  "not_found req s = (fst s, write_error req 404 ''not_found'' ''Resource was not found.'' (snd s))"

text \<open>\<open>strings.Cut\<close> at one character.\<close>

fun cut_at :: "char \<Rightarrow> string \<Rightarrow> (string \<times> string) option" where
  "cut_at c [] = None"
| "cut_at c (x # xs) = (if x = c then Some ([], xs)
     else map_option (\<lambda>p. (x # fst p, snd p)) (cut_at c xs))"

lemma cut_at_append: "c \<notin> set v \<Longrightarrow> cut_at c (v @ c # r) = Some (v, r)"
  by (induction v) auto

lemma cut_at_Some: "cut_at c v = Some (a, b) \<Longrightarrow> v = a @ c # b \<and> c \<notin> set a"
  by (induction v arbitrary: a) (auto split: if_splits)

section \<open>Request ids\<close>

definition request_id_char :: "char \<Rightarrow> bool" where
  "request_id_char c \<longleftrightarrow> c = CHR ''-'' \<or> c = CHR ''_'' \<or> c = CHR ''.''
     \<or> byte CHR ''a'' \<le> byte c \<and> byte c \<le> byte CHR ''z''
     \<or> byte CHR ''A'' \<le> byte c \<and> byte c \<le> byte CHR ''Z''
     \<or> byte CHR ''0'' \<le> byte c \<and> byte c \<le> byte CHR ''9''"

definition valid_request_id :: "string \<Rightarrow> bool" where
  "valid_request_id v \<longleftrightarrow> 4 \<le> length v \<and> length v \<le> 128 \<and> list_all request_id_char v"

definition request_ids :: "'a handler \<Rightarrow> 'a handler" where
  "request_ids next req s =
     (let given = get_header ''X-Request-ID'' req;
          (picked, w) = (if valid_request_id given then (Inr given, fst s)
                         else (case ids_new (fst s) of
                                 (Inl e, w) \<Rightarrow> (Inl e, w)
                               | (Inr i, w) \<Rightarrow> (Inr (''req_'' @ uuid_string i), w)))
      in case picked of
           Inl e \<Rightarrow> (w, write_error req 500 ''internal_error'' ''Request could not be processed.'' (snd s))
         | Inr rid \<Rightarrow>
             let cid = get_header ''X-Correlation-ID'' req;
                 cid = (if valid_request_id cid then cid else rid);
                 r = set_header ''Access-Control-Expose-Headers'' ''X-Request-ID, X-Correlation-ID''
                       (set_header ''X-Correlation-ID'' cid (set_header ''X-Request-ID'' rid (snd s)))
             in next (req\<lparr>req_id := rid, req_correlation := cid\<rparr>) (w, r))"

section \<open>The other middleware\<close>

definition quoted :: "string \<Rightarrow> string" where
  "quoted s = CHR 0x27 # s @ [CHR 0x27]"

definition security_headers :: "'a handler \<Rightarrow> 'a handler" where
  "security_headers next req s =
     next req (fst s,
       set_header ''Permissions-Policy'' ''camera=(), microphone=(), geolocation=()''
      (set_header ''X-Frame-Options'' ''DENY''
      (set_header ''X-Content-Type-Options'' ''nosniff''
      (set_header ''Referrer-Policy'' ''strict-origin-when-cross-origin''
      (set_header ''Content-Security-Policy'' (''default-src '' @ quoted ''none'' @ ''; frame-ancestors '' @ quoted ''none'')
        (snd s))))))"

definition timeout :: "time \<Rightarrow> 'a handler \<Rightarrow> 'a handler" where
  "timeout d next req s =
     (if equal_fold (get_header ''Upgrade'' req) ''websocket'' then next req s
      else next (req\<lparr>req_deadline := Some (now (fst s) + d)\<rparr>) s)"

definition cors :: "string list \<Rightarrow> 'a handler \<Rightarrow> 'a handler" where
  "cors origins next req s =
     (let origin = get_header ''Origin'' req
      in if origin \<noteq> '''' \<and> origin \<notin> set origins
         then (fst s, write_error req 403 ''forbidden'' ''Origin is not allowed.'' (snd s))
         else
           let r = (if origin \<noteq> '''' then
                      add_header ''Vary'' ''Origin''
                       (set_header ''Access-Control-Allow-Credentials'' ''true''
                        (set_header ''Access-Control-Allow-Origin'' origin (snd s)))
                    else snd s)
           in if req_method req = ''OPTIONS''
              then (fst s, write_header 204
                (set_header ''Access-Control-Allow-Headers''
                   ''Content-Type, X-CSRF-Token, X-Request-ID, X-Correlation-ID, Idempotency-Key, If-Match''
                (set_header ''Access-Control-Allow-Methods'' ''GET, POST, PATCH, DELETE, OPTIONS'' r)))
              else next req (fst s, r))"

section \<open>Client addresses\<close>

text \<open>What is used of \<open>net\<close> and \<open>netip\<close>: addresses \<open>'a\<close>, prefixes \<open>'p\<close>; no address is invalid.\<close>

record ('a, 'p) net_library =
  split_host_port :: "string \<Rightarrow> (string \<times> string) option"
  parse_addr :: "string \<Rightarrow> 'a option"
  unmap_addr :: "'a \<Rightarrow> 'a"
  prefix_contains :: "'p \<Rightarrow> 'a \<Rightarrow> bool"

definition remote_address :: "('a, 'p) net_library \<Rightarrow> string \<Rightarrow> 'a option" where
  "remote_address L v =
     (let host = (case split_host_port L v of None \<Rightarrow> v | Some (h, p) \<Rightarrow> h)
      in map_option (unmap_addr L) (parse_addr L host))"

definition first_forwarded_address :: "('a, 'p) net_library \<Rightarrow> string \<Rightarrow> 'a option" where
  "first_forwarded_address L v =
     map_option (unmap_addr L) (parse_addr L (trim_space (case cut_at CHR '','' v of None \<Rightarrow> v | Some (a, b) \<Rightarrow> a)))"

definition is_trusted :: "('a, 'p) net_library \<Rightarrow> 'a option \<Rightarrow> 'p list \<Rightarrow> bool" where
  "is_trusted L a trusted =
     (case a of None \<Rightarrow> False | Some x \<Rightarrow> list_ex (\<lambda>p. prefix_contains L p x) trusted)"

definition client_ips :: "('a, 'p) net_library \<Rightarrow> 'p list \<Rightarrow> 'a handler \<Rightarrow> 'a handler" where
  "client_ips L trusted next req s =
     (let remote = remote_address L (req_remote req);
          client = (if is_trusted L remote trusted
                    then (case first_forwarded_address L (get_header ''X-Forwarded-For'' req) of
                            None \<Rightarrow> remote | Some a \<Rightarrow> Some a)
                    else remote)
      in next (req\<lparr>req_client_ip := client\<rparr>) s)"

end
