(* ===== verification/Guests.thy ===== *)
theory Guests
  imports Quota Http
begin

text \<open>
  \<open>internal/guests/service.go\<close> and the queries of \<open>store/guests.sql.go\<close> that Quota does not use:
  the signed guest cookie, the guest session it names, and its allowance. HMAC-SHA256 under the
  signing key, followed by the base64 encoding, is the parameter \<open>mac\<close>; SHA-256 is
  \<open>gs_sha256\<close>.
\<close>

section \<open>Signed cookie values\<close>

definition sign_value :: "(string \<Rightarrow> string) \<Rightarrow> string \<Rightarrow> string" where
  "sign_value mac v = v @ ''.'' @ mac v"

lemma cut_sign: "CHR ''.'' \<notin> set v \<Longrightarrow> cut_at CHR ''.'' (sign_value mac v) = Some (v, mac v)"
  by (simp add: sign_value_def cut_at_append del: char.simps)

section \<open>Queries\<close>

definition create_guest_session ::
  "uuid \<Rightarrow> string \<Rightarrow> time \<Rightarrow> time \<Rightarrow> database \<Rightarrow> error + guest_row \<times> database" where
  "create_guest_session i h expires t d =
     (let g = \<lparr>gst_id = i, gst_identity_hash = h, gst_prompt_count = 0, gst_output_tokens = 0,
               gst_last_seen_at = t, gst_expires_at = expires, gst_migrated_user_id = None,
               gst_migrated_at = None\<rparr>
      in if length h \<noteq> 32 then Inl (check_violation ''guest_sessions_identity_hash_check'')
         else if list_ex (\<lambda>r. gst_id r = i) (guest_sessions d)
         then Inl (unique_violation ''guest_sessions_pkey'')
         else if list_ex (\<lambda>r. gst_identity_hash r = h) (guest_sessions d)
         then Inl (unique_violation ''guest_sessions_identity_hash_key'')
         else Inr (g, d\<lparr>guest_sessions := guest_sessions d @ [g]\<rparr>))"

definition get_guest_session_by_hash :: "string \<Rightarrow> database \<Rightarrow> error + guest_row" where
  "get_guest_session_by_hash h d =
     (case find (\<lambda>g. gst_identity_hash g = h) (guest_sessions d) of None \<Rightarrow> Inl NoRows | Some g \<Rightarrow> Inr g)"

definition touch_guest_session :: "uuid \<Rightarrow> time \<Rightarrow> database \<Rightarrow> error + unit \<times> database" where
  "touch_guest_session i t d =
     Inr ((), d\<lparr>guest_sessions := upd_rows (\<lambda>g. gst_id g = i) (\<lambda>g. g\<lparr>gst_last_seen_at := t\<rparr>)
       (guest_sessions d)\<rparr>)"

definition lock_guest_session :: "uuid \<Rightarrow> database \<Rightarrow> error + guest_row" where
  "lock_guest_session i d =
     (case find (\<lambda>g. gst_id g = i) (guest_sessions d) of None \<Rightarrow> Inl NoRows | Some g \<Rightarrow> Inr g)"

definition mark_guest_migrated :: "uuid \<Rightarrow> uuid \<Rightarrow> time \<Rightarrow> database \<Rightarrow> error + int \<times> database" where
  "mark_guest_migrated i user t d =
     (let hit = (\<lambda>g. gst_id g = i \<and> gst_migrated_user_id g = None)
      in if list_ex hit (guest_sessions d) \<and> \<not> list_ex (\<lambda>u. usr_id u = user) (users d)
         then Inl (foreign_key_violation ''guest_sessions_migrated_user_id_fkey'')
         else Inr (int (count_rows hit (guest_sessions d)),
           d\<lparr>guest_sessions := upd_rows hit (\<lambda>g. g\<lparr>gst_migrated_user_id := Some user,
               gst_migrated_at := Some t, gst_last_seen_at := t\<rparr>) (guest_sessions d)\<rparr>))"

definition creation_clash :: "uuid \<Rightarrow> conversation_row list \<Rightarrow> bool" where
  "creation_clash user cs \<longleftrightarrow>
     \<not> distinct (List.map_filter (\<lambda>c. if conv_user_id c = Some user then conv_creation_key c else None) cs)"

definition migrate_guest_conversations ::
  "uuid \<Rightarrow> uuid \<Rightarrow> time \<Rightarrow> database \<Rightarrow> error + int \<times> database" where
  "migrate_guest_conversations guest user t d =
     (let hit = (\<lambda>c. conv_guest_id c = Some guest);
          cs = upd_rows hit (\<lambda>c. c\<lparr>conv_user_id := Some user, conv_guest_id := None,
                                    conv_updated_at := t\<rparr>) (conversations d)
      in if list_ex hit (conversations d) \<and> \<not> list_ex (\<lambda>u. usr_id u = user) (users d)
         then Inl (foreign_key_violation ''conversations_user_id_fkey'')
         else if creation_clash user cs
         then Inl (unique_violation ''conversations_user_creation_idempotency_idx'')
         else Inr (int (count_rows hit (conversations d)), d\<lparr>conversations := cs\<rparr>))"

section \<open>The service\<close>

record guest_policy =
  gp_message_limit :: int
  gp_output_limit :: int

record allowance =
  al_messages_used :: int
  al_message_limit :: int
  al_tokens_used :: int
  al_token_limit :: int
  al_exhausted :: bool
  al_expires_at :: time

record cookie_config =
  cc_domain :: string
  cc_secure :: bool
  cc_same_site :: string

record guest_service =
  gs_cookies :: cookie_config
  gs_lifetime :: time
  gs_policy :: "(world, guest_policy) op option"
  gs_mac :: "string \<Rightarrow> string"
  gs_sha256 :: "string \<Rightarrow> string"

definition same_site_of :: "cookie_config \<Rightarrow> same_site" where
  "same_site_of c = (if cc_same_site c = ''strict'' then SameSiteStrict else SameSiteLax)"

definition guest_sign :: "guest_service \<Rightarrow> string \<Rightarrow> string" where
  "guest_sign S raw = sign_value (gs_mac S) raw"

definition guest_verify :: "guest_service \<Rightarrow> string \<Rightarrow> string option" where
  "guest_verify S v =
     (case cut_at CHR ''.'' v of
        None \<Rightarrow> None
      | Some (token, rest) \<Rightarrow>
          if token = [] then None else if guest_sign S token = v then Some token else None)"

definition guest_allowance :: "guest_service \<Rightarrow> guest_row \<Rightarrow> (world, allowance) op" where
  "guest_allowance S g =
     bindE (case gs_policy S of
              None \<Rightarrow> ok \<lparr>gp_message_limit = 4, gp_output_limit = 2000\<rparr>
            | Some source \<Rightarrow> wrap_err ''load guest policy'' source) (\<lambda>p.
     ok \<lparr>al_messages_used = gst_prompt_count g, al_message_limit = gp_message_limit p,
         al_tokens_used = gst_output_tokens g, al_token_limit = gp_output_limit p,
         al_exhausted = (gp_message_limit p \<le> gst_prompt_count g
                          \<or> gp_output_limit p \<le> gst_output_tokens g),
         al_expires_at = gst_expires_at g\<rparr>)"

definition guest_from_cookie :: "guest_service \<Rightarrow> string option \<Rightarrow> (world, guest_row) op" where
  "guest_from_cookie S cookie =
     (case cookie of
        None \<Rightarrow> fail GuestUnauthenticated
      | Some v \<Rightarrow>
          (case guest_verify S v of
             None \<Rightarrow> fail GuestUnauthenticated
           | Some raw \<Rightarrow>
               bindE (attempt (db_read (get_guest_session_by_hash (gs_sha256 S raw)))) (\<lambda>r.
               case r of
                 Inl e \<Rightarrow> fail (if errors_is e NoRows then GuestUnauthenticated
                                else Wrap ''get guest session'' e)
               | Inr g \<Rightarrow>
                   bindE clock_now (\<lambda>t.
                   if gst_expires_at g \<le> t \<or> gst_migrated_user_id g \<noteq> None
                   then fail GuestUnauthenticated else ok g))))"

definition guest_from_request :: "guest_service \<Rightarrow> 'a http_request \<Rightarrow> (world, guest_row) op" where
  "guest_from_request S req = guest_from_cookie S (get_cookie ''glazz_guest'' req)"

definition guest_cookie :: "guest_service \<Rightarrow> string \<Rightarrow> string \<Rightarrow> bool \<Rightarrow> http_cookie" where
  "guest_cookie S name v http_only =
     \<lparr>ck_name = name, ck_value = v, ck_path = ''/'', ck_domain = cc_domain (gs_cookies S),
      ck_max_age = gs_lifetime S div second, ck_http_only = http_only,
      ck_secure = cc_secure (gs_cookies S), ck_same_site = same_site_of (gs_cookies S)\<rparr>"

definition send_cookie :: "http_cookie \<Rightarrow> (http_state, unit) op" where
  "send_cookie c s = (Inr (), (fst s, set_cookie c (snd s)))"

definition issue_guest_csrf :: "guest_service \<Rightarrow> (http_state, unit) op" where
  "issue_guest_csrf S =
     bindE (lift_world (secure_token 32)) (\<lambda>raw.
     send_cookie (guest_cookie S ''glazz_guest_csrf'' (guest_sign S raw) False))"

definition resume_guest :: "guest_service \<Rightarrow> guest_row \<Rightarrow> (http_state, allowance \<times> bool) op" where
  "resume_guest S g =
     bindE (lift_world clock_now) (\<lambda>t.
     bindE (lift_world (dropped (db_exec (touch_guest_session (gst_id g) t)))) (\<lambda>_.
     bindE (issue_guest_csrf S) (\<lambda>_.
     bindE (lift_world (guest_allowance S g)) (\<lambda>a. ok (a, False)))))"

definition create_or_resume :: "guest_service \<Rightarrow> 'a http_request \<Rightarrow> (http_state, allowance \<times> bool) op" where
  "create_or_resume S req =
     bindE (attempt (lift_world (guest_from_request S req))) (\<lambda>r.
     case r of
       Inr g \<Rightarrow> resume_guest S g
     | Inl _ \<Rightarrow>
         bindE (lift_world (secure_token 32)) (\<lambda>raw.
         bindE (lift_world ids_new) (\<lambda>i.
         bindE (lift_world clock_now) (\<lambda>t.
         bindE (lift_world (wrap_err ''create guest session'' (db_exec
           (create_guest_session i (gs_sha256 S raw) (t + gs_lifetime S) t)))) (\<lambda>g.
         bindE (send_cookie (guest_cookie S ''glazz_guest'' (guest_sign S raw) True)) (\<lambda>_.
         bindE (issue_guest_csrf S) (\<lambda>_.
         bindE (lift_world (guest_allowance S g)) (\<lambda>a. ok (a, True)))))))))"

definition safe_method :: "string \<Rightarrow> bool" where
  "safe_method m \<longleftrightarrow> m \<in> {''GET'', ''HEAD'', ''OPTIONS''}"

definition guest_csrf :: "guest_service \<Rightarrow> 'a handler \<Rightarrow> 'a handler" where
  "guest_csrf S next req s =
     (if safe_method (req_method req) then next req s
      else
        let cookie = get_cookie ''glazz_guest_csrf'' req;
            header = get_header ''X-CSRF-Token'' req
        in if cookie = None \<or> header = [] \<or> the cookie \<noteq> header \<or> guest_verify S header = None
           then (fst s, write_error req 403 ''forbidden'' ''CSRF validation failed.'' (snd s))
           else next req s)"

definition current_guest :: "guest_service \<Rightarrow> 'a http_request \<Rightarrow> (world, allowance) op" where
  "current_guest S req = bindE (guest_from_request S req) (guest_allowance S)"

definition guest_id_of :: "guest_service \<Rightarrow> 'a http_request \<Rightarrow> (world, uuid) op" where
  "guest_id_of S req = bindE (guest_from_request S req) (\<lambda>g. ok (gst_id g))"

text \<open>The guest cookie: signing a token without a dot and verifying gives the token back, and
  whatever verifies is the signature of the token it gives.\<close>
theorem guest_cookie_roundtrip:
  "(raw \<noteq> [] \<and> CHR ''.'' \<notin> set raw \<longrightarrow> guest_verify S (guest_sign S raw) = Some raw) \<and>
   (guest_verify S v = Some t \<longrightarrow> v = guest_sign S t \<and> t \<noteq> [] \<and> CHR ''.'' \<notin> set t)"
  by (auto simp: guest_verify_def guest_sign_def cut_sign split: option.splits if_splits
      dest: cut_at_Some)

theorem guest_cookie_roundtrip_witness:
  "guest_verify \<lparr>gs_cookies = \<lparr>cc_domain = [], cc_secure = True, cc_same_site = ''strict''\<rparr>, gs_lifetime = 1,
     gs_policy = None, gs_mac = (\<lambda>x. ''mac''), gs_sha256 = (\<lambda>x. x)\<rparr> ''tok.mac'' = Some ''tok''"
  using guest_cookie_roundtrip [of "''tok''" "\<lparr>gs_cookies = \<lparr>cc_domain = [], cc_secure = True,
     cc_same_site = ''strict''\<rparr>, gs_lifetime = 1, gs_policy = None, gs_mac = (\<lambda>x. ''mac''), gs_sha256 = (\<lambda>x. x)\<rparr>"]
  by (simp add: guest_sign_def sign_value_def)

end
