(* ===== verification/Catalog.thy ===== *)
theory Catalog
  imports Redis
begin

text \<open>
  \<open>internal/models/service.go\<close>, \<open>internal/models/provider.go\<close> and the queries of
  \<open>store/models.sql.go\<close> they use: which models an actor may be given, the provider that serves a
  model, and the registration of the provider the configuration names. Text columns are ordered
  byte-wise (collation C).
\<close>

section \<open>Queries\<close>

text \<open>The \<open>EXISTS\<close> of the catalog queries: an enabled provider that is not down serves the model.\<close>

definition serves :: "database \<Rightarrow> mapping_row \<Rightarrow> provider_row \<Rightarrow> bool" where
  "serves d pm p \<longleftrightarrow> prv_id p = pm_provider_id pm \<and> pm_available pm \<and> prv_enabled p
     \<and> prv_health p \<noteq> ''unavailable''"

definition model_served :: "database \<Rightarrow> uuid \<Rightarrow> bool" where
  "model_served d m = list_ex (\<lambda>pm. pm_model_id pm = m \<and> list_ex (serves d pm) (providers d))
     (provider_models d)"

definition exposed_to :: "string \<Rightarrow> database \<Rightarrow> model_row \<Rightarrow> bool" where
  "exposed_to actor d m \<longleftrightarrow> mdl_enabled m \<and> mdl_available m \<and> mdl_supported m
     \<and> actor \<in> set (mdl_audience m) \<and> (actor \<noteq> ''guest'' \<or> actor \<in> set (mdl_default_for m))
     \<and> model_served d (mdl_id m)"

definition list_public_models :: "string \<Rightarrow> database \<Rightarrow> error + model_row list" where
  "list_public_models actor d =
     Inr (sort_key (\<lambda>m. (mdl_sort_order m, mdl_name m, mdl_id m))
       (filter (exposed_to actor d) (models d)))"

definition get_default_model :: "string \<Rightarrow> database \<Rightarrow> error + model_row" where
  "get_default_model actor d =
     (case find (\<lambda>m. mdl_enabled m \<and> mdl_available m \<and> mdl_supported m
               \<and> actor \<in> set (mdl_default_for m) \<and> model_served d (mdl_id m)) (models d) of
        None \<Rightarrow> Inl NoRows | Some m \<Rightarrow> Inr m)"

definition get_selectable_model :: "uuid \<Rightarrow> string \<Rightarrow> database \<Rightarrow> error + model_row" where
  "get_selectable_model i actor d =
     (case find (\<lambda>m. mdl_id m = i \<and> exposed_to actor d m) (models d) of
        None \<Rightarrow> Inl NoRows | Some m \<Rightarrow> Inr m)"

definition get_provider_for_model :: "uuid \<Rightarrow> database \<Rightarrow> error + mapping_row \<times> provider_row" where
  "get_provider_for_model m d =
     (case sort_key (\<lambda>(pm, p). prv_code p)
        (concat (map (\<lambda>pm. map (\<lambda>p. (pm, p)) (filter (serves d pm) (providers d)))
          (filter (\<lambda>pm. pm_model_id pm = m) (provider_models d)))) of
        [] \<Rightarrow> Inl NoRows | row # _ \<Rightarrow> Inr row)"

definition set_provider_enabled_by_code :: "bool \<Rightarrow> string \<Rightarrow> database \<Rightarrow> error + unit \<times> database" where
  "set_provider_enabled_by_code e code d =
     (let hit = (\<lambda>p. prv_code p = code \<and> prv_enabled p \<noteq> e)
      in if list_ex (\<lambda>p. hit p \<and> prv_version p + 1 \<ge> 2 ^ 31) (providers d) then Inl out_of_range
         else Inr ((), d\<lparr>providers := upd_rows hit
                (\<lambda>p. p\<lparr>prv_enabled := e, prv_version := prv_version p + 1\<rparr>) (providers d)\<rparr>))"

definition upsert_provider ::
  "uuid \<Rightarrow> string \<Rightarrow> string \<Rightarrow> string \<Rightarrow> bool \<Rightarrow> string \<Rightarrow> database \<Rightarrow> error + provider_row \<times> database" where
  "upsert_provider i code name adapter e health d =
     (case find (\<lambda>p. prv_code p = code) (providers d) of
        Some p \<Rightarrow>
          let q = p\<lparr>prv_display_name := name, prv_adapter := adapter, prv_enabled := e,
                     prv_health := health, prv_version := prv_version p + 1\<rparr>
          in if prv_version p + 1 \<ge> 2 ^ 31 then Inl out_of_range
             else Inr (q, d\<lparr>providers := upd_rows (\<lambda>r. prv_code r = code) (\<lambda>_. q) (providers d)\<rparr>)
      | None \<Rightarrow>
          if list_ex (\<lambda>p. prv_id p = i) (providers d) then Inl (unique_violation ''providers_pkey'')
          else let q = \<lparr>prv_id = i, prv_code = code, prv_display_name = name, prv_adapter = adapter,
                        prv_enabled = e, prv_health = health, prv_version = 1\<rparr>
               in Inr (q, d\<lparr>providers := providers d @ [q]\<rparr>))"

section \<open>The service\<close>

record capabilities =
  cap_chat :: bool
  cap_markdown :: bool
  cap_code :: bool

record model_view =
  mv_id :: uuid
  mv_name :: string
  mv_description :: string
  mv_context_window :: int
  mv_max_output :: int
  mv_capabilities :: capabilities

record model_selection =
  sel_model :: model_view
  sel_provider_id :: uuid
  sel_provider_code :: string
  sel_adapter :: string
  sel_provider_model_id :: string

text \<open>One \<open>bool\<close> field of \<open>json.Unmarshal\<close>: every member whose name folds to the field's is stored.\<close>

definition decode_flag :: "string \<Rightarrow> (string \<times> json) list \<Rightarrow> error + bool" where
  "decode_flag name members =
     foldl (\<lambda>acc (k, v). if \<not> equal_fold k name then acc
       else case v of
              JBool b \<Rightarrow> map_sum id (\<lambda>_. b) acc
            | JNull \<Rightarrow> acc
            | _ \<Rightarrow> Inl (Msg ''json: cannot unmarshal'')) (Inr False) members"

definition decode_capabilities :: "json \<Rightarrow> error + capabilities" where
  "decode_capabilities j =
     (case j of
        JObj members \<Rightarrow>
          bindS (decode_flag ''chatCompletions'' members) (\<lambda>chat.
          bindS (decode_flag ''markdown'' members) (\<lambda>markdown.
          bindS (decode_flag ''code'' members) (\<lambda>code.
          Inr \<lparr>cap_chat = chat, cap_markdown = markdown, cap_code = code\<rparr>)))
      | JNull \<Rightarrow> Inr \<lparr>cap_chat = False, cap_markdown = False, cap_code = False\<rparr>
      | _ \<Rightarrow> Inl (Msg ''json: cannot unmarshal''))"

definition map_model :: "model_row \<Rightarrow> error + model_view" where
  "map_model m =
     (case decode_capabilities (mdl_capabilities m) of
        Inl e \<Rightarrow> Inl (Wrap ''decode model capabilities'' e)
      | Inr c \<Rightarrow>
          if \<not> cap_chat c then Inl ModelNotSelectable
          else Inr \<lparr>mv_id = mdl_id m, mv_name = mdl_name m, mv_description = mdl_description m,
                    mv_context_window = mdl_context_window m, mv_max_output = mdl_max_output m,
                    mv_capabilities = c\<rparr>)"

fun map_models :: "model_row list \<Rightarrow> error + model_view list" where
  "map_models [] = Inr []"
| "map_models (m # ms) = bindS (map_model m) (\<lambda>v. bindS (map_models ms) (\<lambda>vs. Inr (v # vs)))"

definition list_models :: "string \<Rightarrow> (world, model_view list) op" where
  "list_models actor =
     bindE (wrap_err ''list public models'' (db_read (list_public_models actor)))
       (\<lambda>ms. of_sum (map_models ms))"

text \<open>\<open>errors.Is(err, pgx.ErrNoRows)\<close> becomes \<open>ErrNotSelectable\<close>, any other error is wrapped.\<close>

definition or_not_selectable :: "string \<Rightarrow> (world, 'a) op \<Rightarrow> (world, 'a) op" where
  "or_not_selectable what m =
     bindE (attempt m) (\<lambda>r. case r of
       Inl e \<Rightarrow> fail (if errors_is e NoRows then ModelNotSelectable else Wrap what e)
     | Inr x \<Rightarrow> ok x)"

definition select_record :: "model_row \<Rightarrow> (world, model_selection) op" where
  "select_record m =
     bindE (of_sum (map_model m)) (\<lambda>v.
     bindE (or_not_selectable ''get provider mapping'' (db_read (get_provider_for_model (mdl_id m))))
       (\<lambda>(pm, p).
     ok \<lparr>sel_model = v, sel_provider_id = pm_provider_id pm, sel_provider_code = prv_code p,
         sel_adapter = prv_adapter p, sel_provider_model_id = pm_upstream_id pm\<rparr>))"

definition default_model :: "string \<Rightarrow> (world, model_selection) op" where
  "default_model actor =
     bindE (or_not_selectable ''get default model'' (db_read (get_default_model actor))) select_record"

definition select_model :: "uuid \<Rightarrow> string \<Rightarrow> (world, model_selection) op" where
  "select_model i actor =
     bindE (or_not_selectable ''get selectable model'' (db_read (get_selectable_model i actor)))
       select_record"

section \<open>The configured provider\<close>

definition provider_code :: "string \<Rightarrow> string" where
  "provider_code kind = (if kind = ''fake'' then ''fake'' else ''configured'')"

definition configured_provider_id :: uuid where
  "configured_provider_id = 0x70008000000000000002"

lemma hex_fixed_numeral:
  "hex_fixed (numeral k) n = hex_fixed (pred_numeral k) (n div 16) @ [digit_char (n mod 16)]"
  by (simp only: numeral_eq_Suc hex_fixed.simps)

lemma configured_provider_id_text:
  "uuid_string configured_provider_id = ''00000000-0000-7000-8000-000000000002''"
  by (simp add: uuid_string_def configured_provider_id_def hex_fixed_numeral digit_char_def) code_simp

definition configure_provider :: "string \<Rightarrow> (world, string) op" where
  "configure_provider kind =
     (let code = provider_code kind in
      bindE (within_transaction
        (if code = ''fake'' then db_exec (set_provider_enabled_by_code True ''fake'')
         else
           bindE (wrap_err ''register configured model provider'' (db_exec (upsert_provider
             configured_provider_id ''configured'' ''Configured LLM provider'' ''openai_compatible''
             True ''healthy''))) (\<lambda>_.
           wrap_err ''disable fake model provider'' (db_exec (set_provider_enabled_by_code False ''fake''))))) (\<lambda>_.
      ok code))"

section \<open>The catalog as an interface\<close>

text \<open>
  \<open>conversations.ModelCatalog\<close>: what its clients rely on. It reads only, and what it selects is a
  model that is exposed to the actor (the default, or the model asked for) with the row's limits and
  a provider that serves it.
\<close>

record model_catalog =
  mc_default :: "string \<Rightarrow> (world, model_selection) op"
  mc_select :: "uuid \<Rightarrow> string \<Rightarrow> (world, model_selection) op"

definition selection_of :: "database \<Rightarrow> model_row \<Rightarrow> model_selection \<Rightarrow> bool" where
  "selection_of d m s \<longleftrightarrow> m \<in> set (models d) \<and> mv_id (sel_model s) = mdl_id m
     \<and> mv_context_window (sel_model s) = mdl_context_window m \<and> mv_max_output (sel_model s) = mdl_max_output m
     \<and> mdl_enabled m \<and> mdl_available m \<and> mdl_supported m
     \<and> list_ex (\<lambda>pm. pm_model_id pm = mdl_id m \<and> pm_provider_id pm = sel_provider_id s
          \<and> pm_upstream_id pm = sel_provider_model_id s \<and> list_ex (serves d pm) (providers d)) (provider_models d)"

locale catalog_laws =
  fixes C :: model_catalog
  assumes default_frame: "mc_default C a w = (r, w') \<Longrightarrow> \<exists>fs. w' = w\<lparr>faults := fs\<rparr>"
    and select_frame: "mc_select C i a w = (r, w') \<Longrightarrow> \<exists>fs. w' = w\<lparr>faults := fs\<rparr>"
    and default_selects: "mc_default C a w = (Inr s, w') \<Longrightarrow>
      \<exists>m. selection_of (db w) m s \<and> a \<in> set (mdl_default_for m)"
    and select_selects: "mc_select C i a w = (Inr s, w') \<Longrightarrow>
      \<exists>m. selection_of (db w) m s \<and> mdl_id m = i \<and> exposed_to a (db w) m"
begin

lemma default_db: "mc_default C a w = (r, w') \<Longrightarrow> db w' = db w"
  using default_frame by fastforce

lemma select_db: "mc_select C i a w = (r, w') \<Longrightarrow> db w' = db w"
  using select_frame by fastforce

lemma selected_exists:
  "mc_default C a w = (Inr s, w') \<or> mc_select C i a w = (Inr s, w') \<Longrightarrow>
   list_ex (\<lambda>m. mdl_id m = mv_id (sel_model s)) (models (db w))"
  using default_selects select_selects by (fastforce simp: selection_of_def list_ex_iff)

end

definition catalog_service :: model_catalog where
  "catalog_service = \<lparr>mc_default = default_model, mc_select = select_model\<rparr>"

lemma no_fault_used [simp]: "\<exists>fs. (w :: world) = w\<lparr>faults := fs\<rparr>"
  by (rule exI [of _ "faults w"]) simp

lemma call_frame_read: "db_read q w = (r, w') \<Longrightarrow> \<exists>fs. w' = w\<lparr>faults := fs\<rparr>"
  by (auto simp: db_read_def elim!: call_cases)

lemma get_provider_for_modelD:
  assumes "get_provider_for_model m d = Inr (pm, p)"
  shows "pm \<in> set (provider_models d) \<and> pm_model_id pm = m \<and> p \<in> set (providers d) \<and> serves d pm p"
proof -
  let ?rows = "concat (map (\<lambda>pm. map (\<lambda>p. (pm, p)) (filter (serves d pm) (providers d)))
    (filter (\<lambda>pm. pm_model_id pm = m) (provider_models d)))"
  obtain rest where "sort_key (\<lambda>(pm, p). prv_code p) ?rows = (pm, p) # rest"
    using assms by (auto simp: get_provider_for_model_def split: list.splits)
  then have "(pm, p) \<in> set (sort_key (\<lambda>(pm, p). prv_code p) ?rows)"
    by (metis list.set_intros(1))
  then show ?thesis by auto
qed

lemma map_modelD: "map_model m = Inr v \<Longrightarrow> mv_id v = mdl_id m \<and> mv_context_window v = mdl_context_window m
    \<and> mv_max_output v = mdl_max_output m \<and> cap_chat (mv_capabilities v)"
  by (auto simp: map_model_def split: sum.splits if_splits)

lemma or_not_selectable_okE [op_elims]:
  assumes "or_not_selectable what m w = (Inr x, w')"
  obtains "m w = (Inr x, w')"
  using assms by (auto simp: or_not_selectable_def elim!: op_elims split: sum.splits)

lemma select_record_okD:
  assumes "select_record m w = (Inr s, w')"
  shows "mv_id (sel_model s) = mdl_id m \<and> mv_context_window (sel_model s) = mdl_context_window m
    \<and> mv_max_output (sel_model s) = mdl_max_output m \<and> (\<exists>pm \<in> set (provider_models (db w)).
      pm_model_id pm = mdl_id m \<and> pm_provider_id pm = sel_provider_id s
      \<and> pm_upstream_id pm = sel_provider_model_id s \<and> (\<exists>p \<in> set (providers (db w)). serves (db w) pm p))"
  using assms unfolding select_record_def
  by (auto elim!: op_elims dest!: map_modelD db_read_okD get_provider_for_modelD sym [of "Inr _"]) blast

text \<open>Reading operations change only what is left of the schedule of faults.\<close>

definition only_faults :: "(world, 'a) op \<Rightarrow> bool" where
  "only_faults m \<longleftrightarrow> (\<forall>w r w'. m w = (r, w') \<longrightarrow> (\<exists>fs. w' = w\<lparr>faults := fs\<rparr>))"

lemma only_faultsD: "only_faults m \<Longrightarrow> m w = (r, w') \<Longrightarrow> \<exists>fs. w' = w\<lparr>faults := fs\<rparr>"
  unfolding only_faults_def by blast

lemma only_faults_of_sum: "only_faults (of_sum r)"
  by (simp add: only_faults_def)

lemma only_faults_ok: "only_faults (ok x)"
  by (simp add: only_faults_def)

lemma only_faults_fail: "only_faults (fail e)"
  by (simp add: only_faults_def)

lemma only_faults_read: "only_faults (db_read q)"
  by (simp add: only_faults_def call_frame_read)

lemma only_faults_bind:
  assumes "only_faults m" and "\<And>x. only_faults (f x)"
  shows "only_faults (bindE m f)"
  unfolding only_faults_def
proof (intro allI impI)
  fix w r w'
  assume run: "bindE m f w = (r, w')"
  obtain y w1 where m: "m w = (y, w1)" by fastforce
  then obtain fs where w1: "w1 = w\<lparr>faults := fs\<rparr>" using assms(1) only_faultsD by blast
  show "\<exists>fs. w' = w\<lparr>faults := fs\<rparr>"
  proof (cases y)
    case (Inl e)
    with run m w1 show ?thesis by auto
  next
    case (Inr x)
    with run m have "f x w1 = (r, w')" by simp
    then obtain fs' where "w' = w1\<lparr>faults := fs'\<rparr>" using assms(2) [of x] only_faultsD by blast
    with w1 show ?thesis by auto
  qed
qed

lemma only_faults_attempt: "only_faults m \<Longrightarrow> only_faults (attempt m)"
  by (auto simp: only_faults_def attempt_def split: prod.splits)

lemma only_faults_or_not_selectable: "only_faults m \<Longrightarrow> only_faults (or_not_selectable what m)"
  unfolding or_not_selectable_def
  by (intro only_faults_bind only_faults_attempt) (auto intro: only_faults_ok only_faults_fail split: sum.split)

lemmas only_faults_intros = only_faults_of_sum only_faults_ok only_faults_fail only_faults_read
  only_faults_bind only_faults_attempt only_faults_or_not_selectable

lemma only_faults_select_record: "only_faults (select_record m)"
  unfolding select_record_def by (auto intro!: only_faults_intros split: prod.split)

lemma only_faults_catalog: "only_faults (default_model a)" "only_faults (select_model i a)"
  unfolding default_model_def select_model_def
  by (intro only_faults_bind only_faults_or_not_selectable only_faults_read only_faults_select_record)+

interpretation cat: catalog_laws catalog_service
proof
  fix i a w r w' s
  show "mc_default catalog_service a w = (r, w') \<Longrightarrow> \<exists>fs. w' = w\<lparr>faults := fs\<rparr>"
    using only_faultsD [OF only_faults_catalog(1)] by (simp add: catalog_service_def)
  show "mc_select catalog_service i a w = (r, w') \<Longrightarrow> \<exists>fs. w' = w\<lparr>faults := fs\<rparr>"
    using only_faultsD [OF only_faults_catalog(2)] by (simp add: catalog_service_def)
  show "\<exists>m. selection_of (db w) m s \<and> a \<in> set (mdl_default_for m)"
    if run: "mc_default catalog_service a w = (Inr s, w')"
  proof -
    obtain m w1 where m: "db_read (get_default_model a) w = (Inr m, w1)" "select_record m w1 = (Inr s, w')"
      using run by (auto simp: catalog_service_def default_model_def elim!: op_elims intro!: that)
    then have "m \<in> set (models (db w)) \<and> mdl_enabled m \<and> mdl_available m \<and> mdl_supported m
        \<and> a \<in> set (mdl_default_for m)" "db w1 = db w"
      by (auto dest!: db_read_okD find_Some_iff_mem simp: get_default_model_def split: option.splits)
    then show ?thesis
      using select_record_okD [OF m(2)] by (auto simp: selection_of_def list_ex_iff)
  qed
  show "\<exists>m. selection_of (db w) m s \<and> mdl_id m = i \<and> exposed_to a (db w) m"
    if run: "mc_select catalog_service i a w = (Inr s, w')"
  proof -
    obtain m w1 where m: "db_read (get_selectable_model i a) w = (Inr m, w1)" "select_record m w1 = (Inr s, w')"
      using run by (auto simp: catalog_service_def select_model_def elim!: op_elims intro!: that)
    then have "m \<in> set (models (db w)) \<and> mdl_id m = i \<and> exposed_to a (db w) m" "db w1 = db w"
      by (auto dest!: db_read_okD find_Some_iff_mem simp: get_selectable_model_def split: option.splits)
    then show ?thesis
      using select_record_okD [OF m(2)]
      by (intro exI [of _ m]) (auto simp: selection_of_def exposed_to_def list_ex_iff)
  qed
qed

section \<open>Properties\<close>

lemma fake_disabled:
  "set_provider_enabled_by_code False c d = Inr (u, d') \<Longrightarrow>
   \<forall>p \<in> set (providers d'). prv_code p = c \<longrightarrow> \<not> prv_enabled p"
proof -
  assume "set_provider_enabled_by_code False c d = Inr (u, d')"
  then have "providers d' = upd_rows (\<lambda>p. prv_code p = c \<and> prv_enabled p \<noteq> False)
      (\<lambda>p. p\<lparr>prv_enabled := False, prv_version := prv_version p + 1\<rparr>) (providers d)"
    by (simp add: set_provider_enabled_by_code_def Let_def split: if_splits) auto
  then have rows: "set (providers d') = (\<lambda>p. if prv_code p = c \<and> prv_enabled p \<noteq> False
      then p\<lparr>prv_enabled := False, prv_version := prv_version p + 1\<rparr> else p) ` set (providers d)"
    by (simp only: set_upd_rows)
  show ?thesis
  proof (intro ballI impI)
    fix p assume "p \<in> set (providers d')" "prv_code p = c"
    then obtain x where "p = (if prv_code x = c \<and> prv_enabled x \<noteq> False
      then x\<lparr>prv_enabled := False, prv_version := prv_version x + 1\<rparr> else x)"
      unfolding rows by (elim imageE)
    with \<open>prv_code p = c\<close> show "\<not> prv_enabled p" by (simp split: if_splits)
  qed
qed

text \<open>C24: a model that was selected for an actor is one the administrators exposed to the actor, is
  served by an enabled provider that is not down, and is the model asked for, with the limits of its
  row; selecting writes nothing.\<close>
theorem selection_exposed:
  assumes "select_model i a w = (Inr s, w')"
  shows "(\<exists>m. selection_of (db w) m s \<and> mdl_id m = i \<and> exposed_to a (db w) m) \<and> db w' = db w"
proof -
  have run: "mc_select catalog_service i a w = (Inr s, w')"
    using assms by (simp add: catalog_service_def)
  from cat.select_selects [OF run] cat.select_db [OF run] show ?thesis by blast
qed

text \<open>C30: once a real provider was configured, no model is served by the deterministic fake.\<close>
theorem configured_without_fake:
  assumes "configure_provider kind w = (Inr code, w')" and "kind \<noteq> ''fake''"
    and "get_provider_for_model m (db w') = Inr (pm, p)"
  shows "code = ''configured'' \<and> prv_code p \<noteq> ''fake''"
proof -
  have pc: "provider_code kind = ''configured''"
    using assms(2) by (simp add: provider_code_def)
  obtain w1 w2 where code: "code = ''configured''" and w2: "db w' = db w2"
    and "bindE (wrap_err ''register configured model provider'' (db_exec (upsert_provider
             configured_provider_id ''configured'' ''Configured LLM provider'' ''openai_compatible''
             True ''healthy''))) (\<lambda>_.
           wrap_err ''disable fake model provider'' (db_exec (set_provider_enabled_by_code False ''fake''))) w1
      = (Inr (), w2)"
    using assms(1) unfolding configure_provider_def pc Let_def
    by (simp, elim op_elims within_transaction_okD) simp
  then obtain w3 where "db_exec (set_provider_enabled_by_code False ''fake'') w3 = (Inr (), w2)"
    by (elim op_elims) (rule that)
  from db_exec_okD [OF this] have "code = ''configured'' \<and> (\<forall>p \<in> set (providers (db w')). prv_code p = ''fake'' \<longrightarrow> \<not> prv_enabled p)"
    unfolding code w2 using fake_disabled by blast
  then show ?thesis
    using get_provider_for_modelD [OF assms(3)] by (auto simp: serves_def)
qed

definition catalog_db :: database where
  "catalog_db = empty_db\<lparr>
     providers := [\<lparr>prv_id = 1, prv_code = ''fake'', prv_display_name = ''Fake'', prv_adapter = ''fake'',
        prv_enabled = True, prv_health = ''healthy'', prv_version = 1\<rparr>],
     models := [\<lparr>mdl_id = 100, mdl_slug = ''m'', mdl_name = ''M'', mdl_description = [],
        mdl_context_window = 131072, mdl_max_output = 8192,
        mdl_capabilities = JObj [(''chatCompletions'', JBool True)], mdl_enabled = True,
        mdl_available = True, mdl_supported = True, mdl_audience = [''guest'', ''user''],
        mdl_default_for = [''guest'', ''user''], mdl_sort_order = 0, mdl_version = 1\<rparr>],
     provider_models := [\<lparr>pm_provider_id = 1, pm_model_id = 100, pm_upstream_id = ''m'',
        pm_available = True, pm_metadata = JObj [], pm_synced_at = 0\<rparr>,
        \<lparr>pm_provider_id = configured_provider_id, pm_model_id = 100, pm_upstream_id = ''up'',
        pm_available = True, pm_metadata = JObj [], pm_synced_at = 0\<rparr>]\<rparr>"

definition catalog_world :: world where
  "catalog_world = world_of catalog_db 1000 [] []"

lemmas catalog_eval = select_model_def default_model_def select_record_def or_not_selectable_def
  get_selectable_model_def get_default_model_def get_provider_for_model_def exposed_to_def
  model_served_def serves_def map_model_def decode_capabilities_def decode_flag_def
  equal_fold_def fold_rune_def decode_runes_ascii configure_provider_def provider_code_def
  upsert_provider_def set_provider_enabled_by_code_def configured_provider_id_def
  catalog_world_def catalog_db_def empty_db_def Let_def

lemma example_select: "\<exists>s. fst (select_model 100 ''guest'' catalog_world) = Inr s \<and> mv_id (sel_model s) = 100"
  by (simp add: catalog_eval world_eval)

theorem selection_exposed_witness:
  "mv_id (case fst (select_model 100 ''guest'' catalog_world) of Inr s \<Rightarrow> sel_model s) = 100
   \<and> db (snd (select_model 100 ''guest'' catalog_world)) = catalog_db"
proof -
  obtain s where s: "fst (select_model 100 ''guest'' catalog_world) = Inr s" "mv_id (sel_model s) = 100"
    using example_select by blast
  then have "select_model 100 ''guest'' catalog_world = (Inr s, snd (select_model 100 ''guest'' catalog_world))"
    by (simp add: prod_eq_iff)
  from selection_exposed [OF this] s show ?thesis
    by (simp add: catalog_world_def world_of_def)
qed

lemma example_configure:
  "fst (configure_provider ''openai'' catalog_world) = Inr ''configured''"
  "\<exists>pm p. get_provider_for_model 100 (db (snd (configure_provider ''openai'' catalog_world))) = Inr (pm, p)"
  by (simp_all add: catalog_eval world_eval)

theorem configured_without_fake_witness:
  "\<exists>pm p. get_provider_for_model 100 (db (snd (configure_provider ''openai'' catalog_world))) = Inr (pm, p)
     \<and> prv_code p \<noteq> ''fake''"
proof -
  obtain pm p where "get_provider_for_model 100 (db (snd (configure_provider ''openai'' catalog_world))) = Inr (pm, p)"
    using example_configure(2) by blast
  moreover have "configure_provider ''openai'' catalog_world =
      (Inr ''configured'', snd (configure_provider ''openai'' catalog_world))"
    using example_configure(1) by (simp add: prod_eq_iff)
  ultimately show ?thesis
    using configured_without_fake [of "''openai''" catalog_world "''configured''"] by auto
qed

end
