(* ===== verification/Sessions.thy ===== *)
theory Sessions
  imports Redis
begin

text \<open>
  \<open>internal/identity/tokens/jwt.go\<close> and \<open>internal/identity/sessions/service.go\<close> with their queries of
  \<open>store/identity.sql.go\<close>: access tokens, and sessions whose refresh tokens are rotated on every
  use. The JWT library (\<open>jwt_sign\<close>, \<open>jwt_parse\<close>), the UUID parser and SHA-256 are parameters; the
  random \<open>jti\<close> of a token, which nothing reads, is left out.
\<close>

section \<open>Access tokens\<close>

record claims =
  cl_session :: string
  cl_version :: int
  cl_issuer :: string
  cl_subject :: string
  cl_audience :: "string list"
  cl_expires :: "time option"
  cl_not_before :: "time option"
  cl_issued :: "time option"
  cl_id :: string

record key_ring =
  kr_active :: string
  kr_private :: string
  kr_public :: "string \<rightharpoonup> string"
  kr_issuer :: string
  kr_audience :: string
  kr_lifetime :: time

text \<open>
  What the JWT library is given: for signing the header's key id, the claims and the key; for
  parsing the key function, the required issuer and audience, the clock and the text.
  \<open>jwt_new_id\<close> is the random id \<open>uuid.NewString\<close> draws for a token. A NumericDate counts seconds.
\<close>

record jwt_library =
  jwt_new_id :: "time \<Rightarrow> string"
  jwt_sign :: "string \<Rightarrow> claims \<Rightarrow> string \<Rightarrow> error + string"
  jwt_parse :: "(string option \<Rightarrow> error + string) \<Rightarrow> string \<Rightarrow> string \<Rightarrow> time \<Rightarrow> string \<Rightarrow> error + claims"
  uuid_parse :: "string \<Rightarrow> uuid option"

definition numeric_date :: "time \<Rightarrow> time" where
  "numeric_date t = t div second * second"

definition token_claims :: "jwt_library \<Rightarrow> key_ring \<Rightarrow> time \<Rightarrow> uuid \<Rightarrow> uuid \<Rightarrow> int \<Rightarrow> claims" where
  "token_claims lib ring t user session version =
     \<lparr>cl_session = uuid_string session, cl_version = version, cl_issuer = kr_issuer ring,
      cl_subject = uuid_string user, cl_audience = [kr_audience ring],
      cl_expires = Some (numeric_date (t + kr_lifetime ring)),
      cl_not_before = Some (numeric_date t), cl_issued = Some (numeric_date t), cl_id = jwt_new_id lib t\<rparr>"

definition sign_token :: "jwt_library \<Rightarrow> key_ring \<Rightarrow> time \<Rightarrow> uuid \<Rightarrow> uuid \<Rightarrow> int \<Rightarrow> error + string" where
  "sign_token lib ring t user session version =
     (case jwt_sign lib (kr_active ring) (token_claims lib ring t user session version) (kr_private ring) of
        Inl e \<Rightarrow> Inl (Wrap ''sign access token'' e)
      | Inr s \<Rightarrow> Inr s)"



definition add_verification_key :: "string \<Rightarrow> string \<Rightarrow> key_ring \<Rightarrow> key_ring" where
  "add_verification_key k pub ring = ring\<lparr>kr_public := (kr_public ring)(k \<mapsto> pub)\<rparr>"

definition remove_verification_key :: "string \<Rightarrow> key_ring \<Rightarrow> key_ring" where
  "remove_verification_key k ring =
     (if k \<noteq> kr_active ring then ring\<lparr>kr_public := (kr_public ring)(k := None)\<rparr> else ring)"

section \<open>Queries\<close>

definition create_auth_session ::
  "uuid \<Rightarrow> uuid \<Rightarrow> uuid \<Rightarrow> string option \<Rightarrow> time \<Rightarrow> time \<Rightarrow> database \<Rightarrow> error + session_row \<times> database"
where
  "create_auth_session i user family label expires t d =
     (let s = \<lparr>ses_id = i, ses_user_id = user, ses_family_id = family, ses_device_label = label,
               ses_token_version = 1, ses_refresh_expires_at = expires, ses_recent_auth_at = t,
               ses_last_seen_at = t, ses_revoked_at = None, ses_reuse_detected_at = None,
               ses_created_at = t\<rparr>
      in if list_ex (\<lambda>r. ses_id r = i) (auth_sessions d)
         then Inl (unique_violation ''auth_sessions_pkey'')
         else if \<not> list_ex (\<lambda>u. usr_id u = user) (users d)
         then Inl (foreign_key_violation ''auth_sessions_user_id_fkey'')
         else Inr (s, d\<lparr>auth_sessions := auth_sessions d @ [s]\<rparr>))"

definition insert_refresh_token ::
  "string \<Rightarrow> uuid \<Rightarrow> time \<Rightarrow> database \<Rightarrow> error + unit \<times> database" where
  "insert_refresh_token h session expires d =
     (if length h \<noteq> 32 then Inl (check_violation ''auth_refresh_tokens'')
      else if list_ex (\<lambda>r. rt_hash r = h) (refresh_tokens d)
      then Inl (unique_violation ''auth_refresh_tokens_pkey'')
      else if \<not> list_ex (\<lambda>s. ses_id s = session) (auth_sessions d)
      then Inl (foreign_key_violation ''auth_refresh_tokens_session_id_fkey'')
      else Inr ((), d\<lparr>refresh_tokens := refresh_tokens d @
             [\<lparr>rt_hash = h, rt_session_id = session, rt_expires_at = expires, rt_used_at = None\<rparr>]\<rparr>))"

definition lock_refresh_token :: "string \<Rightarrow> database \<Rightarrow> error + refresh_row \<times> session_row" where
  "lock_refresh_token h d =
     (case find (\<lambda>r. rt_hash r = h) (refresh_tokens d) of
        None \<Rightarrow> Inl NoRows
      | Some r \<Rightarrow>
          (case find (\<lambda>s. ses_id s = rt_session_id r) (auth_sessions d) of
             None \<Rightarrow> Inl NoRows
           | Some s \<Rightarrow> Inr (r, s)))"

definition mark_refresh_token_used :: "string \<Rightarrow> time \<Rightarrow> database \<Rightarrow> error + int \<times> database" where
  "mark_refresh_token_used h t d =
     (let hit = (\<lambda>r. rt_hash r = h \<and> rt_used_at r = None)
      in Inr (int (count_rows hit (refresh_tokens d)),
              d\<lparr>refresh_tokens := upd_rows hit (\<lambda>r. r\<lparr>rt_used_at := Some t\<rparr>) (refresh_tokens d)\<rparr>))"

definition coalesce :: "'a option \<Rightarrow> 'a \<Rightarrow> 'a option" where
  "coalesce a b = (case a of None \<Rightarrow> Some b | Some x \<Rightarrow> Some x)"

definition revoke_session_family :: "uuid \<Rightarrow> time \<Rightarrow> database \<Rightarrow> error + unit \<times> database" where
  "revoke_session_family family t d =
     (if list_ex (\<lambda>s. ses_family_id s = family \<and> ses_token_version s + 1 \<ge> 2 ^ 31) (auth_sessions d)
      then Inl out_of_range
      else Inr ((), d\<lparr>auth_sessions := upd_rows (\<lambda>s. ses_family_id s = family)
        (\<lambda>s. s\<lparr>ses_revoked_at := coalesce (ses_revoked_at s) t,
               ses_reuse_detected_at := coalesce (ses_reuse_detected_at s) t,
               ses_token_version := ses_token_version s + 1\<rparr>) (auth_sessions d)\<rparr>))"

definition touch_auth_session :: "uuid \<Rightarrow> time \<Rightarrow> database \<Rightarrow> error + unit \<times> database" where
  "touch_auth_session i t d =
     Inr ((), d\<lparr>auth_sessions := upd_rows (\<lambda>s. ses_id s = i) (\<lambda>s. s\<lparr>ses_last_seen_at := t\<rparr>)
       (auth_sessions d)\<rparr>)"

definition get_auth_session :: "uuid \<Rightarrow> database \<Rightarrow> error + session_row" where
  "get_auth_session i d =
     (case find (\<lambda>s. ses_id s = i) (auth_sessions d) of None \<Rightarrow> Inl NoRows | Some s \<Rightarrow> Inr s)"

definition list_auth_sessions :: "uuid \<Rightarrow> time \<Rightarrow> database \<Rightarrow> error + session_row list" where
  "list_auth_sessions user t d =
     Inr (rev (sort_key (\<lambda>s. (ses_created_at s, ses_id s))
       (filter (\<lambda>s. ses_user_id s = user \<and> ses_revoked_at s = None \<and> t < ses_refresh_expires_at s)
          (auth_sessions d))))"

definition revoke_auth_session :: "uuid \<Rightarrow> uuid \<Rightarrow> time \<Rightarrow> database \<Rightarrow> error + int \<times> database" where
  "revoke_auth_session i user t d =
     (let hit = (\<lambda>s. ses_id s = i \<and> ses_user_id s = user)
      in if list_ex (\<lambda>s. hit s \<and> ses_token_version s + 1 \<ge> 2 ^ 31) (auth_sessions d)
         then Inl out_of_range
         else Inr (int (count_rows hit (auth_sessions d)),
           d\<lparr>auth_sessions := upd_rows hit (\<lambda>s. s\<lparr>ses_revoked_at := coalesce (ses_revoked_at s) t,
                ses_token_version := ses_token_version s + 1\<rparr>) (auth_sessions d)\<rparr>))"

section \<open>The service\<close>

record credentials =
  crd_access :: string
  crd_refresh :: string
  crd_session :: uuid
  crd_user :: uuid

record session_service =
  ss_lib :: jwt_library
  ss_ring :: key_ring
  ss_refresh_ttl :: time
  ss_sha256 :: "string \<Rightarrow> string"

definition nullable_string :: "string \<Rightarrow> string option" where
  "nullable_string s = (if s = [] then None else Some s)"

definition create_session :: "session_service \<Rightarrow> uuid \<Rightarrow> string \<Rightarrow> (world, credentials) op" where
  "create_session S user label =
     bindE ids_new (\<lambda>session.
     bindE ids_new (\<lambda>family.
     bindE (secure_token 32) (\<lambda>token.
     bindE clock_now (\<lambda>t.
     let expires = t + ss_refresh_ttl S in
     bindE (within_transaction
       (bindE (wrap_err ''create auth session'' (db_exec
          (create_auth_session session user family (nullable_string label) expires t))) (\<lambda>created.
        bindE (wrap_err ''insert refresh token'' (db_exec
          (insert_refresh_token (ss_sha256 S token) session expires))) (\<lambda>_.
        ok created)))) (\<lambda>created.
     bindE (of_sum (sign_token (ss_lib S) (ss_ring S) t user session (ses_token_version created)))
       (\<lambda>access.
     ok \<lparr>crd_access = access, crd_refresh = token, crd_session = session, crd_user = user\<rparr>))))))"

text \<open>
  The transaction of \<open>Rotate\<close>. Its result is the error the caller reports after the commit
  (\<open>semanticError\<close>), or the session; a reused token revokes its family and that is committed.
\<close>

definition rotate_locked ::
  "string \<Rightarrow> string \<Rightarrow> time \<Rightarrow> refresh_row \<times> session_row \<Rightarrow> (world, error + session_row) op" where
  "rotate_locked current_hash next_hash t row =
     (case row of (token, session) \<Rightarrow>
        if rt_used_at token \<noteq> None
        then bindE (wrap_err ''revoke reused refresh family''
               (db_exec (revoke_session_family (ses_family_id session) t)))
               (\<lambda>_. ok (Inl RefreshReuse))
        else if ses_revoked_at session \<noteq> None \<or> rt_expires_at token \<le> t
                \<or> ses_refresh_expires_at session \<le> t
        then ok (Inl InvalidRefresh)
        else
          bindE (wrap_err ''mark refresh token used''
            (db_exec (mark_refresh_token_used current_hash t))) (\<lambda>updated.
          if updated \<noteq> 1 then fail (Msg ''refresh rotation lost token lock'')
          else
            bindE (wrap_err ''insert rotated refresh token'' (db_exec
              (insert_refresh_token next_hash (rt_session_id token) (ses_refresh_expires_at session))))
              (\<lambda>_.
            bindE (db_exec (touch_auth_session (rt_session_id token) t)) (\<lambda>_.
            ok (Inr session)))))"

definition rotate_tx :: "string \<Rightarrow> string \<Rightarrow> time \<Rightarrow> (world, error + session_row) op" where
  "rotate_tx current_hash next_hash t =
     bindE (attempt (db_read (lock_refresh_token current_hash))) (\<lambda>r.
     case r of
       Inl e \<Rightarrow> if errors_is e NoRows then ok (Inl InvalidRefresh)
                else fail (Wrap ''lock refresh token'' e)
     | Inr row \<Rightarrow> rotate_locked current_hash next_hash t row)"

definition rotate_session :: "session_service \<Rightarrow> string \<Rightarrow> (world, credentials) op" where
  "rotate_session S raw =
     (if raw = [] then fail InvalidRefresh
      else
        bindE (secure_token 32) (\<lambda>next.
        bindE clock_now (\<lambda>t.
        bindE (within_transaction (rotate_tx (ss_sha256 S raw) (ss_sha256 S next) t)) (\<lambda>r.
        case r of
          Inl e \<Rightarrow> fail e
        | Inr session \<Rightarrow>
            bindE (of_sum (sign_token (ss_lib S) (ss_ring S) t (ses_user_id session) (ses_id session)
                     (ses_token_version session))) (\<lambda>access.
            ok \<lparr>crd_access = access, crd_refresh = next, crd_session = ses_id session,
                crd_user = ses_user_id session\<rparr>)))))"

definition validate_access_session :: "session_service \<Rightarrow> claims \<Rightarrow> (world, uuid \<times> uuid) op" where
  "validate_access_session S c =
     (case (uuid_parse (ss_lib S) (cl_subject c), uuid_parse (ss_lib S) (cl_session c)) of
        (Some user, Some session) \<Rightarrow>
          bindE (attempt (db_read (get_auth_session session))) (\<lambda>r.
          bindE clock_now (\<lambda>t.
          case r of
            Inl e \<Rightarrow> fail SessionRevoked
          | Inr s \<Rightarrow>
              if ses_user_id s \<noteq> user \<or> ses_revoked_at s \<noteq> None \<or> ses_refresh_expires_at s \<le> t
                 \<or> ses_token_version s \<noteq> cl_version c
              then fail SessionRevoked else ok (user, session)))
      | _ \<Rightarrow> fail SessionRevoked)"

definition list_sessions :: "uuid \<Rightarrow> (world, session_row list) op" where
  "list_sessions user = bindE clock_now (\<lambda>t. db_read (list_auth_sessions user t))"

definition revoke_session :: "uuid \<Rightarrow> uuid \<Rightarrow> (world, bool) op" where
  "revoke_session user session =
     bindE clock_now (\<lambda>t.
     bindE (db_exec (revoke_auth_session session user t)) (\<lambda>n. ok (n = 1)))"

section \<open>What the queries change\<close>

text \<open>
  A database of sessions is well formed when ids and hashes are keys, every token belongs to a
  session and expires with it, and a session has at most one token that was not used yet.
\<close>

abbreviation fresh_for :: "uuid \<Rightarrow> refresh_row \<Rightarrow> bool" where
  "fresh_for i \<equiv> \<lambda>r. rt_session_id r = i \<and> rt_used_at r = None"

definition sessions_ok :: "database \<Rightarrow> bool" where
  "sessions_ok d \<longleftrightarrow>
     distinct (map ses_id (auth_sessions d)) \<and> distinct (map rt_hash (refresh_tokens d)) \<and>
     list_all (\<lambda>r. list_ex (\<lambda>s. ses_id s = rt_session_id r
        \<and> rt_expires_at r = ses_refresh_expires_at s) (auth_sessions d)) (refresh_tokens d) \<and>
     (\<forall>i. count_rows (fresh_for i) (refresh_tokens d) \<le> 1)"

lemma create_auth_sessionD:
  "create_auth_session i user family label e t d = Inr (s, d') \<Longrightarrow>
   ses_id s = i \<and> ses_user_id s = user \<and> ses_token_version s = 1 \<and> ses_revoked_at s = None
   \<and> ses_refresh_expires_at s = e \<and> (\<forall>r \<in> set (auth_sessions d). ses_id r \<noteq> i)
   \<and> d' = d\<lparr>auth_sessions := auth_sessions d @ [s]\<rparr>"
  by (auto simp: create_auth_session_def Let_def list_ex_iff split: if_splits)

lemma insert_refresh_tokenD:
  "insert_refresh_token h i e d = Inr (u, d') \<Longrightarrow>
   (\<forall>r \<in> set (refresh_tokens d). rt_hash r \<noteq> h) \<and> (\<exists>s \<in> set (auth_sessions d). ses_id s = i) \<and>
   d' = d\<lparr>refresh_tokens := refresh_tokens d @
     [\<lparr>rt_hash = h, rt_session_id = i, rt_expires_at = e, rt_used_at = None\<rparr>]\<rparr>"
  by (auto simp: insert_refresh_token_def list_ex_iff split: if_splits)

lemma lock_refresh_tokenD:
  "lock_refresh_token h d = Inr (r, s) \<Longrightarrow>
   find (\<lambda>r. rt_hash r = h) (refresh_tokens d) = Some r \<and> r \<in> set (refresh_tokens d) \<and> rt_hash r = h
   \<and> find (\<lambda>s. ses_id s = rt_session_id r) (auth_sessions d) = Some s
   \<and> s \<in> set (auth_sessions d) \<and> ses_id s = rt_session_id r"
  by (auto simp: lock_refresh_token_def split: option.splits dest: find_Some_iff_mem)

lemma revoke_familyD:
  "revoke_session_family f t d = Inr (u, d') \<Longrightarrow>
   d' = d\<lparr>auth_sessions := upd_rows (\<lambda>s. ses_family_id s = f)
        (\<lambda>s. s\<lparr>ses_revoked_at := coalesce (ses_revoked_at s) t,
               ses_reuse_detected_at := coalesce (ses_reuse_detected_at s) t,
               ses_token_version := ses_token_version s + 1\<rparr>) (auth_sessions d)\<rparr>"
  by (simp add: revoke_session_family_def split: if_splits)

lemma revoke_auth_sessionD:
  "revoke_auth_session i user t d = Inr (n, d') \<Longrightarrow>
   n = int (count_rows (\<lambda>s. ses_id s = i \<and> ses_user_id s = user) (auth_sessions d)) \<and>
   d' = d\<lparr>auth_sessions := upd_rows (\<lambda>s. ses_id s = i \<and> ses_user_id s = user)
     (\<lambda>s. s\<lparr>ses_revoked_at := coalesce (ses_revoked_at s) t,
            ses_token_version := ses_token_version s + 1\<rparr>) (auth_sessions d)\<rparr>"
  by (simp add: revoke_auth_session_def Let_def split: if_splits)

lemma coalesce_Some [simp]: "\<exists>y. coalesce a b = Some y"
  by (auto simp: coalesce_def split: option.split)

lemma coalesce_not_None [simp]: "coalesce a b \<noteq> None"
  by (cases a) (simp_all add: coalesce_def)

text \<open>Updates that touch neither the ids nor the lifetimes of sessions keep them well formed.\<close>

lemma sessions_ok_upd_sessions:
  assumes "sessions_ok d"
    and "\<And>s. ses_id (f s) = ses_id s" "\<And>s. ses_refresh_expires_at (f s) = ses_refresh_expires_at s"
  shows "sessions_ok (d\<lparr>auth_sessions := upd_rows P f (auth_sessions d)\<rparr>)"
proof -
  have "map ses_id (upd_rows P f (auth_sessions d)) = map ses_id (auth_sessions d)"
    by (rule map_upd_rows_same) (simp add: assms)
  moreover have "list_ex (\<lambda>s. ses_id s = i \<and> e = ses_refresh_expires_at s) (upd_rows P f xs)
      = list_ex (\<lambda>s. ses_id s = i \<and> e = ses_refresh_expires_at s) xs" for i e xs
    by (induction xs) (simp_all add: assms(2,3))
  ultimately show ?thesis
    using assms(1) by (simp add: sessions_ok_def)
qed

lemma sessions_ok_create:
  assumes "sessions_ok d" and "\<forall>r \<in> set (auth_sessions d). ses_id r \<noteq> ses_id s"
    and "\<forall>r \<in> set (refresh_tokens d). rt_hash r \<noteq> h"
  shows "sessions_ok (d\<lparr>auth_sessions := auth_sessions d @ [s], refresh_tokens := refresh_tokens d @
     [\<lparr>rt_hash = h, rt_session_id = ses_id s, rt_expires_at = ses_refresh_expires_at s, rt_used_at = None\<rparr>]\<rparr>)"
proof -
  have "count_rows (fresh_for (ses_id s)) (refresh_tokens d) = 0"
    using assms(1,2) by (fastforce simp: count_rows_0 sessions_ok_def list_all_iff list_ex_iff)
  then show ?thesis
    using assms by (auto simp: sessions_ok_def table_simps list_all_iff)
qed

lemma sessions_ok_rotate:
  assumes ok: "sessions_ok d" and r: "r \<in> set (refresh_tokens d)" "rt_used_at r = None"
    and s: "s \<in> set (auth_sessions d)" "ses_id s = rt_session_id r"
    and h: "\<forall>x \<in> set (refresh_tokens d). rt_hash x \<noteq> h"
  shows "sessions_ok (d\<lparr>refresh_tokens :=
     upd_rows (\<lambda>x. rt_hash x = rt_hash r \<and> rt_used_at x = None) (\<lambda>x. x\<lparr>rt_used_at := Some t\<rparr>) (refresh_tokens d)
     @ [\<lparr>rt_hash = h, rt_session_id = rt_session_id r, rt_expires_at = ses_refresh_expires_at s,
         rt_used_at = None\<rparr>]\<rparr>)"
proof -
  let ?P = "\<lambda>x. rt_hash x = rt_hash r \<and> rt_used_at x = None"
  let ?f = "\<lambda>x. x\<lparr>rt_used_at := Some t\<rparr>"
  let ?u = "upd_rows ?P ?f (refresh_tokens d)"
  have dist: "distinct (map rt_hash (refresh_tokens d))"
    using ok by (simp add: sessions_ok_def)
  have same: "map rt_hash ?u = map rt_hash (refresh_tokens d)"
    by (rule map_upd_rows_same) simp
  have le: "count_rows (fresh_for i) (upd_rows ?P ?f xs) \<le> count_rows (fresh_for i) xs" for i xs
    by (induction xs) (simp_all add: table_simps)
  have drop: "count_rows (fresh_for (rt_session_id r)) (upd_rows ?P ?f xs) <
      count_rows (fresh_for (rt_session_id r)) xs" if "r \<in> set xs" for xs
    using that
  proof (induction xs)
    case (Cons x xs)
    with le [of "rt_session_id r" xs] r(2) show ?case
      by (auto simp: table_simps)
  qed simp
  have one: "count_rows (fresh_for i) (refresh_tokens d) \<le> 1" for i
    using ok unfolding sessions_ok_def by blast
  have zero: "count_rows (fresh_for (rt_session_id r)) ?u = 0"
    using drop [OF r(1)] one [of "rt_session_id r"] by linarith
  have counts: "count_rows (fresh_for i) ?u \<le> 1" for i
    using le [of i "refresh_tokens d"] one [of i] by linarith
  have "list_all (\<lambda>x. list_ex (\<lambda>s. ses_id s = rt_session_id x \<and> rt_expires_at x = ses_refresh_expires_at s)
      (auth_sessions d)) ?u"
    using ok by (auto simp: sessions_ok_def list_all_iff set_upd_rows)
  moreover have "list_ex (\<lambda>y. ses_id y = rt_session_id r \<and> ses_refresh_expires_at s = ses_refresh_expires_at y)
      (auth_sessions d)"
    using s by (auto simp: list_ex_iff)
  moreover have "\<forall>x \<in> set ?u. rt_hash x \<noteq> h"
    using h same by (auto simp: set_upd_rows)
  ultimately show ?thesis
    using ok same dist zero counts h
    by (auto simp: sessions_ok_def table_simps)
qed

section \<open>Runs of the service\<close>

lemma mark_usedD:
  "mark_refresh_token_used h t d = Inr (n, d') \<Longrightarrow>
   d' = d\<lparr>refresh_tokens := upd_rows (\<lambda>r. rt_hash r = h \<and> rt_used_at r = None)
     (\<lambda>r. r\<lparr>rt_used_at := Some t\<rparr>) (refresh_tokens d)\<rparr>"
  by (auto simp: mark_refresh_token_used_def Let_def)

lemma touchD:
  "touch_auth_session i t d = Inr (u, d') \<Longrightarrow>
   d' = d\<lparr>auth_sessions := upd_rows (\<lambda>s. ses_id s = i) (\<lambda>s. s\<lparr>ses_last_seen_at := t\<rparr>) (auth_sessions d)\<rparr>"
  by (auto simp: touch_auth_session_def)

lemma all_hash_upd:
  "(\<forall>r \<in> set (upd_rows P (rt_used_at_update f) t). rt_hash r \<noteq> h) \<longleftrightarrow> (\<forall>r \<in> set t. rt_hash r \<noteq> h)"
  by (induction t) auto

text \<open>What a committed rotation did: nothing, a revoked family, or a used token and its successor.\<close>

definition rotated_db :: "refresh_row \<Rightarrow> session_row \<Rightarrow> string \<Rightarrow> time \<Rightarrow> database \<Rightarrow> database" where
  "rotated_db r s h t d = d\<lparr>
     refresh_tokens := upd_rows (\<lambda>x. rt_hash x = rt_hash r \<and> rt_used_at x = None)
        (\<lambda>x. x\<lparr>rt_used_at := Some t\<rparr>) (refresh_tokens d)
        @ [\<lparr>rt_hash = h, rt_session_id = rt_session_id r, rt_expires_at = ses_refresh_expires_at s,
            rt_used_at = None\<rparr>],
     auth_sessions := upd_rows (\<lambda>s. ses_id s = rt_session_id r) (\<lambda>s. s\<lparr>ses_last_seen_at := t\<rparr>)
        (auth_sessions d)\<rparr>"

lemma rotate_tx_okD:
  assumes "rotate_tx h h' t w = (Inr res, w')"
  obtains (none) e where "res = Inl e" "db w' = db w" "e = InvalidRefresh"
  | (reuse) r s where "res = Inl RefreshReuse" "lock_refresh_token h (db w) = Inr (r, s)"
      "rt_used_at r \<noteq> None" "revoke_session_family (ses_family_id s) t (db w) = Inr ((), db w')"
  | (rotated) r s where "res = Inr s" "lock_refresh_token h (db w) = Inr (r, s)" "rt_used_at r = None"
      "ses_revoked_at s = None" "t < ses_refresh_expires_at s" "t < rt_expires_at r"
      "\<forall>x \<in> set (refresh_tokens (db w)). rt_hash x \<noteq> h'" "db w' = rotated_db r s h' t (db w)"
proof -
  obtain found w1 where read: "db_read (lock_refresh_token h) w = (found, w1)"
    and run: "(case found of
       Inl e \<Rightarrow> if errors_is e NoRows then ok (Inl InvalidRefresh)
                else fail (Wrap ''lock refresh token'' e)
     | Inr row \<Rightarrow> rotate_locked h h' t row) w1 = (Inr res, w')"
    using assms unfolding rotate_tx_def by (elim op_elims) auto
  have same: "db w1 = db w" by (rule db_read_db [OF read])
  show thesis
  proof (cases found)
    case (Inl e)
    with run same show ?thesis by (auto split: if_splits intro: none)
  next
    case (Inr row)
    obtain r s where row: "row = (r, s)" by fastforce
    have lock: "lock_refresh_token h (db w) = Inr (r, s)"
      using read Inr row by (auto dest: db_read_okD)
    have hash: "rt_hash r = h" using lock_refresh_tokenD [OF lock] by simp
    show ?thesis
    proof (cases "rt_used_at r = None")
      case False
      with run Inr row same lock show ?thesis
        unfolding rotate_locked_def
        by (auto elim!: op_elims dest!: db_exec_okD intro: reuse)
    next
      case True
      show ?thesis
      proof (cases "ses_revoked_at s \<noteq> None \<or> rt_expires_at r \<le> t \<or> ses_refresh_expires_at s \<le> t")
        case True
        with run Inr row same \<open>rt_used_at r = None\<close> show ?thesis
          unfolding rotate_locked_def by (auto intro: none)
      next
        case False
        with run Inr row same True hash have "res = Inr s"
          and "db w' = rotated_db r s h' t (db w) \<and> (\<forall>x \<in> set (refresh_tokens (db w)). rt_hash x \<noteq> h')"
          unfolding rotate_locked_def rotated_db_def
          by (auto elim!: op_elims split: if_splits
              dest!: db_exec_okD mark_usedD insert_refresh_tokenD touchD simp: all_hash_upd) blast
        with False True lock show ?thesis by (intro rotated) auto
      qed
    qed
  qed
qed

datatype session_call =
    CreateSession uuid string
  | RotateSession string
  | RevokeSession uuid uuid
  | Outside time "fault option list" "uuid list" "string list"

fun session_step :: "session_service \<Rightarrow> session_call \<Rightarrow> world \<Rightarrow> world" where
  "session_step S (CreateSession u l) w = snd (create_session S u l w)"
| "session_step S (RotateSession raw) w = snd (rotate_session S raw w)"
| "session_step S (RevokeSession u i) w = snd (revoke_session u i w)"
| "session_step S (Outside t fs is ts) w =
     w\<lparr>now := t, faults := fs, new_ids := is, rand_tokens := ts\<rparr>"

abbreviation session_run :: "session_service \<Rightarrow> session_call list \<Rightarrow> world \<Rightarrow> world" where
  "session_run S cs w \<equiv> fold (session_step S) cs w"

text \<open>
  What a session call can do to the database: the changes of \<open>Create\<close>, of \<open>Rotate\<close> and of
  \<open>Revoke\<close>, or nothing.
\<close>

inductive session_change :: "database \<Rightarrow> database \<Rightarrow> bool" where
  same: "session_change d d"
| create: "create_auth_session i u f l e t d = Inr (s, d1) \<Longrightarrow>
    insert_refresh_token h i e d1 = Inr ((), d') \<Longrightarrow> session_change d d'"
| rotate: "lock_refresh_token h d = Inr (r, s) \<Longrightarrow> rt_used_at r = None \<Longrightarrow> ses_revoked_at s = None \<Longrightarrow>
    \<forall>x \<in> set (refresh_tokens d). rt_hash x \<noteq> h' \<Longrightarrow> session_change d (rotated_db r s h' t d)"
| reuse: "revoke_session_family f t d = Inr ((), d') \<Longrightarrow> session_change d d'"
| revoke: "revoke_auth_session i u t d = Inr (n, d') \<Longrightarrow> session_change d d'"

lemma unchanged: "d' = d \<Longrightarrow> session_change d d'"
  by (simp add: session_change.same)

lemma create_session_change: "session_change (db w) (db (snd (create_session S u l w)))"
proof -
  let ?body = "\<lambda>i f tok t. bindE (wrap_err ''create auth session'' (db_exec
      (create_auth_session i u f (nullable_string l) (t + ss_refresh_ttl S) t))) (\<lambda>created.
    bindE (wrap_err ''insert refresh token'' (db_exec
      (insert_refresh_token (ss_sha256 S tok) i (t + ss_refresh_ttl S)))) (\<lambda>_. ok created))"
  have tx: "session_change (db w) (db w')" if "within_transaction (?body i f tok t) w = (r, w')"
    for i f tok t w w' r
  proof (cases r)
    case (Inl e)
    with that show ?thesis by (auto dest: within_transaction_error_db intro: unchanged)
  next
    case (Inr x)
    with that obtain w1 w2 where "db w1 = db w" "?body i f tok t w1 = (Inr x, w2)" "db w' = db w2"
      by (auto elim: within_transaction_okD)
    then show ?thesis
      by (auto elim!: op_elims dest!: db_exec_okD intro: session_change.create)
  qed
  show ?thesis
    unfolding create_session_def
    by (auto simp: bindE_def Let_def split: prod.splits sum.splits
        dest!: tx ids_new_db secure_token_db intro: unchanged)
qed

lemma rotate_session_change: "session_change (db w) (db (snd (rotate_session S raw w)))"
proof -
  have tx: "session_change (db w) (db w')" if "within_transaction (rotate_tx h h' t) w = (r, w')"
    for h h' t w w' r
  proof (cases r)
    case (Inl e)
    with that show ?thesis by (auto dest: within_transaction_error_db intro: unchanged)
  next
    case (Inr x)
    with that obtain w1 w2 where "db w1 = db w" "rotate_tx h h' t w1 = (Inr x, w2)" "db w' = db w2"
      by (auto elim: within_transaction_okD)
    then show ?thesis
      by (auto elim!: rotate_tx_okD intro: session_change.intros unchanged)
  qed
  show ?thesis
    unfolding rotate_session_def
    by (auto simp: bindE_def split: prod.splits sum.splits
        dest!: tx secure_token_db intro: unchanged)
qed

lemma revoke_session_change: "session_change (db w) (db (snd (revoke_session u i w)))"
  unfolding revoke_session_def
  by (auto simp: bindE_def split: prod.splits sum.splits dest!: db_exec_errD db_exec_okD
      intro: session_change.intros unchanged)

lemma step_change: "session_change (db w) (db (session_step S c w))"
  by (cases c) (simp_all add: create_session_change rotate_session_change revoke_session_change
      session_change.same)

text \<open>A predicate every change keeps holds at the end of every run.\<close>

lemma session_run_induct:
  assumes "\<And>d d'. P d \<Longrightarrow> session_change d d' \<Longrightarrow> P d'" and "P (db w)"
  shows "P (db (session_run S cs w))"
  using assms(2)
proof (induction cs arbitrary: w)
  case (Cons c cs)
  show ?case
    using Cons.IH [OF assms(1) [OF Cons.prems step_change]] by simp
qed simp

lemma sessions_ok_change:
  assumes "session_change d d'" and "sessions_ok d"
  shows "sessions_ok d'"
  using assms
proof cases
  case (create i u f l e t s d1 h)
  then show ?thesis
    using sessions_ok_create [OF assms(2), of s h]
    by (auto dest!: create_auth_sessionD insert_refresh_tokenD)
next
  case (rotate h r s h' t)
  then show ?thesis
    using sessions_ok_upd_sessions [OF sessions_ok_rotate [OF assms(2), of r s h' t],
        of "\<lambda>s. s\<lparr>ses_last_seen_at := t\<rparr>" "\<lambda>s. ses_id s = rt_session_id r"]
    by (auto simp: rotated_db_def dest!: lock_refresh_tokenD)
qed (auto dest!: revoke_familyD revoke_auth_sessionD intro!: sessions_ok_upd_sessions)

section \<open>Properties\<close>

subsection \<open>Reuse of a refresh token\<close>

lemma rotate_session_okD:
  assumes "rotate_session S raw w = (Inr c, w')"
  obtains r s h' t where "raw \<noteq> []" "lock_refresh_token (ss_sha256 S raw) (db w) = Inr (r, s)"
    "rt_used_at r = None" "crd_session c = ses_id s" "db w' = rotated_db r s h' t (db w)"
  using assms unfolding rotate_session_def
  by (auto split: if_splits sum.splits elim!: op_elims within_transaction_okD rotate_tx_okD
      dest!: secure_token_db intro!: that)

lemma find_session_touched:
  "find (\<lambda>s. ses_id s = i) (upd_rows P (\<lambda>s. s\<lparr>ses_last_seen_at := t\<rparr>) ss) =
   map_option (\<lambda>s. if P s then s\<lparr>ses_last_seen_at := t\<rparr> else s) (find (\<lambda>s. ses_id s = i) ss)"
  by (rule find_upd_rows) simp

lemma lock_rotated:
  assumes "lock_refresh_token h d = Inr (r, s)" and "rt_used_at r = None"
  obtains r' s' where "lock_refresh_token h (rotated_db r s h' t d) = Inr (r', s')"
    "rt_used_at r' \<noteq> None" "ses_family_id s' = ses_family_id s"
proof -
  have "find (\<lambda>x. rt_hash x = h) (upd_rows (\<lambda>x. rt_hash x = rt_hash r \<and> rt_used_at x = None)
      (\<lambda>x. x\<lparr>rt_used_at := Some t\<rparr>) (refresh_tokens d)) = Some (r\<lparr>rt_used_at := Some t\<rparr>)"
    using lock_refresh_tokenD [OF assms(1)] assms(2) by (subst find_upd_rows) auto
  then show thesis
    using lock_refresh_tokenD [OF assms(1)]
    by (intro that [of "r\<lparr>rt_used_at := Some t\<rparr>" "if ses_id s = ses_id s then s\<lparr>ses_last_seen_at := t\<rparr> else s"])
      (auto simp: lock_refresh_token_def rotated_db_def find_append find_session_touched
        split: option.split)
qed

lemma rotate_reused:
  assumes "lock_refresh_token (ss_sha256 S raw) (db w) = Inr (r, s)" and "rt_used_at r \<noteq> None"
    and "raw \<noteq> []" and "faults w = []" and "rand_tokens w \<noteq> []"
    and "\<forall>x \<in> set (auth_sessions (db w)). ses_token_version x + 1 < 2 ^ 31"
  shows "fst (rotate_session S raw w) = Inl RefreshReuse \<and>
    (\<forall>x \<in> set (auth_sessions (db (snd (rotate_session S raw w)))).
       ses_family_id x = ses_family_id s \<longrightarrow> ses_revoked_at x \<noteq> None)"
proof -
  obtain tok ts where tok: "rand_tokens w = tok # ts" using assms(5) by (cases "rand_tokens w") auto
  define w1 where "w1 = w\<lparr>rand_tokens := ts\<rparr>"
  obtain d where d: "revoke_session_family (ses_family_id s) (now w) (db w) = Inr ((), d)"
    using assms(6) by (fastforce simp: revoke_session_family_def list_ex_iff)
  have "rotate_tx (ss_sha256 S raw) (ss_sha256 S tok) (now w) w1 = (Inr (Inl RefreshReuse), w1\<lparr>db := d\<rparr>)"
    using assms d by (simp add: rotate_tx_def rotate_locked_def w1_def db_read_run db_exec_run
        attempt_def wrap_err_def bindE_def)
  then have "within_transaction (rotate_tx (ss_sha256 S raw) (ss_sha256 S tok) (now w)) w1
      = (Inr (Inl RefreshReuse), w1\<lparr>db := d\<rparr>)"
    using assms(4) by (intro within_transaction_run) (simp_all add: w1_def)
  then have "rotate_session S raw w = (Inl RefreshReuse, w1\<lparr>db := d\<rparr>)"
    using assms(3,4) tok by (simp add: rotate_session_def secure_token_run w1_def bindE_def clock_now_def)
  then show ?thesis
    using revoke_familyD [OF d] by (auto simp: set_upd_rows)
qed

subsection \<open>Revoked sessions\<close>

definition revoked :: "uuid \<Rightarrow> database \<Rightarrow> bool" where
  "revoked i d \<longleftrightarrow> list_ex (\<lambda>s. ses_id s = i) (auth_sessions d)
     \<and> list_all (\<lambda>s. ses_id s = i \<longrightarrow> ses_revoked_at s \<noteq> None) (auth_sessions d)"

lemma revoked_upd_sessions:
  assumes "revoked i d" and "\<And>s. ses_id (f s) = ses_id s"
    and "\<And>s. ses_revoked_at s \<noteq> None \<Longrightarrow> ses_revoked_at (f s) \<noteq> None"
  shows "revoked i (d\<lparr>auth_sessions := upd_rows P f (auth_sessions d)\<rparr>)"
proof -
  have "list_ex (\<lambda>s. ses_id s = i) (upd_rows P f xs) = list_ex (\<lambda>s. ses_id s = i) xs" for xs
    by (induction xs) (simp_all add: assms(2))
  moreover have "list_all (\<lambda>s. ses_id s = i \<longrightarrow> ses_revoked_at s \<noteq> None) xs \<Longrightarrow>
      list_all (\<lambda>s. ses_id s = i \<longrightarrow> ses_revoked_at s \<noteq> None) (upd_rows P f xs)" for xs
  proof (induction xs)
    case (Cons x xs)
    then show ?case using assms(2,3) [of x] by (simp del: not_None_eq)
  qed simp
  ultimately show ?thesis
    using assms(1) by (simp add: revoked_def)
qed

lemma revoked_tokens: "revoked i d \<Longrightarrow> revoked i (d\<lparr>refresh_tokens := ts\<rparr>)"
  by (simp add: revoked_def)

lemma revoked_change: "revoked i d \<Longrightarrow> session_change d d' \<Longrightarrow> revoked i d'"
proof (erule session_change.cases)
  fix h r s h' t d1
  assume "revoked i d" "d = d1" "d' = rotated_db r s h' t d1"
  then show ?thesis
    using revoked_upd_sessions [OF revoked_tokens, of i d "\<lambda>s. s\<lparr>ses_last_seen_at := t\<rparr>"
        "\<lambda>s. ses_id s = rt_session_id r"]
    by (auto simp: rotated_db_def)
next
  fix i' u f l e t d1 s d2 h d3
  assume "revoked i d" "d = d1" "d' = d3" "create_auth_session i' u f l e t d1 = Inr (s, d2)"
    "insert_refresh_token h i' e d2 = Inr ((), d3)"
  then show ?thesis
    by (auto simp: revoked_def list_ex_iff list_all_iff
        dest!: create_auth_sessionD insert_refresh_tokenD) blast
qed (auto dest!: revoke_familyD revoke_auth_sessionD intro!: revoked_upd_sessions)

lemma validate_revoked:
  assumes "revoked i (db w)" and "uuid_parse (ss_lib S) (cl_session c) = Some i"
  shows "fst (validate_access_session S c w) = Inl SessionRevoked"
proof (cases "db_read (get_auth_session i) w")
  case (Pair r w')
  have "r = Inr s \<Longrightarrow> ses_revoked_at s \<noteq> None" for s
    using db_read_okD [of "get_auth_session i" w s w'] Pair assms(1)
    by (auto simp: get_auth_session_def revoked_def list_all_iff split: option.splits
        dest!: find_Some_iff_mem)
  then show ?thesis
    using Pair assms(2)
    by (auto simp: validate_access_session_def attempt_def bindE_def clock_now_def
        split: option.splits sum.splits)
qed

subsection \<open>A spent token stays spent\<close>

definition spent :: "string \<Rightarrow> uuid \<Rightarrow> database \<Rightarrow> bool" where
  "spent h f d = (case lock_refresh_token h d of
     Inl e \<Rightarrow> False | Inr (r, s) \<Rightarrow> rt_used_at r \<noteq> None \<and> ses_family_id s = f)"

lemma spent_iff:
  "spent h f d \<longleftrightarrow> (\<exists>r s. find (\<lambda>x. rt_hash x = h) (refresh_tokens d) = Some r \<and>
     find (\<lambda>x. ses_id x = rt_session_id r) (auth_sessions d) = Some s \<and>
     rt_used_at r \<noteq> None \<and> ses_family_id s = f)"
  by (auto simp: spent_def lock_refresh_token_def split: option.splits)

lemma spentI:
  "find (\<lambda>x. rt_hash x = h) (refresh_tokens d) = Some r \<Longrightarrow>
   find (\<lambda>x. ses_id x = rt_session_id r) (auth_sessions d) = Some s \<Longrightarrow>
   rt_used_at r \<noteq> None \<Longrightarrow> ses_family_id s = f \<Longrightarrow> spent h f d"
  unfolding spent_iff by blast

lemma spentE:
  assumes "spent h f d"
  obtains r s where "find (\<lambda>x. rt_hash x = h) (refresh_tokens d) = Some r"
    "find (\<lambda>x. ses_id x = rt_session_id r) (auth_sessions d) = Some s"
    "rt_used_at r \<noteq> None" "ses_family_id s = f"
  using assms unfolding spent_iff by blast

lemma spent_append: "spent h f d \<Longrightarrow>
    spent h f (d\<lparr>auth_sessions := auth_sessions d @ ss, refresh_tokens := refresh_tokens d @ ts\<rparr>)"
  by (auto simp: spent_iff find_append)

lemma spent_append_tokens: "spent h f d \<Longrightarrow> spent h f (d\<lparr>refresh_tokens := refresh_tokens d @ ts\<rparr>)"
  by (auto simp: spent_iff find_append)

lemma spent_use:
  assumes "spent h f d"
  shows "spent h f (d\<lparr>refresh_tokens := upd_rows P (\<lambda>x. x\<lparr>rt_used_at := Some t\<rparr>) (refresh_tokens d)\<rparr>)"
proof -
  have "find (\<lambda>x. rt_hash x = h) (upd_rows P (\<lambda>x. x\<lparr>rt_used_at := Some t\<rparr>) (refresh_tokens d)) =
      map_option (\<lambda>x. if P x then x\<lparr>rt_used_at := Some t\<rparr> else x)
        (find (\<lambda>x. rt_hash x = h) (refresh_tokens d))"
    by (rule find_upd_rows) simp
  moreover obtain r s where "find (\<lambda>x. rt_hash x = h) (refresh_tokens d) = Some r"
    "find (\<lambda>x. ses_id x = rt_session_id r) (auth_sessions d) = Some s"
    "rt_used_at r \<noteq> None" "ses_family_id s = f"
    using assms by (rule spentE)
  ultimately show ?thesis
    by (intro spentI [of _ _ "if P r then r\<lparr>rt_used_at := Some t\<rparr> else r" s]) auto
qed

lemma spent_upd_sessions:
  assumes "spent h f d" and "\<And>s. ses_id (g s) = ses_id s" "\<And>s. ses_family_id (g s) = ses_family_id s"
  shows "spent h f (d\<lparr>auth_sessions := upd_rows P g (auth_sessions d)\<rparr>)"
proof -
  have "find (\<lambda>x. ses_id x = i) (upd_rows P g (auth_sessions d)) =
      map_option (\<lambda>x. if P x then g x else x) (find (\<lambda>x. ses_id x = i) (auth_sessions d))" for i
    by (rule find_upd_rows) (simp add: assms(2))
  moreover obtain r s where "find (\<lambda>x. rt_hash x = h) (refresh_tokens d) = Some r"
    "find (\<lambda>x. ses_id x = rt_session_id r) (auth_sessions d) = Some s"
    "rt_used_at r \<noteq> None" "ses_family_id s = f"
    using assms(1) by (rule spentE)
  ultimately show ?thesis
    by (intro spentI [of _ _ r "if P s then g s else s"]) (auto simp: assms(3))
qed

lemma spent_rotated_other: "spent h f d \<Longrightarrow> spent h f (rotated_db r s h' t d)"
  using spent_upd_sessions [OF spent_append_tokens [OF spent_use], of h f d "\<lambda>s. s\<lparr>ses_last_seen_at := t\<rparr>"]
  by (simp add: rotated_db_def)

lemma spent_change: "spent h f d \<Longrightarrow> session_change d d' \<Longrightarrow> spent h f d'"
proof (erule session_change.cases)
  fix i u f' l e t d1 s d2 h' d3
  assume "spent h f d" "d = d1" "d' = d3" "create_auth_session i u f' l e t d1 = Inr (s, d2)"
    "insert_refresh_token h' i e d2 = Inr ((), d3)"
  then show ?thesis
    using spent_append [of h f d _ "[s]"] by (auto dest!: create_auth_sessionD insert_refresh_tokenD)
qed (auto dest!: revoke_familyD revoke_auth_sessionD intro!: spent_upd_sessions spent_rotated_other)

lemma spent_after_rotate:
  assumes "rotate_session S raw w = (Inr c, w1)"
  obtains f where "spent (ss_sha256 S raw) f (db w1)" "raw \<noteq> []"
    "\<exists>s \<in> set (auth_sessions (db w)). ses_id s = crd_session c \<and> ses_family_id s = f"
proof -
  obtain r s h' t where r: "raw \<noteq> []" "lock_refresh_token (ss_sha256 S raw) (db w) = Inr (r, s)"
      "rt_used_at r = None" "crd_session c = ses_id s" "db w1 = rotated_db r s h' t (db w)"
    by (rule rotate_session_okD [OF assms])
  obtain r' s' where "lock_refresh_token (ss_sha256 S raw) (rotated_db r s h' t (db w)) = Inr (r', s')"
    "rt_used_at r' \<noteq> None" "ses_family_id s' = ses_family_id s"
    by (rule lock_rotated [OF r(2,3)])
  with r show ?thesis
    by (intro that [of "ses_family_id s"]) (auto simp: spent_def dest: lock_refresh_tokenD)
qed

subsection \<open>An example\<close>

definition example_ring :: key_ring where
  "example_ring = \<lparr>kr_active = ''k1'', kr_private = ''priv'', kr_public = [''k1'' \<mapsto> ''pub''],
     kr_issuer = ''glazz'', kr_audience = ''web'', kr_lifetime = 900 * second\<rparr>"

definition example_claims :: claims where
  "example_claims = \<lparr>cl_session = uuid_string 3, cl_version = 1, cl_issuer = ''glazz'',
     cl_subject = uuid_string 1, cl_audience = [''web''], cl_expires = Some (1900 * second),
     cl_not_before = Some (1000 * second), cl_issued = Some (1000 * second), cl_id = ''jti''\<rparr>"

text \<open>A library that signs one set of claims.\<close>

definition example_lib :: jwt_library where
  "example_lib = \<lparr>jwt_new_id = (\<lambda>_. ''jti''),
     jwt_sign = (\<lambda>k c p. if k = ''k1'' \<and> c = example_claims \<and> p = ''priv'' then Inr ''jwt''
                        else Inl (Msg ''sign'')),
     jwt_parse = (\<lambda>kf iss aud t raw.
        if raw = ''jwt'' \<and> kf (Some ''k1'') = Inr ''pub'' \<and> iss = ''glazz'' \<and> aud = ''web''
           \<and> 1000 * second \<le> t \<and> t < 1900 * second then Inr example_claims else Inl (Msg ''parse'')),
     uuid_parse = (\<lambda>s. if s = uuid_string 1 then Some 1 else if s = uuid_string 3 then Some 3 else None)\<rparr>"

definition example_sessions :: session_service where
  "example_sessions = \<lparr>ss_lib = example_lib, ss_ring = example_ring, ss_refresh_ttl = 5000 * second,
     ss_sha256 = (\<lambda>s. take 32 (s @ replicate 32 CHR ''.''))\<rparr>"

definition example_user :: user_row where
  "example_user = \<lparr>usr_id = 1, usr_email = ''a@b'', usr_display_name = ''A'', usr_avatar_url = None,
     usr_locale = ''en'', usr_role = RoleUser, usr_status = Active, usr_token_version = 1,
     usr_created_at = 0, usr_updated_at = 0, usr_version = 1\<rparr>"

definition session_world :: world where
  "session_world = world_of (empty_db\<lparr>users := [example_user]\<rparr>) (1000 * second) [3, 4] [''ra'', ''rb'', ''rc'']"


definition created_world :: world where
  "created_world = snd (create_session example_sessions 1 ''phone'' session_world)"

lemma example_rotate:
  "fst (rotate_session example_sessions ''ra'' created_world) =
     Inr \<lparr>crd_access = ''jwt'', crd_refresh = ''rb'', crd_session = 3, crd_user = 1\<rparr>"
  by (simp add: created_world_def create_session_def rotate_session_def rotate_tx_def rotate_locked_def
      session_world_def world_eval empty_db_def example_user_def
      create_auth_session_def insert_refresh_token_def lock_refresh_token_def
      mark_refresh_token_used_def touch_auth_session_def count_rows_def Let_def example_sessions_def
      sign_token_def token_claims_def numeric_date_def example_ring_def example_lib_def example_claims_def of_sum_def)

subsection \<open>What is proved of the sessions\<close>






lemma uuid_string_not_Nil [simp]: "uuid_string u \<noteq> []"
  by (simp add: uuid_string_def)



lemma revoked_by_user:
  assumes "revoke_auth_session i u t d = Inr (1, d')" and "sessions_ok d"
  shows "revoked i d'"
proof -
  let ?hit = "\<lambda>s. ses_id s = i \<and> ses_user_id s = u"
  let ?f = "\<lambda>s. s\<lparr>ses_revoked_at := coalesce (ses_revoked_at s) t, ses_token_version := ses_token_version s + 1\<rparr>"
  have d': "auth_sessions d' = upd_rows ?hit ?f (auth_sessions d)"
    and "count_rows ?hit (auth_sessions d) = 1"
    using revoke_auth_sessionD [OF assms(1)] by auto
  then have "count_rows ?hit (auth_sessions d) \<noteq> 0" by simp
  then obtain s where s: "s \<in> set (auth_sessions d)" "ses_id s = i" "ses_user_id s = u"
    unfolding count_rows_0 by blast
  have uniq: "x = s" if "x \<in> set (auth_sessions d)" "ses_id x = i" for x
    using assms(2) s that by (auto simp: sessions_ok_def distinct_map dest: inj_onD)
  have "list_ex (\<lambda>x. ses_id x = i) (auth_sessions d')"
    unfolding d' list_ex_iff set_upd_rows using s by (intro bexI [of _ "?f s"] image_eqI [of _ _ s]) auto
  moreover have "ses_revoked_at y \<noteq> None" if y: "y \<in> set (auth_sessions d')" "ses_id y = i" for y
  proof -
    obtain x where x: "x \<in> set (auth_sessions d)" "y = (if ?hit x then ?f x else x)"
      using y(1) unfolding d' set_upd_rows by blast
    with y(2) have "x = s" by (intro uniq) (auto split: if_splits)
    with x(2) s show ?thesis by simp
  qed
  ultimately show ?thesis by (simp add: revoked_def list_all_iff)
qed

lemma example_rotated_world:
  "faults (snd (rotate_session example_sessions ''ra'' created_world)) = []"
  "rand_tokens (snd (rotate_session example_sessions ''ra'' created_world)) = [''rc'']"
  "\<forall>x \<in> set (auth_sessions (db (snd (rotate_session example_sessions ''ra'' created_world)))).
     ses_token_version x < 2147483647"
  by (simp_all add: created_world_def create_session_def rotate_session_def rotate_tx_def rotate_locked_def
      session_world_def world_eval empty_db_def example_user_def
      create_auth_session_def insert_refresh_token_def lock_refresh_token_def
      mark_refresh_token_used_def touch_auth_session_def count_rows_def Let_def example_sessions_def
      sign_token_def token_claims_def numeric_date_def example_ring_def example_lib_def example_claims_def of_sum_def)

lemma example_created:
  "faults created_world = []" "sessions_ok (db created_world)"
  "fst (revoke_session 1 3 created_world) = Inr True"
  by (simp_all add: created_world_def create_session_def sessions_ok_def
      session_world_def world_eval empty_db_def example_user_def revoke_session_def revoke_auth_session_def
      create_auth_session_def insert_refresh_token_def count_rows_def Let_def example_sessions_def
      sign_token_def token_claims_def numeric_date_def example_ring_def example_lib_def example_claims_def of_sum_def)

text \<open>C5: sessions stay well formed in every run of the service, whatever fails: ids and token
  hashes are keys, every refresh token belongs to a session and expires with it, and no session
  ever has two refresh tokens that were not used yet.\<close>
theorem sessions_invariant:
  assumes "sessions_ok (db w)"
  shows "sessions_ok (db (session_run S cs w))"
  using session_run_induct [of sessions_ok] sessions_ok_change assms by blast

theorem sessions_invariant_witness:
  "sessions_ok (db (session_run example_sessions
     [CreateSession 1 ''phone'', RotateSession ''ra'', RevokeSession 1 3] session_world))"
  by (rule sessions_invariant)
    (simp add: sessions_ok_def session_world_def world_of_def empty_db_def count_rows_def)

text \<open>C6: a refresh token works once: after a rotation that returned credentials, and whatever the
  service did since, the same token gets the reuse error and every session of its family is
  revoked, when no call fails at random.\<close>
theorem refresh_single_use:
  assumes "rotate_session S raw w = (Inr c, w1)" and "w2 = session_run S cs w1"
    and "faults w2 = []" and "rand_tokens w2 \<noteq> []"
    and "\<forall>x \<in> set (auth_sessions (db w2)). ses_token_version x + 1 < 2 ^ 31"
  shows "fst (rotate_session S raw w2) = Inl RefreshReuse \<and>
    (\<exists>s \<in> set (auth_sessions (db w)). ses_id s = crd_session c \<and>
      (\<forall>x \<in> set (auth_sessions (db (snd (rotate_session S raw w2)))).
         ses_family_id x = ses_family_id s \<longrightarrow> ses_revoked_at x \<noteq> None))"
proof -
  obtain f where "spent (ss_sha256 S raw) f (db w1)" and raw: "raw \<noteq> []"
    and s: "\<exists>s \<in> set (auth_sessions (db w)). ses_id s = crd_session c \<and> ses_family_id s = f"
    by (rule spent_after_rotate [OF assms(1)])
  then have "spent (ss_sha256 S raw) f (db w2)"
    using session_run_induct [of "spent (ss_sha256 S raw) f"] spent_change assms(2) by blast
  then obtain r s where lock: "lock_refresh_token (ss_sha256 S raw) (db w2) = Inr (r, s)"
    and f: "rt_used_at r \<noteq> None" "ses_family_id s = f"
    by (auto simp: spent_def split: sum.splits)
  show ?thesis
    using rotate_reused [OF lock f(1) raw assms(3,4,5)] s unfolding f(2) by (elim conjE bexE) auto
qed

theorem refresh_single_use_witness:
  "fst (rotate_session example_sessions ''ra'' (snd (rotate_session example_sessions ''ra'' created_world)))
     = Inl RefreshReuse"
proof -
  have run: "rotate_session example_sessions ''ra'' created_world =
      (Inr \<lparr>crd_access = ''jwt'', crd_refresh = ''rb'', crd_session = 3, crd_user = 1\<rparr>,
       snd (rotate_session example_sessions ''ra'' created_world))"
    using example_rotate by (simp add: prod_eq_iff)
  show ?thesis
    using refresh_single_use [OF run, of _ "[]"] example_rotated_world by simp
qed

text \<open>C22: once a session was revoked, no access token for it is accepted again, in any run.\<close>
theorem revoked_forever:
  assumes "revoke_session u i w = (Inr True, w1)" and "sessions_ok (db w)"
    and "uuid_parse (ss_lib S) (cl_session c) = Some i"
  shows "fst (validate_access_session S c (session_run S cs w1)) = Inl SessionRevoked"
proof -
  have "revoked i (db w1)"
    using assms(1) revoked_by_user [OF _ assms(2)] unfolding revoke_session_def
    by (auto elim!: op_elims dest!: db_exec_okD)
  then have "revoked i (db (session_run S cs w1))"
    using session_run_induct [of "revoked i"] revoked_change by blast
  then show ?thesis
    using assms(3) by (rule validate_revoked)
qed




theorem revoked_forever_witness:
  "fst (validate_access_session example_sessions example_claims
     (session_run example_sessions [RotateSession ''ra''] (snd (revoke_session 1 3 created_world))))
   = Inl SessionRevoked"
proof -
  have "sessions_ok (db created_world)"
    using example_created by simp
  moreover have "revoke_session 1 3 created_world = (Inr True, snd (revoke_session 1 3 created_world))"
    using example_created by (simp add: prod_eq_iff)
  moreover have "uuid_parse (ss_lib example_sessions) (cl_session example_claims) = Some 3"
    using uuid_string_inj [of 1 3] by (auto simp: example_sessions_def example_lib_def example_claims_def)
  ultimately show ?thesis
    by (intro revoked_forever)
qed

end
