(* ===== verification/Users.thy ===== *)
theory Users
  imports Guests Sessions
begin

text \<open>
  \<open>internal/identity/users/service.go\<close> and its queries in \<open>store/identity.sql.go\<close>: an account is
  found by its Google identity or created with its consent, its bootstrap role and an audit entry,
  and the guest it came from is migrated, in one serializable transaction that is retried on
  serialization failures. Case folding (\<open>strings.ToLower\<close> and SQL \<open>lower\<close>, tables of Unicode) is
  the parameter \<open>us_lower\<close>.
\<close>

section \<open>Queries\<close>

definition find_user_by_google_subject :: "string \<Rightarrow> database \<Rightarrow> error + user_row" where
  "find_user_by_google_subject subject d =
     (case find (\<lambda>i. idn_subject i = subject) (identities d) of
        None \<Rightarrow> Inl NoRows
      | Some i \<Rightarrow> (case find (\<lambda>u. usr_id u = idn_user_id i) (users d) of
                    None \<Rightarrow> Inl NoRows | Some u \<Rightarrow> Inr u))"

definition find_user_by_email :: "(string \<Rightarrow> string) \<Rightarrow> string \<Rightarrow> database \<Rightarrow> error + user_row" where
  "find_user_by_email lower email d =
     (case find (\<lambda>u. lower (usr_email u) = lower email) (users d) of None \<Rightarrow> Inl NoRows | Some u \<Rightarrow> Inr u)"

definition find_user_by_id :: "uuid \<Rightarrow> database \<Rightarrow> error + user_row" where
  "find_user_by_id i d = (case find (\<lambda>u. usr_id u = i) (users d) of None \<Rightarrow> Inl NoRows | Some u \<Rightarrow> Inr u)"

definition create_user ::
  "(string \<Rightarrow> string) \<Rightarrow> uuid \<Rightarrow> string \<Rightarrow> string \<Rightarrow> string option \<Rightarrow> string \<Rightarrow> role \<Rightarrow> time \<Rightarrow>
   database \<Rightarrow> error + user_row \<times> database" where
  "create_user lower i email name avatar locale r t d =
     (let u = \<lparr>usr_id = i, usr_email = email, usr_display_name = name, usr_avatar_url = avatar,
               usr_locale = locale, usr_role = r, usr_status = Active, usr_token_version = 1,
               usr_created_at = t, usr_updated_at = t, usr_version = 1\<rparr>
      in if rune_count name < 1 \<or> 120 < rune_count name
         then Inl (check_violation ''users_display_name_check'')
         else if locale \<notin> {''en'', ''es''} then Inl (check_violation ''users_locale_check'')
         else if list_ex (\<lambda>v. usr_id v = i) (users d) then Inl (unique_violation ''users_pkey'')
         else if list_ex (\<lambda>v. lower (usr_email v) = lower email) (users d)
         then Inl (unique_violation ''users_email_normalized_key'')
         else Inr (u, d\<lparr>users := users d @ [u]\<rparr>))"

definition create_google_identity ::
  "uuid \<Rightarrow> uuid \<Rightarrow> string \<Rightarrow> string \<Rightarrow> database \<Rightarrow> error + unit \<times> database" where
  "create_google_identity i user subject email d =
     (if list_ex (\<lambda>r. idn_id r = i) (identities d) then Inl (unique_violation ''user_identities_pkey'')
      else if list_ex (\<lambda>r. idn_subject r = subject) (identities d)
      then Inl (unique_violation ''user_identities_provider_provider_subject_key'')
      else if list_ex (\<lambda>r. idn_user_id r = user) (identities d)
      then Inl (unique_violation ''user_identities_user_id_provider_key'')
      else if \<not> list_ex (\<lambda>u. usr_id u = user) (users d)
      then Inl (foreign_key_violation ''user_identities_user_id_fkey'')
      else Inr ((), d\<lparr>identities := identities d @
             [\<lparr>idn_id = i, idn_user_id = user, idn_subject = subject, idn_verified_email = email\<rparr>]\<rparr>))"

definition record_terms_acceptance ::
  "uuid \<Rightarrow> string \<Rightarrow> string \<Rightarrow> string option \<Rightarrow> database \<Rightarrow> error + unit \<times> database" where
  "record_terms_acceptance user tv pv ip d =
     (if ip \<noteq> None \<and> length (the ip) \<noteq> 32 then Inl (check_violation ''terms_acceptances_ip_hash_check'')
      else if list_ex (\<lambda>r. ta_user_id r = user \<and> ta_terms_version r = tv \<and> ta_privacy_version r = pv)
                (terms d)
      then Inr ((), d)
      else if \<not> list_ex (\<lambda>u. usr_id u = user) (users d)
      then Inl (foreign_key_violation ''terms_acceptances_user_id_fkey'')
      else Inr ((), d\<lparr>terms := terms d @ [\<lparr>ta_user_id = user, ta_terms_version = tv,
                                           ta_privacy_version = pv, ta_ip_hash = ip\<rparr>]\<rparr>))"

definition promote_bootstrap_admin :: "uuid \<Rightarrow> time \<Rightarrow> database \<Rightarrow> error + int \<times> database" where
  "promote_bootstrap_admin i t d =
     (let hit = (\<lambda>u. usr_id u = i \<and> usr_role u \<noteq> RoleAdmin)
      in Inr (int (count_rows hit (users d)),
              d\<lparr>users := upd_rows hit (\<lambda>u. u\<lparr>usr_role := RoleAdmin, usr_updated_at := t\<rparr>) (users d)\<rparr>))"

definition insert_admin_audit :: "audit_row \<Rightarrow> database \<Rightarrow> error + unit \<times> database" where
  "insert_admin_audit a d =
     (if list_ex (\<lambda>r. aud_id r = aud_id a) (audit_log d) then Inl (unique_violation ''admin_audit_log_pkey'')
      else if aud_actor a \<noteq> None \<and> \<not> list_ex (\<lambda>u. Some (usr_id u) = aud_actor a) (users d)
      then Inl (foreign_key_violation ''admin_audit_log_actor_user_id_fkey'')
      else Inr ((), d\<lparr>audit_log := audit_log d @ [a]\<rparr>))"

definition update_user_locale :: "uuid \<Rightarrow> string \<Rightarrow> time \<Rightarrow> database \<Rightarrow> error + user_row \<times> database" where
  "update_user_locale i locale t d =
     (let upd = (\<lambda>u. u\<lparr>usr_locale := locale, usr_updated_at := t, usr_version := usr_version u + 1\<rparr>)
      in case find (\<lambda>u. usr_id u = i) (users d) of
           None \<Rightarrow> Inl NoRows
         | Some u \<Rightarrow>
             if locale \<notin> {''en'', ''es''} then Inl (check_violation ''users_locale_check'')
             else if usr_version u + 1 \<ge> 2 ^ 31 then Inl out_of_range
             else Inr (upd u, d\<lparr>users := upd_rows (\<lambda>u. usr_id u = i) upd (users d)\<rparr>))"

section \<open>The service\<close>

record google_profile =
  gpr_subject :: string
  gpr_email :: string
  gpr_email_verified :: bool
  gpr_display_name :: string
  gpr_avatar_url :: string

record provision_input =
  pi_profile :: google_profile
  pi_locale :: string
  pi_terms :: bool
  pi_privacy :: bool
  pi_ip_hash :: "string option"
  pi_guest :: "uuid option"
  pi_request_id :: string

record user_service =
  us_terms_version :: string
  us_privacy_version :: string
  us_bootstrap :: "string list"
  us_lower :: "string \<Rightarrow> string"

definition find_by_google_subject :: "string \<Rightarrow> (world, user_row) op" where
  "find_by_google_subject subject =
     (if trim_space subject = [] then fail IdentityConflict
      else db_read (find_user_by_google_subject subject))"

definition migrate_locked :: "uuid \<Rightarrow> uuid \<Rightarrow> (world, unit) op" where
  "migrate_locked guest user =
     bindE clock_now (\<lambda>t.
     bindE (wrap_err ''migrate guest conversations''
       (db_exec (migrate_guest_conversations guest user t))) (\<lambda>_.
     bindE (wrap_err ''mark guest migrated'' (db_exec (mark_guest_migrated guest user t))) (\<lambda>updated.
     if updated \<noteq> 1 then fail GuestConflict else ok ())))"

definition migrate_guest :: "uuid option \<Rightarrow> uuid \<Rightarrow> (world, unit) op" where
  "migrate_guest guest user =
     (case guest of
        None \<Rightarrow> ok ()
      | Some g \<Rightarrow>
          bindE (attempt (db_read (lock_guest_session g))) (\<lambda>r.
          case r of
            Inl e \<Rightarrow> if errors_is e NoRows then ok () else fail (Wrap ''lock guest migration'' e)
          | Inr row \<Rightarrow>
              (case gst_migrated_user_id row of
                 Some u \<Rightarrow> if u = user then ok () else fail GuestConflict
               | None \<Rightarrow> migrate_locked (gst_id row) user)))"

text \<open>The end of the creation: the bootstrap role and its audit entry, in the same transaction.\<close>

definition bootstrap_role :: "user_service \<Rightarrow> provision_input \<Rightarrow> uuid \<Rightarrow> (world, bool) op" where
  "bootstrap_role S input user =
     (if us_lower S (gpr_email (pi_profile input)) \<notin> set (us_bootstrap S) then ok False
      else
        bindE clock_now (\<lambda>t.
        bindE (wrap_err ''bootstrap administrator'' (db_exec (promote_bootstrap_admin user t))) (\<lambda>updated.
        if updated \<noteq> 1 then ok False
        else
          bindE ids_new (\<lambda>audit.
          bindE (wrap_err ''audit administrator bootstrap'' (db_exec (insert_admin_audit
            \<lparr>aud_id = audit, aud_actor = Some user, aud_action = ''user.bootstrap_admin'',
             aud_target_type = ''user'', aud_target_id = uuid_string user, aud_before = None,
             aud_after = Some (JObj [(''role'', JStr ''admin'')]),
             aud_request_id = nullable_string (pi_request_id input), aud_occurred_at = t\<rparr>))) (\<lambda>_.
          ok True)))))"

definition provision_new :: "user_service \<Rightarrow> provision_input \<Rightarrow> string \<Rightarrow> (world, user_row) op" where
  "provision_new S input locale =
     (let email = gpr_email (pi_profile input) in
      bindE ids_new (\<lambda>user.
      bindE ids_new (\<lambda>identity.
      bindE clock_now (\<lambda>t.
      let trimmed = trim_space (gpr_display_name (pi_profile input));
          name = (if trimmed = [] then takeWhile (\<lambda>c. c \<noteq> CHR ''@'') email else trimmed) in
      bindE (wrap_err ''create user'' (db_exec (create_user (us_lower S) user (us_lower S email) name
        (nullable_string (gpr_avatar_url (pi_profile input))) locale RoleUser t))) (\<lambda>row.
      bindE (wrap_err ''create Google identity'' (db_exec (create_google_identity identity user
        (gpr_subject (pi_profile input)) (us_lower S email)))) (\<lambda>_.
      bindE (if pi_ip_hash input \<noteq> None \<and> the (pi_ip_hash input) \<noteq> []
                \<and> length (the (pi_ip_hash input)) \<noteq> 32
             then fail (Msg ''consent IP hash must be 32 bytes'') else ok ()) (\<lambda>_.
      bindE (wrap_err ''record legal acceptance'' (db_exec (record_terms_acceptance user
        (us_terms_version S) (us_privacy_version S) (pi_ip_hash input)))) (\<lambda>_.
      bindE (bootstrap_role S input user) (\<lambda>admin.
      bindE (migrate_guest (pi_guest input) user) (\<lambda>_.
      ok (if admin then row\<lparr>usr_role := RoleAdmin\<rparr> else row)))))))))))"

definition provision_tx :: "user_service \<Rightarrow> provision_input \<Rightarrow> string \<Rightarrow> (world, user_row \<times> bool) op" where
  "provision_tx S input locale =
     bindE (attempt (db_read (find_user_by_google_subject (gpr_subject (pi_profile input))))) (\<lambda>r.
     case r of
       Inr u \<Rightarrow>
         if usr_status u \<noteq> Active then fail AccountUnavailable
         else bindE (migrate_guest (pi_guest input) (usr_id u)) (\<lambda>_. ok (u, False))
     | Inl e \<Rightarrow>
         if \<not> errors_is e NoRows then fail (Wrap ''find Google identity'' e)
         else
           bindE (attempt (db_read (find_user_by_email (us_lower S) (gpr_email (pi_profile input))))) (\<lambda>r.
           case r of
             Inr _ \<Rightarrow> fail IdentityConflict
           | Inl e \<Rightarrow>
               if \<not> errors_is e NoRows then fail (Wrap ''find user by email'' e)
               else bindE (provision_new S input locale) (\<lambda>u. ok (u, True))))"

text \<open>The end of \<open>provisionGoogle\<close> after a violated unique constraint: the account is there now.\<close>

definition provision_lost_race :: "provision_input \<Rightarrow> (world, user_row \<times> bool) op" where
  "provision_lost_race input =
     bindE (attempt (db_read (find_user_by_google_subject (gpr_subject (pi_profile input))))) (\<lambda>r.
     case r of
       Inl _ \<Rightarrow> fail IdentityConflict
     | Inr u \<Rightarrow>
         if usr_status u \<noteq> Active then fail AccountUnavailable
         else bindE (within_transaction (migrate_guest (pi_guest input) (usr_id u))) (\<lambda>_. ok (u, False)))"

text \<open>The wait before a retry ends with the timer, or with the error of the request's context.\<close>

definition wait_timer :: "(world, unit) op" where
  "wait_timer = call (ok ())"

fun provision_attempt :: "user_service \<Rightarrow> nat \<Rightarrow> provision_input \<Rightarrow> (world, user_row \<times> bool) op" where
  "provision_attempt S attempts input =
     (if \<not> gpr_email_verified (pi_profile input) \<or> gpr_subject (pi_profile input) = []
         \<or> gpr_email (pi_profile input) = []
      then fail IdentityConflict
      else if \<not> pi_terms input \<or> \<not> pi_privacy input then fail ConsentRequired
      else
        bindE (attempt (within_transaction (provision_tx S input
          (if pi_locale input = ''es'' then ''es'' else ''en'')))) (\<lambda>r.
        case r of
          Inr x \<Rightarrow> ok x
        | Inl e \<Rightarrow>
            (case pg_code e of
               None \<Rightarrow> fail e
             | Some code \<Rightarrow>
                 if code \<in> {''40001'', ''40P01''} \<and> attempts > 1
                 then bindE wait_timer (\<lambda>_. provision_attempt S (attempts - 1) input)
                 else if code \<noteq> ''23505'' then fail e
                 else provision_lost_race input)))"

declare provision_attempt.simps [simp del]

definition provision_google :: "user_service \<Rightarrow> provision_input \<Rightarrow> (world, user_row \<times> bool) op" where
  "provision_google S = provision_attempt S 3"

section \<open>What a provisioning changes\<close>

text \<open>
  A guest is moved to a user, or there is nothing to move: no guest was named, the guest is gone,
  or it already belongs to the user.
\<close>

inductive guest_move :: "uuid \<Rightarrow> uuid option \<Rightarrow> database \<Rightarrow> database \<Rightarrow> bool" where
  no_guest: "guest_move u None d d"
| gone: "\<not> list_ex (\<lambda>r. gst_id r = g) (guest_sessions d) \<Longrightarrow> guest_move u (Some g) d d"
| settled: "find (\<lambda>r. gst_id r = g) (guest_sessions d) = Some row \<Longrightarrow> gst_migrated_user_id row = Some u \<Longrightarrow>
    guest_move u (Some g) d d"
| moved: "find (\<lambda>r. gst_id r = g) (guest_sessions d) = Some row \<Longrightarrow> gst_migrated_user_id row = None \<Longrightarrow>
    migrate_guest_conversations g u t d = Inr (n, d1) \<Longrightarrow> mark_guest_migrated g u t d1 = Inr (1, d') \<Longrightarrow>
    guest_move u (Some g) d d'"

inductive_cases guest_moveE: "guest_move u (Some g) d d'"

inductive bootstrapped :: "uuid \<Rightarrow> database \<Rightarrow> database \<Rightarrow> bool" where
  stays: "bootstrapped u d d"
| unpromoted: "promote_bootstrap_admin u t d = Inr (n, d') \<Longrightarrow> bootstrapped u d d'"
| promoted: "promote_bootstrap_admin u t d = Inr (n, d1) \<Longrightarrow> insert_admin_audit a d1 = Inr ((), d') \<Longrightarrow>
    bootstrapped u d d'"

inductive account_created :: "(string \<Rightarrow> string) \<Rightarrow> string \<Rightarrow> uuid \<Rightarrow> database \<Rightarrow> database \<Rightarrow> bool" where
  "create_user lower u email n a l RoleUser t d = Inr (row, d1) \<Longrightarrow>
   create_google_identity i u subject email' d1 = Inr ((), d2) \<Longrightarrow>
   record_terms_acceptance u tv pv ip d2 = Inr ((), d3) \<Longrightarrow> bootstrapped u d3 d4 \<Longrightarrow>
   account_created lower subject u d d4"

inductive user_change :: "(string \<Rightarrow> string) \<Rightarrow> database \<Rightarrow> database \<Rightarrow> bool" where
  same: "user_change lower d d"
| resumed: "guest_move u g d d' \<Longrightarrow> user_change lower d d'"
| created: "account_created lower s u d d1 \<Longrightarrow> guest_move u g d1 d' \<Longrightarrow> user_change lower d d'"

lemma migrate_guest_okD:
  assumes "migrate_guest go u w = (Inr (), w')"
  shows "guest_move u go (db w) (db w')"
proof (cases go)
  case None
  with assms show ?thesis by (simp add: migrate_guest_def guest_move.no_guest)
next
  case (Some g)
  then obtain r w1 where r: "db_read (lock_guest_session g) w = (r, w1)"
    and rest: "(case r of
       Inl e \<Rightarrow> if errors_is e NoRows then ok () else fail (Wrap ''lock guest migration'' e)
     | Inr row \<Rightarrow> (case gst_migrated_user_id row of
                 Some v \<Rightarrow> if v = u then ok () else fail GuestConflict
               | None \<Rightarrow> migrate_locked (gst_id row) u)) w1 = (Inr (), w')"
    using assms by (auto simp: migrate_guest_def elim!: op_elims)
  show ?thesis
  proof (cases r)
    case (Inl e)
    with rest have "errors_is e NoRows" "w' = w1" by (auto split: if_splits)
    with Inl r have "lock_guest_session g (db w) = Inl e" "db w' = db w"
      by (auto dest: db_read_missingD db_read_db)
    with Some show ?thesis
      by (auto simp: lock_guest_session_def find_None_mem list_ex_iff split: option.splits
          intro: guest_move.gone)
  next
    case (Inr row)
    with r have lock: "lock_guest_session g (db w) = Inr row" and same: "db w1 = db w"
      by (auto dest: db_read_okD)
    then have row: "find (\<lambda>r. gst_id r = g) (guest_sessions (db w)) = Some row" "gst_id row = g"
      by (auto simp: lock_guest_session_def split: option.splits dest: find_Some_iff_mem)
    show ?thesis
      using rest Inr row same Some unfolding migrate_locked_def
      by (auto split: option.splits if_splits elim!: op_elims dest!: db_exec_okD
          intro: guest_move.intros)
  qed
qed

lemma bootstrap_role_okD:
  "bootstrap_role S input u w = (Inr b, w') \<Longrightarrow> bootstrapped u (db w) (db w')"
  unfolding bootstrap_role_def
  by (auto split: if_splits elim!: op_elims dest!: db_exec_okD ids_new_db
      intro: bootstrapped.stays) (metis bootstrapped.unpromoted bootstrapped.promoted)+

lemma provision_new_okD:
  assumes "provision_new S input l w = (Inr row, w')"
  obtains u d1 where "account_created (us_lower S) (gpr_subject (pi_profile input)) u (db w) d1"
    "guest_move u (pi_guest input) d1 (db w')" "usr_id row = u"
proof -
  let ?p = "pi_profile input"
  let ?name = "if trim_space (gpr_display_name ?p) = [] then takeWhile (\<lambda>c. c \<noteq> CHR ''@'') (gpr_email ?p)
    else trim_space (gpr_display_name ?p)"
  obtain u w1 i w2 r w3 w4 w5 w6 adm w7 where ids: "ids_new w = (Inr u, w1)" "ids_new w1 = (Inr i, w2)"
    and cu: "db_exec (create_user (us_lower S) u (us_lower S (gpr_email ?p)) ?name
        (nullable_string (gpr_avatar_url ?p)) l RoleUser (now w2)) w2 = (Inr r, w3)"
    and ci: "db_exec (create_google_identity i u (gpr_subject ?p) (us_lower S (gpr_email ?p))) w3 = (Inr (), w4)"
    and rt: "db_exec (record_terms_acceptance u (us_terms_version S) (us_privacy_version S)
        (pi_ip_hash input)) w4 = (Inr (), w5)"
    and br: "bootstrap_role S input u w5 = (Inr adm, w6)"
    and mg: "migrate_guest (pi_guest input) u w6 = (Inr (), w')"
    and row: "row = (if adm then r\<lparr>usr_role := RoleAdmin\<rparr> else r)"
    using assms unfolding provision_new_def Let_def
    by (auto elim!: op_elims split: if_splits intro!: that)
  have "account_created (us_lower S) (gpr_subject ?p) u (db w) (db w6)"
    using db_exec_okD [OF cu] db_exec_okD [OF ci] db_exec_okD [OF rt] bootstrap_role_okD [OF br]
      ids_new_db [OF ids(1)] ids_new_db [OF ids(2)]
    by (intro account_created.intros) auto
  moreover have "usr_id row = u"
    using db_exec_okD [OF cu] row by (auto simp: create_user_def Let_def split: if_splits)
  ultimately show ?thesis
    using migrate_guest_okD [OF mg] by (intro that)
qed

text \<open>What a provisioning that succeeded did.\<close>

inductive provisioned ::
  "user_service \<Rightarrow> provision_input \<Rightarrow> user_row \<Rightarrow> bool \<Rightarrow> database \<Rightarrow> database \<Rightarrow> bool" for S input where
  found: "find_user_by_google_subject (gpr_subject (pi_profile input)) d = Inr u \<Longrightarrow> usr_status u = Active \<Longrightarrow>
    guest_move (usr_id u) (pi_guest input) d d' \<Longrightarrow> provisioned S input u False d d'"
| created: "find_user_by_google_subject (gpr_subject (pi_profile input)) d = Inl e \<Longrightarrow>
    find_user_by_email (us_lower S) (gpr_email (pi_profile input)) d = Inl e' \<Longrightarrow>
    account_created (us_lower S) (gpr_subject (pi_profile input)) (usr_id u) d d1 \<Longrightarrow>
    guest_move (usr_id u) (pi_guest input) d1 d' \<Longrightarrow> provisioned S input u True d d'"

lemma provision_tx_okD:
  assumes "provision_tx S input l w = (Inr (u, b), w')"
  shows "provisioned S input u b (db w) (db w')"
  using assms unfolding provision_tx_def
  by (auto elim!: op_elims provision_new_okD db_read_cases split: sum.splits if_splits
      dest!: migrate_guest_okD)
    (rule provisioned.intros; simp)+


lemma provision_lost_race_okD:
  assumes "provision_lost_race input w = (Inr (u, b), w')"
  shows "\<not> b \<and> provisioned S input u False (db w) (db w')"
  using assms unfolding provision_lost_race_def
  by (auto elim!: op_elims db_read_cases within_transaction_okD split: sum.splits if_splits
      dest!: migrate_guest_okD) (rule provisioned.found; simp)

lemma provision_lost_race_errD: "provision_lost_race input w = (Inl e, w') \<Longrightarrow> db w' = db w"
  unfolding provision_lost_race_def
  by (auto elim!: bindE_errE op_elims db_read_cases split: sum.splits if_splits prod.splits
      dest!: within_transaction_error_db simp: attempt_def)

lemma wait_timer_db: "wait_timer w = (r, w') \<Longrightarrow> db w' = db w"
  by (auto simp: wait_timer_def elim!: call_cases)

lemma provision_attempt_step:
  assumes "provision_attempt S n input w = (r, w')"
  obtains (refused) e where "r = Inl e" "db w' = db w"
  | (committed) l u b w1 w2 where "r = Inr (u, b)" "db w1 = db w" "provision_tx S input l w1 = (Inr (u, b), w2)"
      "db w' = db w2"
  | (retried) w1 where "n > 1" "db w1 = db w" "provision_attempt S (n - 1) input w1 = (r, w')"
  | (raced) w1 where "db w1 = db w" "provision_lost_race input w1 = (r, w')"
proof -
  let ?l = "if pi_locale input = ''es'' then ''es'' else ''en''"
  obtain x w1 where tx: "within_transaction (provision_tx S input ?l) w = (x, w1)"
    by fastforce
  show thesis
  proof (cases x)
    case (Inr ub)
    then show ?thesis
      using assms tx refused committed
      by (cases ub) (auto simp: provision_attempt.simps [of S n] attempt_def split: if_splits
          elim!: within_transaction_okD)
  next
    case (Inl e)
    with tx have same: "db w1 = db w" by (auto dest: within_transaction_error_db)
    obtain y w2 where wait: "wait_timer w1 = (y, w2)" by fastforce
    then have "db w2 = db w" using same wait_timer_db by metis
    then show ?thesis
      using assms tx Inl same wait refused [of _] retried [of w2] raced [of w1]
      by (cases y) (auto simp: provision_attempt.simps [of S n] attempt_def split: if_splits option.splits)
  qed
qed

lemma provision_attempt_cases:
  assumes "provision_attempt S n input w = (r, w')"
  shows "(\<exists>e. r = Inl e \<and> db w' = db w) \<or> (\<exists>u b. r = Inr (u, b) \<and> provisioned S input u b (db w) (db w'))"
  using assms
proof (induction n arbitrary: w rule: less_induct)
  case (less n)
  from less.prems show ?case
  proof (cases rule: provision_attempt_step)
    case (retried w1)
    with less.IH [of "n - 1" w1] show ?thesis by auto
  next
    case (raced w1)
    show ?thesis
    proof (cases r)
      case (Inl e)
      with raced provision_lost_race_errD show ?thesis by metis
    next
      case (Inr ub)
      obtain u b where "ub = (u, b)" by fastforce
      with Inr raced provision_lost_race_okD [of input w1 u b w' S] show ?thesis by auto
    qed
  qed (auto dest: provision_tx_okD)
qed

lemma provision_google_cases:
  assumes "provision_google S input w = (r, w')"
  obtains (refused) e where "r = Inl e" "db w' = db w"
  | (provisioned) u b where "r = Inr (u, b)" "provisioned S input u b (db w) (db w')"
  using provision_attempt_cases [OF assms [unfolded provision_google_def]]
  by (elim disjE exE conjE) (rule refused provisioned; assumption)+

section \<open>Guests are migrated once\<close>

definition guests_ok :: "database \<Rightarrow> bool" where
  "guests_ok d \<longleftrightarrow> distinct (map gst_id (guest_sessions d)) \<and>
     list_all (\<lambda>g. gst_migrated_user_id g = None
       \<or> list_all (\<lambda>c. conv_guest_id c \<noteq> Some (gst_id g)) (conversations d)) (guest_sessions d)"

definition guest_settled :: "uuid \<Rightarrow> uuid \<Rightarrow> database \<Rightarrow> bool" where
  "guest_settled g u d \<longleftrightarrow> list_ex (\<lambda>r. gst_id r = g) (guest_sessions d)
     \<and> list_all (\<lambda>r. gst_id r = g \<longrightarrow> gst_migrated_user_id r = Some u) (guest_sessions d)"

lemma migrate_conversationsD:
  "migrate_guest_conversations g u t d = Inr (n, d') \<Longrightarrow>
   d' = d\<lparr>conversations := upd_rows (\<lambda>c. conv_guest_id c = Some g)
     (\<lambda>c. c\<lparr>conv_user_id := Some u, conv_guest_id := None, conv_updated_at := t\<rparr>) (conversations d)\<rparr>"
  by (auto simp: migrate_guest_conversations_def Let_def split: if_splits)

lemma mark_migratedD:
  "mark_guest_migrated g u t d = Inr (n, d') \<Longrightarrow>
   d' = d\<lparr>guest_sessions := upd_rows (\<lambda>r. gst_id r = g \<and> gst_migrated_user_id r = None)
     (\<lambda>r. r\<lparr>gst_migrated_user_id := Some u, gst_migrated_at := Some t, gst_last_seen_at := t\<rparr>)
     (guest_sessions d)\<rparr>"
  by (auto simp: mark_guest_migrated_def Let_def split: if_splits)

lemma settled_iff: "guest_settled g u d \<longleftrightarrow> g \<in> gst_id ` set (guest_sessions d) \<and>
    (\<forall>r \<in> set (guest_sessions d). gst_id r = g \<longrightarrow> gst_migrated_user_id r = Some u)"
  by (auto simp: guest_settled_def list_ex_iff list_all_iff)

lemma guests_ok_iff: "guests_ok d \<longleftrightarrow> distinct (map gst_id (guest_sessions d)) \<and>
    (\<forall>g \<in> set (guest_sessions d). \<forall>c \<in> set (conversations d).
       gst_migrated_user_id g \<noteq> None \<longrightarrow> conv_guest_id c \<noteq> Some (gst_id g))"
  by (auto simp: guests_ok_def list_all_iff)

text \<open>The state after a move, in terms of the rows.\<close>

lemma moved_rows:
  assumes "migrate_guest_conversations g u t d = Inr (n, d1)" "mark_guest_migrated g u t d1 = Inr (1, d')"
  shows "guest_sessions d' = upd_rows (\<lambda>r. gst_id r = g \<and> gst_migrated_user_id r = None)
     (\<lambda>r. r\<lparr>gst_migrated_user_id := Some u, gst_migrated_at := Some t, gst_last_seen_at := t\<rparr>)
     (guest_sessions d)"
    and "conversations d' = upd_rows (\<lambda>c. conv_guest_id c = Some g)
     (\<lambda>c. c\<lparr>conv_user_id := Some u, conv_guest_id := None, conv_updated_at := t\<rparr>) (conversations d)"
    and "users d' = users d" "identities d' = identities d" "terms d' = terms d"
  using migrate_conversationsD [OF assms(1)] mark_migratedD [OF assms(2)] by simp_all

lemma moved_ids:
  "map gst_id (upd_rows P (\<lambda>r. r\<lparr>gst_migrated_user_id := x, gst_migrated_at := y, gst_last_seen_at := z\<rparr>) t)
   = map gst_id t"
  by (rule map_upd_rows_same) simp

lemma guest_move_ok:
  assumes "guest_move u go d d'" and "guests_ok d"
  shows "guests_ok d'"
  using assms(1)
proof cases
  case (moved g row t n d1)
  note rows = moved_rows [OF moved(4,5)]
  have "conv_guest_id c' \<noteq> Some (gst_id r')" if r': "r' \<in> set (guest_sessions d')"
      "gst_migrated_user_id r' \<noteq> None" and c': "c' \<in> set (conversations d')" for r' c'
  proof
    assume eq: "conv_guest_id c' = Some (gst_id r')"
    with c' have c: "c' \<in> set (conversations d)" "gst_id r' \<noteq> g"
      unfolding rows set_upd_rows by (auto split: if_splits)
    with r' have "r' \<in> set (guest_sessions d)"
      unfolding rows set_upd_rows by (auto split: if_splits)
    with assms(2) r'(2) c eq show False unfolding guests_ok_iff by blast
  qed
  then show ?thesis
    using assms(2) unfolding guests_ok_iff rows moved_ids by blast
qed (use assms(2) in auto)

lemma guest_move_settles:
  assumes "guest_move u (Some g) d d'" and "guests_ok d" and "g \<in> gst_id ` set (guest_sessions d)"
  shows "guest_settled g u d'"
    and "\<forall>c \<in> set (conversations d'). conv_guest_id c \<noteq> Some g"
    and "\<forall>c \<in> set (conversations d). conv_guest_id c = Some g \<longrightarrow>
       (\<exists>c' \<in> set (conversations d'). conv_id c' = conv_id c \<and> conv_user_id c' = Some u)"
proof -
  have uniq: "r = row" if "r \<in> set (guest_sessions d)" "row \<in> set (guest_sessions d)" "gst_id r = gst_id row" for r row
    using that assms(2) by (auto simp: guests_ok_iff distinct_map dest: inj_onD)
  have "guest_settled g u d' \<and> (\<forall>c \<in> set (conversations d'). conv_guest_id c \<noteq> Some g) \<and>
    (\<forall>c \<in> set (conversations d). conv_guest_id c = Some g \<longrightarrow>
       (\<exists>c' \<in> set (conversations d'). conv_id c' = conv_id c \<and> conv_user_id c' = Some u))"
    using assms(1)
  proof cases
    case gone
    then show ?thesis using assms(3) by (auto simp: list_ex_iff)
  next
    case (settled row)
    then have row: "row \<in> set (guest_sessions d)" "gst_id row = g" by (auto dest: find_Some_iff_mem)
    with settled uniq have "guest_settled g u d'" unfolding settled_iff by (metis image_eqI)
    moreover have "conv_guest_id c \<noteq> Some g" if "c \<in> set (conversations d)" for c
      using assms(2) row settled that unfolding guests_ok_iff by force
    ultimately show ?thesis using settled by blast
  next
    case (moved row t n d1)
    note rows = moved_rows [OF moved(3,4)]
    have row: "row \<in> set (guest_sessions d)" "gst_id row = g"
      using moved by (auto dest: find_Some_iff_mem)
    have "gst_migrated_user_id r = Some u" if r: "r \<in> set (guest_sessions d')" "gst_id r = g" for r
    proof -
      obtain x where x: "x \<in> set (guest_sessions d)"
          "r = (if gst_id x = g \<and> gst_migrated_user_id x = None then x\<lparr>gst_migrated_user_id := Some u,
             gst_migrated_at := Some t, gst_last_seen_at := t\<rparr> else x)"
        using r(1) unfolding rows set_upd_rows by blast
      with r(2) have "gst_id x = g" by (auto split: if_splits)
      with x(1) row uniq have "x = row" by metis
      with x(2) row moved(2) show ?thesis by simp
    qed
    moreover have "g \<in> gst_id ` set (guest_sessions d')"
      using assms(3) moved_ids unfolding rows by (metis list.set_map)
    moreover have "\<exists>c' \<in> set (conversations d'). conv_id c' = conv_id c \<and> conv_user_id c' = Some u"
      if "c \<in> set (conversations d)" "conv_guest_id c = Some g" for c
      unfolding rows set_upd_rows using that by (intro bexI [OF _ imageI]) auto
    moreover have "conv_guest_id c \<noteq> Some g" if "c \<in> set (conversations d')" for c
      using that unfolding rows set_upd_rows by (auto split: if_splits)
    ultimately show ?thesis unfolding settled_iff by blast
  qed
  then show "guest_settled g u d'" "\<forall>c \<in> set (conversations d'). conv_guest_id c \<noteq> Some g"
    "\<forall>c \<in> set (conversations d). conv_guest_id c = Some g \<longrightarrow>
       (\<exists>c' \<in> set (conversations d'). conv_id c' = conv_id c \<and> conv_user_id c' = Some u)"
    by blast+
qed

lemma settled_move:
  assumes "guest_move v go d d'" and "guest_settled g u d"
  shows "guest_settled g u d'"
  using assms(1)
proof cases
  case (moved g' row t n d1)
  note rows = moved_rows [OF moved(4,5)]
  have "g \<in> gst_id ` set (guest_sessions d')"
    using assms(2) moved_ids unfolding rows settled_iff by (metis list.set_map)
  moreover have "gst_migrated_user_id r = Some u" if "r \<in> set (guest_sessions d')" "gst_id r = g" for r
    using that assms(2) unfolding rows set_upd_rows settled_iff by (auto split: if_splits)
  ultimately show ?thesis unfolding settled_iff by blast
qed (use assms(2) in auto)

lemma settled_move_same:
  assumes "guest_move v (Some g) d d'" and "guest_settled g u d"
  shows "v = u"
  using assms by (cases rule: guest_moveE)
    (auto simp: settled_iff list_ex_iff dest!: find_Some_iff_mem)

text \<open>Creating the account touches neither guests nor conversations.\<close>

lemma account_frame:
  assumes "account_created l s u d d'"
  shows "guest_sessions d' = guest_sessions d" "conversations d' = conversations d"
proof -
  have boot: "guest_sessions d2 = guest_sessions d1 \<and> conversations d2 = conversations d1"
    if "bootstrapped u d1 d2" for d1 d2
    using that by cases (auto simp: promote_bootstrap_admin_def insert_admin_audit_def Let_def split: if_splits)
  have "guest_sessions d' = guest_sessions d \<and> conversations d' = conversations d"
    using assms by cases
      (auto simp: create_user_def create_google_identity_def record_terms_acceptance_def Let_def
        split: if_splits dest!: boot)
  then show "guest_sessions d' = guest_sessions d" "conversations d' = conversations d" by simp_all
qed

lemma guests_ok_frame: "guest_sessions d' = guest_sessions d \<Longrightarrow> conversations d' = conversations d \<Longrightarrow>
    guests_ok d' = guests_ok d"
  by (simp add: guests_ok_def)

lemma settled_frame: "guest_sessions d' = guest_sessions d \<Longrightarrow> guest_settled g u d' = guest_settled g u d"
  by (simp add: guest_settled_def)

lemma provisioned_move:
  assumes "provisioned S input u b d d'"
  obtains d1 where "guest_sessions d1 = guest_sessions d" "conversations d1 = conversations d"
    "guest_move (usr_id u) (pi_guest input) d1 d'"
  using assms by cases (use account_frame in \<open>blast intro: that\<close>)+

section \<open>Accounts\<close>

text \<open>
  Emails (folded), Google subjects and their users are keys, an identity belongs to a user, and
  every user has an identity and has accepted some version of the terms.
\<close>

definition accounts_ok :: "(string \<Rightarrow> string) \<Rightarrow> database \<Rightarrow> bool" where
  "accounts_ok lower d \<longleftrightarrow>
     distinct (map usr_id (users d)) \<and> distinct (map (\<lambda>u. lower (usr_email u)) (users d)) \<and>
     distinct (map idn_subject (identities d)) \<and> distinct (map idn_user_id (identities d)) \<and>
     set (map idn_user_id (identities d)) = set (map usr_id (users d)) \<and>
     set (map usr_id (users d)) \<subseteq> set (map ta_user_id (terms d))"

lemma create_userD:
  "create_user lower i e n a l r t d = Inr (u, d') \<Longrightarrow>
   usr_id u = i \<and> usr_email u = e \<and> usr_role u = r \<and> usr_status u = Active
   \<and> i \<notin> usr_id ` set (users d) \<and> lower e \<notin> (\<lambda>u. lower (usr_email u)) ` set (users d)
   \<and> d' = d\<lparr>users := users d @ [u]\<rparr>"
  by (auto simp: create_user_def Let_def list_ex_iff split: if_splits)

lemma create_identityD:
  "create_google_identity i u s e d = Inr (x, d') \<Longrightarrow>
   s \<notin> idn_subject ` set (identities d) \<and> u \<notin> idn_user_id ` set (identities d)
   \<and> d' = d\<lparr>identities := identities d @ [\<lparr>idn_id = i, idn_user_id = u, idn_subject = s, idn_verified_email = e\<rparr>]\<rparr>"
  by (auto simp: create_google_identity_def list_ex_iff split: if_splits)

lemma record_termsD:
  "record_terms_acceptance u tv pv ip d = Inr (x, d') \<Longrightarrow>
   u \<in> ta_user_id ` set (terms d') \<and> ta_user_id ` set (terms d) \<subseteq> ta_user_id ` set (terms d')
   \<and> (\<exists>ts. d' = d\<lparr>terms := ts\<rparr>)"
  by (cases d) (auto simp: record_terms_acceptance_def list_ex_iff split: if_splits)

lemma map_promoted [simp]:
  "map usr_id (upd_rows P (\<lambda>u. u\<lparr>usr_role := r, usr_updated_at := t\<rparr>) us) = map usr_id us"
  "map usr_email (upd_rows P (\<lambda>u. u\<lparr>usr_role := r, usr_updated_at := t\<rparr>) us) = map usr_email us"
  by (rule map_upd_rows_same; simp)+

lemma bootstrappedD:
  assumes "bootstrapped u d d'"
  shows "identities d' = identities d" "terms d' = terms d"
    "map usr_id (users d') = map usr_id (users d)"
    "map usr_email (users d') = map usr_email (users d)"
  using assms
  by (cases; force simp: promote_bootstrap_admin_def insert_admin_audit_def Let_def split: if_splits)+

text \<open>The keys alone decide whether accounts are well formed.\<close>

lemma accounts_ok_frame:
  assumes "map usr_id (users d') = map usr_id (users d)" "map usr_email (users d') = map usr_email (users d)"
    "identities d' = identities d" "terms d' = terms d"
  shows "accounts_ok lower d' = accounts_ok lower d"
proof -
  have "map (\<lambda>u. lower (usr_email u)) (users d') = map lower (map usr_email (users d'))" by simp
  also have "\<dots> = map (\<lambda>u. lower (usr_email u)) (users d)" unfolding assms(2) by simp
  finally show ?thesis unfolding accounts_ok_def assms(1,3,4) by simp
qed

lemma guest_move_frame:
  assumes "guest_move u go d d'"
  shows "users d' = users d" "identities d' = identities d" "terms d' = terms d"
  using assms by (cases, auto dest: moved_rows(3-5))+

lemma account_created_ok:
  assumes "account_created lower s u d d'" and "accounts_ok lower d"
  shows "accounts_ok lower d'"
  using assms(1)
proof cases
  case (1 email n a l t row d1 i email' d2 tv pv ip d3)
  note old = assms(2) [unfolded accounts_ok_def]
  obtain ts where rows: "users d3 = users d @ [row]" "terms d3 = ts"
      "identities d3 = identities d @ [\<lparr>idn_id = i, idn_user_id = u, idn_subject = s, idn_verified_email = email'\<rparr>]"
      "ta_user_id ` set (terms d) \<subseteq> ta_user_id ` set ts" "u \<in> ta_user_id ` set ts"
    using create_userD [OF 1(1)] create_identityD [OF 1(2)] record_termsD [OF 1(3)] by auto
  have new: "usr_id row = u" "u \<notin> usr_id ` set (users d)"
      "lower (usr_email row) \<notin> (\<lambda>u. lower (usr_email u)) ` set (users d)" "s \<notin> idn_subject ` set (identities d)"
    using create_userD [OF 1(1)] create_identityD [OF 1(2)] by auto
  have "u \<notin> idn_user_id ` set (identities d)" using old new(2) by (metis list.set_map)
  then have "accounts_ok lower d3"
    using old new rows(4,5) unfolding accounts_ok_def rows by (simp; blast)
  then show ?thesis
    using accounts_ok_frame bootstrappedD [OF 1(4)] by blast
qed

lemma provisioned_accounts:
  assumes "provisioned S input u b d d'" and "accounts_ok (us_lower S) d"
  shows "accounts_ok (us_lower S) d'"
  using assms(1)
proof cases
  case found
  then show ?thesis using assms(2) guest_move_frame accounts_ok_frame by metis
next
  case (created e e' d1)
  then show ?thesis
    using account_created_ok [OF created(4) assms(2)] guest_move_frame [OF created(5)] accounts_ok_frame
    by metis
qed

section \<open>Runs\<close>

datatype user_call = Provision provision_input | Meanwhile time "fault option list" "uuid list"

fun user_step :: "user_service \<Rightarrow> user_call \<Rightarrow> world \<Rightarrow> world" where
  "user_step S (Provision input) w = snd (provision_google S input w)"
| "user_step S (Meanwhile t fs is) w = w\<lparr>now := t, faults := fs, new_ids := is\<rparr>"

abbreviation user_run :: "user_service \<Rightarrow> user_call list \<Rightarrow> world \<Rightarrow> world" where
  "user_run S cs w \<equiv> fold (user_step S) cs w"

lemma user_run_induct:
  assumes "P (db w)" and "\<And>input u b d d'. P d \<Longrightarrow> provisioned S input u b d d' \<Longrightarrow> P d'"
  shows "P (db (user_run S cs w))"
  using assms(1)
proof (induction cs arbitrary: w)
  case (Cons c cs)
  have "P (db (user_step S c w))"
  proof (cases c)
    case (Provision input)
    obtain r w' where run: "provision_google S input w = (r, w')" by fastforce
    then show ?thesis
      by (cases rule: provision_google_cases) (use Provision run Cons.prems assms(2) in auto)
  qed (use Cons.prems in simp)
  with Cons.IH show ?case by simp
qed simp

lemma provisioned_guests_ok: "provisioned S input u b d d' \<Longrightarrow> guests_ok d \<Longrightarrow> guests_ok d'"
  by (erule provisioned_move) (use guest_move_ok guests_ok_frame in metis)

lemma provisioned_settled:
  "provisioned S input v b d d' \<Longrightarrow> guest_settled g u d \<Longrightarrow> guest_settled g u d'"
  by (erule provisioned_move) (use settled_move settled_frame in metis)

section \<open>An example\<close>

definition example_users :: user_service where
  "example_users = \<lparr>us_terms_version = ''t1'', us_privacy_version = ''p1'', us_bootstrap = [''a@b''],
     us_lower = (\<lambda>s. s)\<rparr>"

definition example_input :: provision_input where
  "example_input = \<lparr>pi_profile = \<lparr>gpr_subject = ''sub'', gpr_email = ''a@b'', gpr_email_verified = True,
       gpr_display_name = [], gpr_avatar_url = []\<rparr>,
     pi_locale = ''es'', pi_terms = True, pi_privacy = True, pi_ip_hash = None, pi_guest = Some 9,
     pi_request_id = ''req''\<rparr>"

definition example_guest :: guest_row where
  "example_guest = \<lparr>gst_id = 9, gst_identity_hash = ''h'', gst_prompt_count = 1, gst_output_tokens = 10,
     gst_last_seen_at = 0, gst_expires_at = 9000, gst_migrated_user_id = None, gst_migrated_at = None\<rparr>"

definition example_conversation :: conversation_row where
  "example_conversation = \<lparr>conv_id = 50, conv_user_id = None, conv_guest_id = Some 9, conv_title = ''t'',
     conv_status = ConvActive, conv_created_at = 0, conv_updated_at = 0, conv_model_id = 100,
     conv_gen_state = Idle, conv_renamed = False, conv_deleted_at = None,
     conv_creation_key = Some ''k'', conv_deletion_key = None\<rparr>"

definition guest_world :: world where
  "guest_world = world_of (empty_db\<lparr>guest_sessions := [example_guest], conversations := [example_conversation]\<rparr>)
     1000 [1, 2, 3] []"

lemmas users_eval = provision_google_def provision_attempt.simps provision_tx_def provision_new_def
  bootstrap_role_def migrate_guest_def migrate_locked_def find_user_by_google_subject_def
  find_user_by_email_def create_user_def create_google_identity_def record_terms_acceptance_def
  promote_bootstrap_admin_def insert_admin_audit_def lock_guest_session_def
  migrate_guest_conversations_def mark_guest_migrated_def creation_clash_def nullable_string_def
  rune_count_def decode_runes_ascii trim_space_def count_rows_def Let_def

lemma example_provision:
  "fst (provision_google example_users example_input guest_world) =
     Inr (\<lparr>usr_id = 1, usr_email = ''a@b'', usr_display_name = ''a'', usr_avatar_url = None,
        usr_locale = ''es'', usr_role = RoleAdmin, usr_status = Active, usr_token_version = 1,
        usr_created_at = 1000, usr_updated_at = 1000, usr_version = 1\<rparr>, True)"
  by (simp add: users_eval guest_world_def world_eval empty_db_def example_users_def
      example_input_def example_guest_def example_conversation_def List.map_filter_def)

definition migrated_world :: world where
  "migrated_world = snd (provision_google example_users example_input guest_world)"

lemma example_provision_again:
  "fst (provision_google example_users example_input migrated_world) =
   map_sum (\<lambda>e. e) (\<lambda>p. (fst p, False)) (fst (provision_google example_users example_input guest_world))"
  by (simp add: migrated_world_def users_eval guest_world_def world_eval empty_db_def example_users_def
      example_input_def example_guest_def example_conversation_def List.map_filter_def)

section \<open>Properties\<close>

text \<open>C8: accounts stay well formed in every run of sign-ins, whatever fails and however often a
  transaction is retried: subjects and folded emails are keys, and there is never a user without a
  Google identity or without a recorded consent.\<close>
theorem accounts_invariant:
  assumes "accounts_ok (us_lower S) (db w)"
  shows "accounts_ok (us_lower S) (db (user_run S cs w))"
  by (rule user_run_induct [of "accounts_ok (us_lower S)", OF assms]) (rule provisioned_accounts)

theorem accounts_invariant_witness:
  "accounts_ok (\<lambda>s. s) (db (user_run example_users
     [Provision example_input, Meanwhile 2000 [None, Some FaultCanceled] [], Provision example_input] guest_world))"
  using accounts_invariant [of example_users guest_world
      "[Provision example_input, Meanwhile 2000 [None, Some FaultCanceled] [], Provision example_input]"]
  by (simp add: accounts_ok_def guest_world_def world_of_def empty_db_def example_users_def)

text \<open>C23: a guest is migrated once. The sign-in that brought a guest gives its user every
  conversation of the guest and leaves the guest none; and after any later sign-ins, one that
  brings the same guest and succeeds is of the same user.\<close>
theorem guest_migrated_once:
  assumes "guests_ok (db w)" and "g \<in> gst_id ` set (guest_sessions (db w))"
    and "provision_google S input w = (Inr (u, b), w1)" and "pi_guest input = Some g"
    and "w2 = user_run S cs w1"
    and "provision_google S input' w2 = (Inr (u', b'), w3)" and "pi_guest input' = Some g"
  shows "(\<forall>c \<in> set (conversations (db w)). conv_guest_id c = Some g \<longrightarrow>
      (\<exists>c' \<in> set (conversations (db w1)). conv_id c' = conv_id c \<and> conv_user_id c' = Some (usr_id u)))
    \<and> (\<forall>c \<in> set (conversations (db w1)). conv_guest_id c \<noteq> Some g) \<and> usr_id u' = usr_id u"
proof -
  have "provisioned S input u b (db w) (db w1)"
    using assms(3) by (cases rule: provision_google_cases) auto
  then obtain d where d: "guest_sessions d = guest_sessions (db w)" "conversations d = conversations (db w)"
      "guest_move (usr_id u) (Some g) d (db w1)"
    unfolding assms(4) [symmetric] by (rule provisioned_move)
  with assms(1,2) have ok: "guests_ok d" "g \<in> gst_id ` set (guest_sessions d)"
    by (simp_all add: guests_ok_frame [OF d(1,2)] d(1))
  note first = guest_move_settles [OF d(3) ok]
  have settled: "guest_settled g (usr_id u) (db w2)"
    unfolding assms(5) by (rule user_run_induct [where P = "guest_settled g (usr_id u)"], rule first(1))
      (rule provisioned_settled)
  have "provisioned S input' u' b' (db w2) (db w3)"
    using assms(6) by (cases rule: provision_google_cases) auto
  then obtain d2 where "guest_sessions d2 = guest_sessions (db w2)"
      "guest_move (usr_id u') (Some g) d2 (db w3)"
    unfolding assms(7) [symmetric] by (rule provisioned_move)
  then have "usr_id u' = usr_id u"
    using settled settled_frame settled_move_same by metis
  with first(2,3) d(2) show ?thesis by simp
qed

theorem guest_migrated_once_witness:
  "list_all (\<lambda>c. conv_guest_id c \<noteq> Some 9) (conversations (db migrated_world))"
proof -
  obtain u where u: "provision_google example_users example_input guest_world = (Inr (u, True), migrated_world)"
    using example_provision by (simp add: migrated_world_def prod_eq_iff)
  then obtain w3 where "provision_google example_users example_input migrated_world = (Inr (u, False), w3)"
    using example_provision_again by (cases "provision_google example_users example_input migrated_world") simp
  moreover have "guests_ok (db guest_world)" "9 \<in> gst_id ` set (guest_sessions (db guest_world))"
    "pi_guest example_input = Some 9"
    by (simp_all add: guests_ok_def guest_world_def world_of_def empty_db_def example_guest_def example_input_def)
  ultimately show ?thesis
    using guest_migrated_once [OF _ _ u, of 9 migrated_world "[]"] by (simp add: list_all_iff)
qed

end
