(* ===== verification/Gateway.thy ===== *)
theory Gateway
  imports Json
begin

text \<open>
  \<open>internal/provider\<close>: the types of \<open>domain.go\<close>, the circuit breaker and the slots of
  \<open>resilient.go\<close>, the deterministic stream of \<open>fake.go\<close>, and the event stream of \<open>openai.go\<close> from
  the lines the HTTP body is scanned into. The HTTP client, timers and goroutines are its
  environment: each scan ends with a line, the end of the body, an error, the context or a timeout.
\<close>

section \<open>Requests, chunks and errors\<close>

record chat_message =
  cm_role :: string
  cm_content :: string

record provider_request =
  prq_model :: string
  prq_messages :: "chat_message list"
  prq_max_tokens :: int

record token_usage =
  tu_input :: int
  tu_output :: int
  tu_cached :: int

datatype finish_reason = NoFinish | FinishStop | FinishLength | FinishSafety | FinishError

record chunk =
  ch_text :: string
  ch_usage :: "token_usage option"
  ch_finish :: finish_reason
  ch_request_id :: string
  ch_model :: string

record upstream_model =
  up_id :: string
  up_context_window :: int
  up_max_output :: int
  up_chat :: bool

definition empty_chunk :: chunk where
  "empty_chunk = \<lparr>ch_text = [], ch_usage = None, ch_finish = NoFinish, ch_request_id = [], ch_model = []\<rparr>"

text \<open>\<open>errors.As\<close> with a \<open>*provider.Error\<close> target, and \<open>Normalize\<close>.\<close>

fun provider_error_in :: "error \<Rightarrow> error option" where
  "provider_error_in (ProviderError c r s e) = Some (ProviderError c r s e)"
| "provider_error_in (Wrap p e) = provider_error_in e"
| "provider_error_in _ = None"

definition normalize_error :: "error \<Rightarrow> error" where
  "normalize_error e =
     (case provider_error_in e of
        Some p \<Rightarrow> p
      | None \<Rightarrow>
          if errors_is e DeadlineExceeded then ProviderError ''provider_timeout'' True 0 e
          else if errors_is e ContextCanceled then ProviderError ''provider_unavailable'' False 0 e
          else if errors_is e UnexpectedEOF then ProviderError ''provider_unavailable'' True 0 e
          else ProviderError ''provider_unavailable'' True 0 e)"

fun error_code :: "error \<Rightarrow> string" where
  "error_code (ProviderError c r s e) = c"
| "error_code _ = []"

fun error_retryable :: "error \<Rightarrow> bool" where
  "error_retryable (ProviderError c r s e) = r"
| "error_retryable _ = False"

lemma normalize_provider_error: "\<exists>c r s e'. normalize_error e = ProviderError c r s e'"
proof -
  have "provider_error_in x = Some p \<Longrightarrow> \<exists>c r s e'. p = ProviderError c r s e'" for x p
    by (induction x rule: provider_error_in.induct) auto
  then show ?thesis by (auto simp: normalize_error_def split: option.split)
qed

definition validate_request :: "provider_request \<Rightarrow> error + unit" where
  "validate_request q =
     (if prq_model q = [] \<or> prq_messages q = [] \<or> prq_max_tokens q \<le> 0
      then Inl (ProviderError ''invalid_request'' False 0
             (Msg ''model, messages, and max output tokens are required''))
      else if list_ex (\<lambda>m. cm_content m = [] \<or> cm_role m \<notin> {''system'', ''user'', ''assistant''})
                (prq_messages q)
      then Inl (ProviderError ''invalid_request'' False 0 (Msg ''message role or content is invalid''))
      else Inr ())"

section \<open>The circuit breaker\<close>

record resilience_options =
  ro_max_concurrent :: int
  ro_failure_limit :: int
  ro_open_duration :: time
  ro_retries :: int

definition default_resilience :: resilience_options where
  "default_resilience = \<lparr>ro_max_concurrent = 8, ro_failure_limit = 5, ro_open_duration = 30 * second,
     ro_retries = 1\<rparr>"

text \<open>
  A gateway in use: the streams it handed out, each with whether its slot was given back
  (\<open>sync.Once\<close>); the slots taken; consecutive failures; and the end of the open phase.
\<close>

record resilient =
  rs_options :: resilience_options
  rs_slots :: nat
  rs_failures :: int
  rs_open_until :: "time option"
  rs_streams :: "bool list"

definition new_resilient :: "resilience_options \<Rightarrow> resilient" where
  "new_resilient o' =
     \<lparr>rs_options = \<lparr>
        ro_max_concurrent = (if ro_max_concurrent o' \<le> 0 then ro_max_concurrent default_resilience
                             else ro_max_concurrent o'),
        ro_failure_limit = (if ro_failure_limit o' \<le> 0 then ro_failure_limit default_resilience
                            else ro_failure_limit o'),
        ro_open_duration = (if ro_open_duration o' \<le> 0 then ro_open_duration default_resilience
                            else ro_open_duration o'),
        ro_retries = max 0 (ro_retries o')\<rparr>,
      rs_slots = 0, rs_failures = 0, rs_open_until = None, rs_streams = []\<rparr>"

definition is_open :: "time \<Rightarrow> resilient \<Rightarrow> bool \<times> resilient" where
  "is_open t g =
     (case rs_open_until g of
        None \<Rightarrow> (False, g)
      | Some u \<Rightarrow> if t < u then (True, g) else (False, g\<lparr>rs_open_until := None, rs_failures := 0\<rparr>))"

definition observe :: "time \<Rightarrow> error option \<Rightarrow> resilient \<Rightarrow> resilient" where
  "observe t r g =
     (case r of
        None \<Rightarrow> g\<lparr>rs_failures := 0, rs_open_until := None\<rparr>
      | Some e \<Rightarrow>
          if \<not> error_retryable (normalize_error e) then g
          else
            let g1 = g\<lparr>rs_failures := rs_failures g + 1\<rparr>
            in if ro_failure_limit (rs_options g) \<le> rs_failures g1
               then g1\<lparr>rs_open_until := Some (t + ro_open_duration (rs_options g))\<rparr> else g1)"

definition circuit_open :: error where
  "circuit_open = ProviderError ''provider_unavailable'' True 0 (Msg ''provider circuit is open'')"

text \<open>\<open>Catalog\<close> and \<open>Health\<close>, with what the wrapped gateway answers; \<open>None\<close> if it is not asked.\<close>

definition guarded :: "time \<Rightarrow> (error + 'a) \<Rightarrow> resilient \<Rightarrow> (error + 'a) \<times> resilient" where
  "guarded t answer g =
     (case is_open t g of
        (True, g1) \<Rightarrow> (Inl circuit_open, g1)
      | (False, g1) \<Rightarrow>
          (answer, observe t (case answer of Inl e \<Rightarrow> Some e | Inr _ \<Rightarrow> None) g1))"

text \<open>The loop of \<open>Stream\<close>: \<open>f i\<close> is what the wrapped gateway answers to attempt \<open>i\<close>.\<close>

fun attempts :: "nat \<Rightarrow> (nat \<Rightarrow> error + unit) \<Rightarrow> nat \<Rightarrow> error + unit" where
  "attempts 0 f i = f i"
| "attempts (Suc n) f i =
     (case f i of
        Inr u \<Rightarrow> Inr u
      | Inl e \<Rightarrow> if error_retryable (normalize_error e) then attempts n f (i + 1) else Inl e)"

text \<open>
  \<open>Stream\<close>: \<open>None\<close> while it waits for a slot. The context's error ends the wait.
\<close>

definition open_stream ::
  "time \<Rightarrow> error option \<Rightarrow> (nat \<Rightarrow> error + unit) \<Rightarrow> resilient \<Rightarrow> ((error + nat) \<times> resilient) option" where
  "open_stream t ctx answers g =
     (case is_open t g of
        (True, g1) \<Rightarrow> Some (Inl circuit_open, g1)
      | (False, g1) \<Rightarrow>
          if ro_max_concurrent (rs_options g1) \<le> int (rs_slots g1)
          then (case ctx of None \<Rightarrow> None | Some e \<Rightarrow> Some (Inl e, g1))
          else
            let g2 = g1\<lparr>rs_slots := rs_slots g1 + 1\<rparr>
            in case attempts (nat (ro_retries (rs_options g2))) answers 0 of
                 Inl e \<Rightarrow> Some (Inl e, observe t (Some e) (g2\<lparr>rs_slots := rs_slots g2 - 1\<rparr>))
               | Inr _ \<Rightarrow>
                   let g3 = observe t None g2
                   in Some (Inr (length (rs_streams g3)), g3\<lparr>rs_streams := rs_streams g3 @ [False]\<rparr>))"

text \<open>\<open>once.Do(release)\<close> of the stream \<open>i\<close>.\<close>

definition release_once :: "nat \<Rightarrow> resilient \<Rightarrow> resilient" where
  "release_once i g =
     (if i < length (rs_streams g) \<and> \<not> rs_streams g ! i
      then g\<lparr>rs_slots := rs_slots g - 1, rs_streams := (rs_streams g)[i := True]\<rparr> else g)"

definition stream_next :: "time \<Rightarrow> nat \<Rightarrow> error + chunk \<Rightarrow> resilient \<Rightarrow> (error + chunk) \<times> resilient" where
  "stream_next t i answer g =
     (case answer of
        Inr c \<Rightarrow> (Inr c, g)
      | Inl e \<Rightarrow>
          (Inl e, release_once i (observe t (if errors_is e EndOfFile then None else Some e) g)))"

definition stream_close :: "nat \<Rightarrow> resilient \<Rightarrow> resilient" where
  "stream_close i g = release_once i g"

section \<open>The deterministic provider\<close>

record fake_options =
  fo_models :: "upstream_model list"
  fo_chunks :: "string list"
  fo_fail_after :: int
  fo_usage :: token_usage

definition new_fake :: "fake_options \<Rightarrow> fake_options" where
  "new_fake o' =
     (let a = (if fo_models o' = [] then o'\<lparr>fo_models := [\<lparr>up_id = ''deepseek-v4-flash'',
                 up_context_window = 131072, up_max_output = 8192, up_chat = True\<rparr>]\<rparr> else o');
          b = (if fo_chunks a = [] then a\<lparr>fo_chunks := [''Deterministic '', ''development '', ''response.'']\<rparr>
               else a)
      in if fo_usage b = \<lparr>tu_input = 0, tu_output = 0, tu_cached = 0\<rparr>
         then b\<lparr>fo_usage := \<lparr>tu_input = 8, tu_output = 6, tu_cached = 0\<rparr>\<rparr> else b)"

record fake_stream =
  fk_options :: fake_options
  fk_model :: string
  fk_max_tokens :: int
  fk_index :: nat
  fk_closed :: bool

definition fake_open :: "fake_options \<Rightarrow> provider_request \<Rightarrow> error + fake_stream" where
  "fake_open o' q =
     bindS (validate_request q) (\<lambda>_.
     Inr \<lparr>fk_options = o', fk_model = prq_model q, fk_max_tokens = prq_max_tokens q, fk_index = 0,
         fk_closed = False\<rparr>)"

text \<open>\<open>Next\<close>; \<open>ctx\<close> is the error the wait for the latency ended with, if a context was done.\<close>

definition fake_next :: "error option \<Rightarrow> fake_stream \<Rightarrow> (error + chunk) \<times> fake_stream" where
  "fake_next ctx s =
     (if fk_closed s then (Inl EndOfFile, s)
      else if fo_fail_after (fk_options s) > 0 \<and> fo_fail_after (fk_options s) \<le> int (fk_index s)
      then (Inl (ProviderError ''provider_unavailable'' False 0 UnexpectedEOF), s\<lparr>fk_closed := True\<rparr>)
      else if fk_index s < length (fo_chunks (fk_options s))
      then (case ctx of
              Some e \<Rightarrow> (Inl e, s)
            | None \<Rightarrow> (Inr (empty_chunk\<lparr>ch_text := fo_chunks (fk_options s) ! fk_index s,
                                        ch_model := fk_model s\<rparr>), s\<lparr>fk_index := fk_index s + 1\<rparr>))
      else
        let u = fo_usage (fk_options s);
            u = (if fk_max_tokens s < tu_output u then u\<lparr>tu_output := fk_max_tokens s\<rparr> else u)
        in (Inr (empty_chunk\<lparr>ch_usage := Some u, ch_finish := FinishStop, ch_model := fk_model s,
                            ch_request_id := ''fake-request''\<rparr>), s\<lparr>fk_closed := True\<rparr>))"

definition fake_close :: "fake_stream \<Rightarrow> fake_stream" where
  "fake_close s = s\<lparr>fk_closed := True\<rparr>"

section \<open>The event stream of an OpenAI-compatible provider\<close>

definition response_error :: "int \<Rightarrow> error" where
  "response_error status =
     (let (code, retry) =
        (if status = 400 \<or> status = 422 then (''invalid_request'', status \<ge> 500)
         else if status = 401 \<or> status = 403 then (''provider_unauthorized'', status \<ge> 500)
         else if status = 429 then (''provider_rate_limited'', True)
         else if status = 408 \<or> status = 504 then (''provider_timeout'', True)
         else (''provider_unavailable'', status \<ge> 500))
      in ProviderError code retry status (Msg (''provider HTTP status '' @ int_string status)))"

definition normalize_finish :: "string \<Rightarrow> finish_reason" where
  "normalize_finish v =
     (if v = ''stop'' then FinishStop else if v = ''length'' then FinishLength
      else if v \<in> {''content_filter'', ''safety''} then FinishSafety else FinishError)"

fun first_non_empty :: "string list \<Rightarrow> string" where
  "first_non_empty [] = []"
| "first_non_empty (v # vs) = (if v \<noteq> [] then v else first_non_empty vs)"

text \<open>
  Decoding one event: a member that is missing or \<open>null\<close> leaves the zero value, one of another type
  makes the whole event malformed.
\<close>

definition is_struct :: "json \<Rightarrow> bool" where
  "is_struct j = (case j of JObj _ \<Rightarrow> True | JNull \<Rightarrow> True | _ \<Rightarrow> False)"

definition decode_choice :: "json \<Rightarrow> (string \<times> string option) option" where
  "decode_choice j =
     (let delta = json_field ''delta'' j; reason = json_field ''finish_reason'' j
      in if \<not> is_struct j \<or> \<not> is_struct delta then None
         else case (as_string (json_field ''content'' delta), as_string reason) of
                (Some text, Some v) \<Rightarrow> Some (text, if reason = JNull then None else Some v)
              | _ \<Rightarrow> None)"

definition decode_usage :: "json \<Rightarrow> token_usage option option" where
  "decode_usage j =
     (case j of
        JNull \<Rightarrow> Some None
      | JObj _ \<Rightarrow>
          let details = json_field ''prompt_tokens_details'' j
          in if \<not> is_struct details then None
             else (case (as_int64 (json_field ''prompt_tokens'' j), as_int64 (json_field ''completion_tokens'' j),
                         as_int64 (json_field ''cached_tokens'' details)) of
                     (Some i, Some out, Some c) \<Rightarrow> Some (Some \<lparr>tu_input = i, tu_output = out, tu_cached = c\<rparr>)
                   | _ \<Rightarrow> None)
      | _ \<Rightarrow> None)"

definition decode_choices :: "json \<Rightarrow> (string \<times> string option) list option" where
  "decode_choices j =
     (case j of JNull \<Rightarrow> Some [] | JArr cs \<Rightarrow> all_some (map decode_choice cs) | _ \<Rightarrow> None)"

definition decode_event :: "string \<Rightarrow> json \<Rightarrow> chunk option" where
  "decode_event request_id j =
     (if \<not> is_struct j then None
      else case (as_string (json_field ''id'' j), as_string (json_field ''model'' j),
                 decode_choices (json_field ''choices'' j), decode_usage (json_field ''usage'' j)) of
             (Some i, Some m, Some cs, Some u) \<Rightarrow>
               Some \<lparr>ch_text = (case cs of [] \<Rightarrow> [] | c # _ \<Rightarrow> fst c), ch_usage = u,
                     ch_finish = (case cs of [] \<Rightarrow> NoFinish
                                  | c # _ \<Rightarrow> (case snd c of None \<Rightarrow> NoFinish | Some v \<Rightarrow> normalize_finish v)),
                     ch_request_id = first_non_empty [i, request_id], ch_model = m\<rparr>
           | _ \<Rightarrow> None)"

text \<open>
  How a scan ends: with a line, with the end of the body, with an error of the scanner, with the
  error of the context, or with the deadline.
\<close>

datatype scan = ScanLine string | ScanEnd | ScanError error | ScanContext error | ScanTimeout

record openai_stream =
  os_request_id :: string
  os_received_first :: bool
  os_closed :: bool

definition scan_line :: "scan \<Rightarrow> openai_stream \<Rightarrow> (error + string) \<times> openai_stream" where
  "scan_line r s =
     (case r of
        ScanLine l \<Rightarrow> (Inr l, s)
      | ScanEnd \<Rightarrow> (Inl (normalize_error UnexpectedEOF), s\<lparr>os_closed := True\<rparr>)
      | ScanError e \<Rightarrow> (Inl (normalize_error e), s\<lparr>os_closed := True\<rparr>)
      | ScanContext e \<Rightarrow> (Inl e, s\<lparr>os_closed := True\<rparr>)
      | ScanTimeout \<Rightarrow> (Inl (ProviderError ''provider_timeout'' True 0 DeadlineExceeded), s\<lparr>os_closed := True\<rparr>))"

text \<open>The part of a line that is data: \<open>None\<close> for blank lines, comments and other fields.\<close>

definition event_data :: "string \<Rightarrow> string option" where
  "event_data l =
     (let line = trim_space l
      in if line = [] \<or> has_prefix line '':'' \<or> \<not> has_prefix line ''data:'' then None
         else Some (trim_space (drop 5 line)))"

text \<open>\<open>Next\<close> over the scans to come; \<open>None\<close> while it waits for the next one.\<close>

fun openai_next :: "scan list \<Rightarrow> openai_stream \<Rightarrow> ((error + chunk) \<times> openai_stream \<times> scan list) option" where
  "openai_next scans s =
     (if os_closed s then Some (Inl EndOfFile, s, scans)
      else case scans of
        [] \<Rightarrow> None
      | r # rest \<Rightarrow>
          (case scan_line r s of
             (Inl e, s1) \<Rightarrow> Some (Inl e, s1, rest)
           | (Inr l, s1) \<Rightarrow>
               (case event_data l of
                  None \<Rightarrow> openai_next rest s1
                | Some payload \<Rightarrow>
                    if payload = ''[DONE]'' then Some (Inl EndOfFile, s1\<lparr>os_closed := True\<rparr>, rest)
                    else (case Option.bind (parse_json payload) (decode_event (os_request_id s1)) of
                            None \<Rightarrow> Some (Inl (ProviderError ''provider_malformed_response'' False 0
                                             (Msg ''json'')), s1, rest)
                          | Some c \<Rightarrow>
                              if ch_text c \<noteq> [] \<or> ch_usage c \<noteq> None \<or> ch_finish c \<noteq> NoFinish
                              then Some (Inr c, s1\<lparr>os_received_first := True\<rparr>, rest)
                              else openai_next rest s1))))"

declare openai_next.simps [simp del]

definition openai_close :: "openai_stream \<Rightarrow> openai_stream" where
  "openai_close s = s\<lparr>os_closed := True\<rparr>"

definition decode_catalog :: "json \<Rightarrow> upstream_model list option" where
  "decode_catalog j =
     (if \<not> is_struct j then None
      else case json_field ''data'' j of
             JNull \<Rightarrow> Some []
           | JArr xs \<Rightarrow>
               map_option (\<lambda>ids. map (\<lambda>i. \<lparr>up_id = i, up_context_window = 0, up_max_output = 0, up_chat = True\<rparr>)
                   (filter (\<lambda>i. i \<noteq> []) ids))
                 (all_some (map (\<lambda>x. if is_struct x then as_string (json_field ''id'' x) else None) xs))
           | _ \<Rightarrow> None)"

text \<open>\<open>Catalog\<close> and the checks of \<open>Stream\<close>, given what the HTTP client answered.\<close>

definition openai_catalog :: "error + int \<times> string \<Rightarrow> error + upstream_model list" where
  "openai_catalog answer =
     (case answer of
        Inl e \<Rightarrow> Inl (normalize_error e)
      | Inr (status, text) \<Rightarrow>
          if status < 200 \<or> 300 \<le> status then Inl (response_error status)
          else (case Option.bind (parse_json text) decode_catalog of
                  None \<Rightarrow> Inl (ProviderError ''provider_malformed_response'' False 0 (Msg ''json''))
                | Some ms \<Rightarrow> Inr ms))"

definition openai_open ::
  "provider_request \<Rightarrow> error + int \<times> string \<times> string \<Rightarrow> error + openai_stream" where
  "openai_open q answer =
     bindS (validate_request q) (\<lambda>_.
     case answer of
       Inl e \<Rightarrow> Inl (normalize_error e)
     | Inr (status, content_type, request_id) \<Rightarrow>
         if status < 200 \<or> 300 \<le> status then Inl (response_error status)
         else if \<not> has_prefix (to_lower content_type) ''text/event-stream''
         then Inl (ProviderError ''provider_malformed_response'' False 0
                (Msg ''provider response is not an event stream''))
         else Inr \<lparr>os_request_id = request_id, os_received_first = False, os_closed = False\<rparr>)"

section \<open>The gateway in use\<close>

inductive gateway_step :: "resilient \<Rightarrow> resilient \<Rightarrow> bool" where
  catalog: "gateway_step g (snd (guarded t (answer :: error + upstream_model list) g))"
| health: "gateway_step g (snd (guarded t (alive :: error + unit) g))"
| opens: "open_stream t ctx answers g = Some (r, g') \<Longrightarrow> gateway_step g g'"
| advance: "gateway_step g (snd (stream_next t i answer g))"
| close: "gateway_step g (stream_close i g)"

inductive gateway_reach :: "resilience_options \<Rightarrow> resilient \<Rightarrow> bool" for o' where
  start: "gateway_reach o' (new_resilient o')"
| step: "gateway_reach o' g \<Longrightarrow> gateway_step g g' \<Longrightarrow> gateway_reach o' g'"

definition open_streams :: "resilient \<Rightarrow> nat" where
  "open_streams g = count_rows (\<lambda>released. \<not> released) (rs_streams g)"

definition slots_ok :: "resilient \<Rightarrow> bool" where
  "slots_ok g \<longleftrightarrow> rs_slots g = open_streams g \<and> int (rs_slots g) \<le> ro_max_concurrent (rs_options g)
     \<and> 0 < ro_max_concurrent (rs_options g)"

lemma observe_simps [simp]:
  "rs_slots (observe t r g) = rs_slots g" "rs_streams (observe t r g) = rs_streams g"
  "rs_options (observe t r g) = rs_options g"
  by (auto simp: observe_def Let_def split: option.split)

lemma is_open_simps [simp]:
  "rs_slots (snd (is_open t g)) = rs_slots g" "rs_streams (snd (is_open t g)) = rs_streams g"
  "rs_options (snd (is_open t g)) = rs_options g"
  by (auto simp: is_open_def split: option.split)

lemma is_open_same: "is_open t g = (b, g1) \<Longrightarrow>
    rs_slots g1 = rs_slots g \<and> rs_streams g1 = rs_streams g \<and> rs_options g1 = rs_options g"
  using is_open_simps [of t g] by simp

lemma slots_ok_cong: "rs_slots g' = rs_slots g \<Longrightarrow> rs_streams g' = rs_streams g \<Longrightarrow>
    rs_options g' = rs_options g \<Longrightarrow> slots_ok g' = slots_ok g"
  by (simp add: slots_ok_def open_streams_def)

lemma open_streams_release:
  "i < length bs \<Longrightarrow> \<not> bs ! i \<Longrightarrow>
   count_rows (\<lambda>r. \<not> r) bs = Suc (count_rows (\<lambda>r. \<not> r) (bs[i := True]))"
proof (induction bs arbitrary: i)
  case (Cons b bs)
  then show ?case by (cases i) (simp_all add: table_simps)
qed simp

lemma slots_ok_release: "slots_ok g \<Longrightarrow> slots_ok (release_once i g)"
  using open_streams_release [of i "rs_streams g"]
  by (auto simp: release_once_def slots_ok_def open_streams_def)

lemma slots_ok_open:
  assumes "open_stream t ctx answers g = Some (r, g')" and "slots_ok g"
  shows "slots_ok g'"
proof -
  obtain b g1 where o1: "is_open t g = (b, g1)" by fastforce
  have ok1: "slots_ok g1"
    using is_open_simps [of t g] o1 assms(2) slots_ok_cong [of g1 g] by simp
  show ?thesis
    using assms(1) o1 ok1
    by (auto simp: open_stream_def Let_def slots_ok_def open_streams_def table_simps
        split: if_splits option.splits sum.splits bool.splits)
qed

lemma slots_ok_guarded: "slots_ok g \<Longrightarrow> slots_ok (snd (guarded t answer g))"
  by (auto simp: guarded_def slots_ok_def open_streams_def split: prod.split bool.split sum.split
      dest!: is_open_same)

lemma gateway_step_slots: "gateway_step g g' \<Longrightarrow> slots_ok g \<Longrightarrow> slots_ok g'"
proof (induction rule: gateway_step.induct)
  case (catalog g t answer)
  then show ?case by (rule slots_ok_guarded)
next
  case (health g t alive)
  then show ?case by (rule slots_ok_guarded)
next
  case (opens t ctx answers g r g')
  then show ?case by (rule slots_ok_open)
next
  case (advance g t i answer)
  then show ?case
    by (auto simp: stream_next_def split: sum.split intro!: slots_ok_release
        simp: slots_ok_cong [of "observe _ _ g" g])
next
  case (close g i)
  then show ?case by (simp add: stream_close_def slots_ok_release)
qed

text \<open>C25: in every reachable state of the gateway the slots taken are the streams that were handed
  out and not released yet, so no more streams run at once than the options allow, whatever the
  provider answers and however often a stream is closed.\<close>
theorem slots_invariant:
  assumes "gateway_reach o' g"
  shows "rs_slots g = open_streams g \<and> int (open_streams g) \<le> ro_max_concurrent (rs_options g)"
proof -
  have "slots_ok g"
    using assms
  proof (induction rule: gateway_reach.induct)
    case start
    show ?case
      by (auto simp: slots_ok_def open_streams_def new_resilient_def default_resilience_def table_simps)
  next
    case (step g g')
    then show ?case using gateway_step_slots by blast
  qed
  then show ?thesis by (simp add: slots_ok_def)
qed

subsection \<open>The breaker\<close>




lemma attempts_ok [simp]: "attempts n (\<lambda>_. Inr u) i = Inr u"
  by (cases n) simp_all

text \<open>One request whose stream connects and then breaks.\<close>

definition broken_stream :: "error \<Rightarrow> time \<Rightarrow> resilient \<Rightarrow> resilient" where
  "broken_stream e t g =
     (case open_stream t None (\<lambda>_. Inr ()) g of
        Some (Inr i, g1) \<Rightarrow> snd (stream_next t i (Inl e) g1)
      | Some (Inl _, g1) \<Rightarrow> g1
      | None \<Rightarrow> g)"

text \<open>The breaker does not see streams that break after they connected: connecting resets the
  count of failures, so with a limit of two or more it never opens, however many streams in a row
  break.\<close>
theorem breaker_blind_to_broken_streams:
  assumes "rs_open_until g = None" and "rs_failures g \<le> 1" and "2 \<le> ro_failure_limit (rs_options g)"
  shows "rs_open_until (fold (broken_stream e) ts g) = None \<and> rs_failures (fold (broken_stream e) ts g) \<le> 1"
  using assms
proof (induction ts arbitrary: g)
  case (Cons t ts)
  have "rs_open_until (broken_stream e t g) = None \<and> rs_failures (broken_stream e t g) \<le> 1
      \<and> rs_options (broken_stream e t g) = rs_options g"
    using Cons.prems
    by (auto simp: broken_stream_def open_stream_def is_open_def observe_def Let_def stream_next_def
        release_once_def split: option.splits sum.splits)
  then show ?case using Cons.IH Cons.prems(3) by simp
qed simp

section \<open>Reading streams to their end\<close>

lemma openai_next_shrinks:
  "openai_next scans s = Some (Inr c, s1, rest) \<Longrightarrow> length rest < length scans"
proof (induction scans s rule: openai_next.induct)
  case (1 scans s)
  show ?case
  proof (cases scans)
    case Nil
    with "1.prems" show ?thesis by (auto simp: openai_next.simps [of "[]" s] split: if_splits)
  next
    case (Cons r more)
    note IH = "1.IH" [OF _ Cons] and prems = "1.prems" [unfolded Cons openai_next.simps [of "r # more" s]]
    from prems IH show ?thesis
      by (auto simp: Cons split: if_splits prod.splits sum.splits option.splits) (fastforce dest: less_SucI)+
  qed
qed

text \<open>A client that reads until an error; the second result is \<open>None\<close> while the stream waits.\<close>

function openai_drain :: "scan list \<Rightarrow> openai_stream \<Rightarrow> chunk list \<times> error option" where
  "openai_drain scans s =
     (case openai_next scans s of
        None \<Rightarrow> ([], None)
      | Some (Inl e, s1, rest) \<Rightarrow> ([], Some e)
      | Some (Inr c, s1, rest) \<Rightarrow> (case openai_drain rest s1 of (cs, r) \<Rightarrow> (c # cs, r)))"
  by pat_completeness auto
termination
  by (relation "measure (\<lambda>(scans, s). length scans)") (auto dest: openai_next_shrinks)

declare openai_drain.simps [simp del]

definition malformed :: error where
  "malformed = ProviderError ''provider_malformed_response'' False 0 (Msg ''json'')"

definition silent :: "chunk \<Rightarrow> bool" where
  "silent c \<longleftrightarrow> ch_text c = [] \<and> ch_usage c = None \<and> ch_finish c = NoFinish"

text \<open>What the payloads of the events mean, read one by one.\<close>

fun events_spec :: "string \<Rightarrow> string list \<Rightarrow> chunk list \<times> error" where
  "events_spec rid [] = ([], normalize_error UnexpectedEOF)"
| "events_spec rid (p # ps) =
     (if p = ''[DONE]'' then ([], EndOfFile)
      else case Option.bind (parse_json p) (decode_event rid) of
             None \<Rightarrow> ([], malformed)
           | Some c \<Rightarrow> (case events_spec rid ps of (cs, e) \<Rightarrow> (if silent c then cs else c # cs, e)))"

lemma drain_cong: "openai_next scans s = openai_next scans' s' \<Longrightarrow> openai_drain scans s = openai_drain scans' s'"
  by (simp add: openai_drain.simps [of scans s] openai_drain.simps [of scans' s'])

lemma next_skip: "\<not> os_closed s \<Longrightarrow> event_data l = None \<Longrightarrow> openai_next (ScanLine l # rest) s = openai_next rest s"
  by (simp add: openai_next.simps [of "ScanLine l # rest"] scan_line_def)

lemma next_event:
  "\<not> os_closed s \<Longrightarrow> event_data l = Some p \<Longrightarrow> p \<noteq> ''[DONE]'' \<Longrightarrow>
   Option.bind (parse_json p) (decode_event (os_request_id s)) = Some c \<Longrightarrow>
   openai_next (ScanLine l # rest) s =
     (if silent c then openai_next rest s else Some (Inr c, s\<lparr>os_received_first := True\<rparr>, rest))"
  by (auto simp: openai_next.simps [of "ScanLine l # rest"] scan_line_def silent_def)

lemma drain_stop:
  assumes "\<not> os_closed s" and "event_data l = Some p"
    and "p = ''[DONE]'' \<or> Option.bind (parse_json p) (decode_event (os_request_id s)) = None"
  shows "openai_drain (ScanLine l # rest) s = ([], Some (if p = ''[DONE]'' then EndOfFile else malformed))"
proof -
  obtain s' where "openai_next (ScanLine l # rest) s =
      Some (Inl (if p = ''[DONE]'' then EndOfFile else malformed), s', rest)"
  proof (cases "p = ''[DONE]''")
    case True
    show ?thesis
      by (rule that [of "s\<lparr>os_closed := True\<rparr>"])
        (use True assms in \<open>simp add: openai_next.simps [of "ScanLine l # rest"] scan_line_def\<close>)
  next
    case False
    show ?thesis
      by (rule that [of s])
        (use False assms in \<open>simp add: openai_next.simps [of "ScanLine l # rest"] scan_line_def malformed_def\<close>)
  qed
  then show ?thesis by (simp add: openai_drain.simps [of "ScanLine l # rest"])
qed

text \<open>C34: reading a stream to its end gives what the events mean: the chunks of the data lines in
  order, without the silent ones, up to \<open>[DONE]\<close> (end of file), the first malformed event, or the
  end of the body (an unexpected end); blank lines, comments and other fields change nothing.\<close>
theorem openai_stream_equivalence:
  assumes "\<not> os_closed s"
  shows "openai_drain (map ScanLine ls @ [ScanEnd]) s =
     apsnd Some (events_spec (os_request_id s) (List.map_filter event_data ls))"
  using assms
proof (induction ls arbitrary: s)
  case Nil
  then show ?case
    by (simp add: openai_drain.simps openai_next.simps scan_line_def List.map_filter_simps)
next
  case (Cons l ls)
  let ?rest = "map ScanLine ls @ [ScanEnd]"
  show ?case
  proof (cases "event_data l")
    case None
    have "openai_drain (ScanLine l # ?rest) s = openai_drain ?rest s"
      by (rule drain_cong) (rule next_skip [OF Cons.prems None])
    with None Cons.IH [OF Cons.prems] show ?thesis
      by (simp add: List.map_filter_simps)
  next
    case (Some p)
    show ?thesis
    proof (cases "p = ''[DONE]'' \<or> Option.bind (parse_json p) (decode_event (os_request_id s)) = None")
      case True
      from drain_stop [OF Cons.prems Some True] have
        "openai_drain (map ScanLine (l # ls) @ [ScanEnd]) s =
           ([], Some (if p = ''[DONE]'' then EndOfFile else malformed))" by simp
      moreover have "events_spec (os_request_id s) (List.map_filter event_data (l # ls)) =
          ([], if p = ''[DONE]'' then EndOfFile else malformed)"
        using True Some by (auto simp: List.map_filter_simps)
      ultimately show ?thesis by simp
    next
      case False
      then obtain c where c: "Option.bind (parse_json p) (decode_event (os_request_id s)) = Some c" by auto
      have "openai_drain (ScanLine l # ?rest) s =
          (if silent c then openai_drain ?rest s
           else (case openai_drain ?rest (s\<lparr>os_received_first := True\<rparr>) of (cs, r) \<Rightarrow> (c # cs, r)))"
        using next_event [OF Cons.prems Some _ c, of ?rest] False
        by (auto simp: openai_drain.simps [of "ScanLine l # ?rest"] openai_drain.simps [of ?rest s])
      then show ?thesis
        using Cons.IH [of s] Cons.IH [of "s\<lparr>os_received_first := True\<rparr>"] Cons.prems False Some c
        by (simp add: List.map_filter_simps split: prod.split)
    qed
  qed
qed

fun fake_run :: "nat \<Rightarrow> fake_stream \<Rightarrow> (error + chunk) list" where
  "fake_run 0 s = []"
| "fake_run (Suc n) s = (case fake_next None s of (r, s') \<Rightarrow> r # fake_run n s')"

lemma fake_run_chunks:
  assumes "\<not> fk_closed s" and "fo_fail_after (fk_options s) \<le> 0"
    and "fk_index s + n = length (fo_chunks (fk_options s))"
  shows "fake_run (n + m) s = map (\<lambda>t. Inr (empty_chunk\<lparr>ch_text := t, ch_model := fk_model s\<rparr>))
       (drop (fk_index s) (fo_chunks (fk_options s)))
     @ fake_run m (s\<lparr>fk_index := length (fo_chunks (fk_options s))\<rparr>)"
  using assms
proof (induction n arbitrary: s)
  case (Suc n)
  then have lt: "fk_index s < length (fo_chunks (fk_options s))" by simp
  with Suc show ?case
    by (simp add: fake_next_def Cons_nth_drop_Suc [symmetric])
next
  case 0
  then have same: "s\<lparr>fk_index := length (fo_chunks (fk_options s))\<rparr> = s" by (cases s) simp
  show ?case unfolding same using 0 by simp
qed

text \<open>The deterministic provider's stream: its chunks in order, then one chunk with the usage
  and the reason \<open>stop\<close>, its output within the request's limit, then the end of the stream for
  ever.\<close>
theorem fake_transcript:
  assumes "fake_open o' q = Inr s" and "fo_fail_after o' \<le> 0"
  shows "\<exists>u. fake_run (length (fo_chunks o') + 2 + k) s =
       map (\<lambda>t. Inr (empty_chunk\<lparr>ch_text := t, ch_model := prq_model q\<rparr>)) (fo_chunks o')
       @ Inr (empty_chunk\<lparr>ch_usage := Some u, ch_finish := FinishStop, ch_model := prq_model q,
                          ch_request_id := ''fake-request''\<rparr>)
       # replicate (k + 1) (Inl EndOfFile)
     \<and> tu_output u \<le> prq_max_tokens q"
proof -
  have s: "s = \<lparr>fk_options = o', fk_model = prq_model q, fk_max_tokens = prq_max_tokens q, fk_index = 0,
      fk_closed = False\<rparr>"
    using assms(1) by (auto simp: fake_open_def elim!: op_elims)
  have ended: "fake_run n x = replicate n (Inl EndOfFile)" if "fk_closed x" for n x
    using that by (induction n) (simp_all add: fake_next_def)
  have "fake_run (length (fo_chunks o') + (2 + k)) s =
      map (\<lambda>t. Inr (empty_chunk\<lparr>ch_text := t, ch_model := prq_model q\<rparr>)) (fo_chunks o')
      @ fake_run (2 + k) (s\<lparr>fk_index := length (fo_chunks o')\<rparr>)"
    using fake_run_chunks [of s "length (fo_chunks o')" "2 + k"] assms(2) by (simp add: s)
  moreover have "fake_run (2 + k) (s\<lparr>fk_index := length (fo_chunks o')\<rparr>) =
      Inr (empty_chunk\<lparr>ch_usage := Some (if prq_max_tokens q < tu_output (fo_usage o')
             then (fo_usage o')\<lparr>tu_output := prq_max_tokens q\<rparr> else fo_usage o'),
           ch_finish := FinishStop, ch_model := prq_model q, ch_request_id := ''fake-request''\<rparr>)
      # replicate (k + 1) (Inl EndOfFile)"
    using assms(2) by (simp add: s fake_next_def ended numeral_2_eq_2 Let_def)
  ultimately show ?thesis
    by (intro exI [of _ "if prq_max_tokens q < tu_output (fo_usage o')
             then (fo_usage o')\<lparr>tu_output := prq_max_tokens q\<rparr> else fo_usage o'"]) (simp add: add.assoc)
qed

section \<open>Examples\<close>

theorem slots_invariant_witness:
  "rs_slots (snd (the (open_stream 0 None (\<lambda>_. Inr ()) (new_resilient default_resilience)))) =
   open_streams (snd (the (open_stream 0 None (\<lambda>_. Inr ()) (new_resilient default_resilience))))"
proof -
  have "open_stream 0 None (\<lambda>_. Inr ()) (new_resilient default_resilience) \<noteq> None"
    by (simp add: open_stream_def is_open_def new_resilient_def default_resilience_def Let_def)
  then have "gateway_step (new_resilient default_resilience)
      (snd (the (open_stream 0 None (\<lambda>_. Inr ()) (new_resilient default_resilience))))"
    by (metis gateway_step.opens option.collapse prod.collapse)
  from slots_invariant [OF gateway_reach.step [OF gateway_reach.start this]] show ?thesis by simp
qed


theorem breaker_blind_to_broken_streams_witness:
  "rs_open_until (fold (broken_stream UnexpectedEOF) [1, 2, 3, 4, 5, 6, 7, 8]
     (new_resilient default_resilience)) = None"
  using breaker_blind_to_broken_streams [of "new_resilient default_resilience" UnexpectedEOF
      "[1, 2, 3, 4, 5, 6, 7, 8]"]
  by (simp add: new_resilient_def default_resilience_def)

theorem openai_stream_equivalence_witness:
  "openai_drain [ScanLine '': ping'', ScanLine ''data: [DONE]'', ScanLine ''data: x'', ScanEnd]
     \<lparr>os_request_id = ''r'', os_received_first = False, os_closed = False\<rparr> = ([], Some EndOfFile)"
  using openai_stream_equivalence [of "\<lparr>os_request_id = ''r'', os_received_first = False, os_closed = False\<rparr>"
      "['': ping'', ''data: [DONE]'', ''data: x'']"]
  by (simp add: List.map_filter_simps event_data_def trim_space_def decode_runes_ascii is_space_def Let_def)

theorem fake_transcript_witness:
  "\<exists>u. fake_run 3 \<lparr>fk_options = \<lparr>fo_models = [], fo_chunks = [''hi''], fo_fail_after = 0,
       fo_usage = \<lparr>tu_input = 8, tu_output = 6, tu_cached = 0\<rparr>\<rparr>, fk_model = ''m'', fk_max_tokens = 4,
       fk_index = 0, fk_closed = False\<rparr> =
     [Inr (empty_chunk\<lparr>ch_text := ''hi'', ch_model := ''m''\<rparr>),
      Inr (empty_chunk\<lparr>ch_usage := Some u, ch_finish := FinishStop, ch_model := ''m'',
             ch_request_id := ''fake-request''\<rparr>), Inl EndOfFile] \<and> tu_output u \<le> 4"
proof -
  let ?o = "\<lparr>fo_models = [], fo_chunks = [''hi''], fo_fail_after = 0,
       fo_usage = \<lparr>tu_input = 8, tu_output = 6, tu_cached = 0\<rparr>\<rparr>"
  let ?q = "\<lparr>prq_model = ''m'', prq_messages = [\<lparr>cm_role = ''user'', cm_content = ''x''\<rparr>], prq_max_tokens = 4\<rparr>"
  have "fake_open ?o ?q = Inr \<lparr>fk_options = ?o, fk_model = ''m'', fk_max_tokens = 4, fk_index = 0, fk_closed = False\<rparr>"
    by (simp add: fake_open_def validate_request_def)
  from fake_transcript [OF this, of 0] show ?thesis
    by (simp add: numeral_3_eq_3)
qed

end
