(* ===== verification/Sync.thy ===== *)
theory Sync
  imports Catalog Users Gateway
begin

text \<open>
  \<open>internal/models/synchronizer.go\<close> and its queries in \<open>store/models.sql.go\<close>: the catalog of a
  provider is taken over into the mappings and models of the database in one transaction, with an
  audit entry for every model found and every availability that changed. The tables of Unicode
  (letters, digits, case) and SHA-256 are the parameter \<open>text_tables\<close>.
\<close>

record text_tables =
  tt_lower :: "string \<Rightarrow> string"
  tt_upper :: "string \<Rightarrow> string"
  tt_letter :: "nat \<Rightarrow> bool"
  tt_digit :: "nat \<Rightarrow> bool"
  tt_hex_sha256 :: "string \<Rightarrow> string"

section \<open>Queries\<close>

definition get_provider_by_code :: "string \<Rightarrow> database \<Rightarrow> error + provider_row" where
  "get_provider_by_code code d =
     (case find (\<lambda>p. prv_code p = code) (providers d) of None \<Rightarrow> Inl NoRows | Some p \<Rightarrow> Inr p)"

definition list_provider_model_mappings :: "uuid \<Rightarrow> database \<Rightarrow> error + mapping_row list" where
  "list_provider_model_mappings p d =
     Inr (sort_key (\<lambda>m. (pm_upstream_id m, pm_model_id m))
       (filter (\<lambda>m. pm_provider_id m = p) (provider_models d)))"

definition get_model_by_slug :: "string \<Rightarrow> database \<Rightarrow> error + model_row" where
  "get_model_by_slug slug d =
     (case find (\<lambda>m. mdl_slug m = slug) (models d) of None \<Rightarrow> Inl NoRows | Some m \<Rightarrow> Inr m)"

text \<open>\<open>^[a-z0-9][a-z0-9._-]{1,127}$\<close>: \<open>validModelSlug\<close> and the CHECK of \<open>models.slug\<close>.\<close>

definition slug_start :: "char \<Rightarrow> bool" where
  "slug_start c \<longleftrightarrow> byte CHR ''a'' \<le> byte c \<and> byte c \<le> byte CHR ''z''
     \<or> byte CHR ''0'' \<le> byte c \<and> byte c \<le> byte CHR ''9''"

definition slug_char :: "char \<Rightarrow> bool" where
  "slug_char c \<longleftrightarrow> slug_start c \<or> c = CHR ''.'' \<or> c = CHR ''_'' \<or> c = CHR ''-''"

definition valid_slug :: "string \<Rightarrow> bool" where
  "valid_slug s = (case s of [] \<Rightarrow> False
     | c # cs \<Rightarrow> slug_start c \<and> list_all slug_char cs \<and> 1 \<le> length cs \<and> length cs \<le> 127)"

abbreviation invalid_text :: error where
  "invalid_text \<equiv> PgError ''22021'' ''invalid byte sequence for encoding UTF8''"

definition create_discovered_model ::
  "uuid \<Rightarrow> string \<Rightarrow> string \<Rightarrow> int \<Rightarrow> int \<Rightarrow> json \<Rightarrow> int \<Rightarrow> database \<Rightarrow> error + model_row \<times> database" where
  "create_discovered_model i slug name window output caps order d =
     (let m = \<lparr>mdl_id = i, mdl_slug = slug, mdl_name = name,
               mdl_description = ''Discovered from the configured LLM provider.'',
               mdl_context_window = window, mdl_max_output = output, mdl_capabilities = caps,
               mdl_enabled = False, mdl_available = False, mdl_supported = True,
               mdl_audience = [''user''], mdl_default_for = [], mdl_sort_order = order, mdl_version = 1\<rparr>
      in if \<not> valid_utf8 slug \<or> \<not> valid_utf8 name then Inl invalid_text
         else if \<not> valid_slug slug then Inl (check_violation ''models_slug_check'')
         else if rune_count name < 1 \<or> 120 < rune_count name then Inl (check_violation ''models_name_check'')
         else if window < 1024 \<or> 10000000 < window then Inl (check_violation ''models_context_window_check'')
         else if output < 1 \<or> window < output then Inl (check_violation ''models_check'')
         else if order < 0 then Inl (check_violation ''models_sort_order_check'')
         else if list_ex (\<lambda>r. mdl_id r = i) (models d) then Inl (unique_violation ''models_pkey'')
         else if list_ex (\<lambda>r. mdl_slug r = slug) (models d) then Inl (unique_violation ''models_slug_key'')
         else Inr (m, d\<lparr>models := models d @ [m]\<rparr>))"

definition upsert_provider_model ::
  "uuid \<Rightarrow> uuid \<Rightarrow> string \<Rightarrow> json \<Rightarrow> time \<Rightarrow> database \<Rightarrow> error + unit \<times> database" where
  "upsert_provider_model p m upstream meta t d =
     (let key = (\<lambda>r. pm_provider_id r = p \<and> pm_model_id r = m);
          clash = list_ex (\<lambda>r. pm_provider_id r = p \<and> pm_upstream_id r = upstream \<and> pm_model_id r \<noteq> m)
                    (provider_models d);
          row = \<lparr>pm_provider_id = p, pm_model_id = m, pm_upstream_id = upstream, pm_available = True,
                 pm_metadata = meta, pm_synced_at = t\<rparr>
      in if rune_count upstream < 1 \<or> 200 < rune_count upstream
         then Inl (check_violation ''provider_models_provider_model_id_check'')
         else if clash then Inl (unique_violation ''provider_models_provider_id_provider_model_id_key'')
         else if list_ex key (provider_models d)
         then Inr ((), d\<lparr>provider_models := upd_rows key (\<lambda>_. row) (provider_models d)\<rparr>)
         else if \<not> list_ex (\<lambda>r. prv_id r = p) (providers d) \<or> \<not> list_ex (\<lambda>r. mdl_id r = m) (models d)
         then Inl (foreign_key_violation ''provider_models_fkey'')
         else Inr ((), d\<lparr>provider_models := provider_models d @ [row]\<rparr>))"

definition mark_provider_models_unavailable ::
  "uuid \<Rightarrow> string list \<Rightarrow> time \<Rightarrow> database \<Rightarrow> error + unit \<times> database" where
  "mark_provider_models_unavailable p present t d =
     Inr ((), d\<lparr>provider_models := upd_rows (\<lambda>r. pm_provider_id r = p \<and> pm_upstream_id r \<notin> set present)
       (\<lambda>r. r\<lparr>pm_available := False, pm_synced_at := t\<rparr>) (provider_models d)\<rparr>)"

text \<open>The \<open>EXISTS\<close> of \<open>RefreshModelAvailability\<close>, which does not ask for the provider's health.\<close>

definition mapped_enabled :: "database \<Rightarrow> uuid \<Rightarrow> bool" where
  "mapped_enabled d m = list_ex (\<lambda>pm. pm_model_id pm = m \<and> pm_available pm
     \<and> list_ex (\<lambda>p. prv_id p = pm_provider_id pm \<and> prv_enabled p) (providers d)) (provider_models d)"

definition refresh_model_availability :: "database \<Rightarrow> error + int \<times> database" where
  "refresh_model_availability d =
     (let hit = (\<lambda>m. mdl_available m \<noteq> mapped_enabled d (mdl_id m))
      in if list_ex (\<lambda>m. hit m \<and> mdl_version m + 1 \<ge> 2 ^ 31) (models d) then Inl out_of_range
         else Inr (int (count_rows hit (models d)), d\<lparr>models := upd_rows hit
           (\<lambda>m. m\<lparr>mdl_available := mapped_enabled d (mdl_id m), mdl_version := mdl_version m + 1\<rparr>)
           (models d)\<rparr>))"

section \<open>Names\<close>

definition model_slug :: "text_tables \<Rightarrow> string \<Rightarrow> string" where
  "model_slug T upstream =
     (let normalized = tt_lower T (trim_space upstream) in
      if valid_slug normalized then normalized
      else
        let mapped = concat (map (\<lambda>(r, bs).
              if tt_letter T r \<or> tt_digit T r \<or> r \<in> {46, 95, 45} then encode_rune r else ''-'')
              (decode_runes normalized));
            base = take 100 (trim_chars ''-._'' mapped);
            base = (if base = [] then ''model'' else base)
        in ''model-'' @ base @ ''-'' @ take 12 (tt_hex_sha256 T upstream))"

definition display_word :: "text_tables \<Rightarrow> string \<Rightarrow> string" where
  "display_word T w =
     (let lower = tt_lower T w in
      if lower = ''glm'' then ''GLM'' else if lower = ''qwen'' then ''Qwen''
      else if lower = ''deepseek'' then ''DeepSeek'' else if lower = ''kimi'' then ''Kimi''
      else if lower = ''minimax'' then ''MiniMax'' else if lower = ''mimo'' then ''MiMo''
      else if w = [] then w else tt_upper T (take 1 w) @ drop 1 w)"

definition model_display_name :: "text_tables \<Rightarrow> string \<Rightarrow> string" where
  "model_display_name T upstream =
     (let ws = fields_func (\<lambda>c. c = CHR ''-'' \<or> c = CHR ''_'' \<or> c = CHR ''/'') upstream
      in if ws = [] then ''Discovered model'' else join '' '' (map (display_word T) ws))"

section \<open>The synchronizer\<close>

record sync_result =
  sy_discovered :: int
  sy_mapped :: int
  sy_ignored :: int
  sy_changed :: int

definition audit_entry ::
  "uuid \<Rightarrow> string \<Rightarrow> string \<Rightarrow> json option \<Rightarrow> json option \<Rightarrow> string \<Rightarrow> time \<Rightarrow> audit_row" where
  "audit_entry i action target before after request t =
     \<lparr>aud_id = i, aud_actor = None, aud_action = action, aud_target_type = ''model'',
      aud_target_id = target, aud_before = before, aud_after = after,
      aud_request_id = nullable_string request, aud_occurred_at = t\<rparr>"

definition audit_discovery :: "model_row \<Rightarrow> string \<Rightarrow> string \<Rightarrow> (world, unit) op" where
  "audit_discovery m upstream request =
     bindE ids_new (\<lambda>i.
     bindE clock_now (\<lambda>t.
     wrap_err ''audit discovered model'' (db_exec (insert_admin_audit
       (audit_entry i ''model.discovered'' (uuid_string (mdl_id m)) None
         (Some (JObj [(''enabled'', JBool False), (''name'', JStr (mdl_name m)),
                      (''providerModelId'', JStr upstream)])) request t)))))"

definition discovered_window :: "int \<Rightarrow> int" where
  "discovered_window n = (let w = int32 n in if w < 1024 then 131072 else w)"

definition discovered_output :: "int \<Rightarrow> int \<Rightarrow> int" where
  "discovered_output n window =
     (let k = int32 n in if k < 1 \<or> window < k then min 8192 window else k)"

definition discover_model ::
  "text_tables \<Rightarrow> upstream_model \<Rightarrow> int \<Rightarrow> string \<Rightarrow> (world, model_row) op" where
  "discover_model T upstream order request =
     (let slug = model_slug T (up_id upstream) in
      bindE (attempt (db_read (get_model_by_slug slug))) (\<lambda>r.
      case r of
        Inr m \<Rightarrow> ok m
      | Inl e \<Rightarrow>
          if \<not> errors_is e NoRows then fail (Wrap ''find discovered model'' e)
          else
            bindE ids_new (\<lambda>i.
            let window = discovered_window (up_context_window upstream);
                output = discovered_output (up_max_output upstream) window in
            bindE (wrap_err ''create discovered model'' (db_exec (create_discovered_model i slug
              (model_display_name T (up_id upstream)) window output
              (JObj [(''chatCompletions'', JBool True), (''code'', JBool True), (''markdown'', JBool True)])
              order))) (\<lambda>m.
            bindE (audit_discovery m (up_id upstream) request) (\<lambda>_. ok m)))))"

text \<open>The map \<open>discovered\<close> by its keys in order: the last item of the catalog with an id counts.\<close>

definition usable :: "upstream_model \<Rightarrow> bool" where
  "usable m \<longleftrightarrow> up_id m \<noteq> [] \<and> up_chat m"

definition discovered_models :: "upstream_model list \<Rightarrow> upstream_model list" where
  "discovered_models catalog =
     map (\<lambda>i. the (find (\<lambda>m. up_id m = i) (rev (filter usable catalog))))
       (sort (remdups (map up_id (filter usable catalog))))"

definition sync_metadata :: "upstream_model \<Rightarrow> json" where
  "sync_metadata m = JObj [(''chatCompletions'', JBool (up_chat m)),
     (''contextWindow'', JInt (up_context_window m)), (''maxOutputTokens'', JInt (up_max_output m))]"

definition sync_one ::
  "text_tables \<Rightarrow> provider_row \<Rightarrow> mapping_row list \<Rightarrow> time \<Rightarrow> string \<Rightarrow> nat \<Rightarrow> upstream_model \<Rightarrow> (world, unit) op"
where
  "sync_one T p before t request index upstream =
     bindE (case find (\<lambda>m. pm_upstream_id m = up_id upstream) (rev before) of
              Some m \<Rightarrow> ok (pm_model_id m)
            | None \<Rightarrow> bindE (discover_model T upstream (int32 (int index + 100)) request) (\<lambda>m. ok (mdl_id m)))
       (\<lambda>model.
     wrap_err ''refresh provider mapping'' (db_exec (upsert_provider_model (prv_id p) model (up_id upstream)
       (sync_metadata upstream) t)))"

fun sync_each ::
  "text_tables \<Rightarrow> provider_row \<Rightarrow> mapping_row list \<Rightarrow> time \<Rightarrow> string \<Rightarrow> nat \<Rightarrow> upstream_model list \<Rightarrow> (world, unit) op"
where
  "sync_each T p before t request index [] = ok ()"
| "sync_each T p before t request index (m # ms) =
     bindE (sync_one T p before t request index m) (\<lambda>_. sync_each T p before t request (index + 1) ms)"

definition audit_change :: "mapping_row \<Rightarrow> mapping_row \<Rightarrow> string \<Rightarrow> (world, unit) op" where
  "audit_change b m request =
     bindE ids_new (\<lambda>i.
     bindE clock_now (\<lambda>t.
     wrap_err ''audit provider mapping'' (db_exec (insert_admin_audit
       (audit_entry i ''model.provider_availability_changed'' (uuid_string (pm_model_id m))
         (Some (JObj [(''available'', JBool (pm_available b))]))
         (Some (JObj [(''available'', JBool (pm_available m))])) request t)))))"

fun audit_changes :: "mapping_row list \<Rightarrow> string \<Rightarrow> mapping_row list \<Rightarrow> (world, int) op" where
  "audit_changes before request [] = ok 0"
| "audit_changes before request (m # ms) =
     (case find (\<lambda>b. pm_model_id b = pm_model_id m) (rev before) of
        None \<Rightarrow> audit_changes before request ms
      | Some b \<Rightarrow>
          if pm_available b = pm_available m then audit_changes before request ms
          else bindE (audit_change b m request) (\<lambda>_.
               bindE (audit_changes before request ms) (\<lambda>n. ok (n + 1))))"

definition sync_tx :: "text_tables \<Rightarrow> string \<Rightarrow> upstream_model list \<Rightarrow> time \<Rightarrow> string \<Rightarrow> (world, sync_result) op" where
  "sync_tx T code catalog t request =
     bindE (bindE (attempt (db_read (get_provider_by_code code))) (\<lambda>r. case r of
              Inl e \<Rightarrow> fail (if errors_is e NoRows then ProviderNotFound else Wrap ''read provider'' e)
            | Inr p \<Rightarrow> ok p)) (\<lambda>p.
     bindE (wrap_err ''list provider mappings'' (db_read (list_provider_model_mappings (prv_id p)))) (\<lambda>before.
     let found = discovered_models catalog in
     bindE (sync_each T p before t request 0 found) (\<lambda>_.
     bindE (wrap_err ''mark missing provider mappings'' (db_exec
       (mark_provider_models_unavailable (prv_id p) (map up_id found) t))) (\<lambda>_.
     bindE (wrap_err ''refresh model availability'' (db_exec refresh_model_availability)) (\<lambda>_.
     bindE (wrap_err ''reload provider mappings'' (db_read (list_provider_model_mappings (prv_id p)))) (\<lambda>after.
     bindE (audit_changes before request after) (\<lambda>changed.
     ok \<lparr>sy_discovered = int (length catalog), sy_mapped = int (length found),
         sy_ignored = int (length catalog) - int (length found), sy_changed = changed\<rparr>)))))))"

text \<open>\<open>Sync\<close>; \<open>None\<close> is a missing gateway, and the gateway's catalog is an operation of its own.\<close>

definition sync_models ::
  "text_tables \<Rightarrow> string \<Rightarrow> (world, upstream_model list) op option \<Rightarrow> string \<Rightarrow> (world, sync_result) op" where
  "sync_models T code gateway request =
     (case gateway of
        None \<Rightarrow> fail (Msg ''provider code and gateway are required'')
      | Some fetch \<Rightarrow>
          if code = [] then fail (Msg ''provider code and gateway are required'')
          else
            bindE (wrap_err ''fetch provider catalog'' fetch) (\<lambda>catalog.
            bindE clock_now (\<lambda>t.
            within_transaction (sync_tx T code catalog t request))))"

section \<open>What a synchronization changes\<close>

text \<open>New models come at the end, disabled; the providers stay.\<close>

definition models_grown :: "database \<Rightarrow> database \<Rightarrow> bool" where
  "models_grown d d' \<longleftrightarrow> (\<exists>new. models d' = models d @ new \<and> list_all (\<lambda>m. \<not> mdl_enabled m) new)
     \<and> providers d' = providers d"

lemma models_grown_refl [simp]: "models d' = models d \<Longrightarrow> providers d' = providers d \<Longrightarrow> models_grown d d'"
  by (simp add: models_grown_def)

lemma models_grown_trans: "models_grown d d1 \<Longrightarrow> models_grown d1 d2 \<Longrightarrow> models_grown d d2"
  by (fastforce simp: models_grown_def)

definition slugs_ok :: "database \<Rightarrow> bool" where
  "slugs_ok d \<longleftrightarrow> list_all (\<lambda>m. valid_slug (mdl_slug m)) (models d)"

lemma create_discoveredD:
  "create_discovered_model i slug name window out caps k d = Inr (m, d') \<Longrightarrow>
   d' = d\<lparr>models := models d @ [m]\<rparr> \<and> \<not> mdl_enabled m \<and> mdl_slug m = slug \<and> valid_slug slug"
  by (auto simp: create_discovered_model_def Let_def split: if_splits)

lemma insert_auditD: "insert_admin_audit a d = Inr (u, d') \<Longrightarrow> d' = d\<lparr>audit_log := audit_log d @ [a]\<rparr>"
  by (auto simp: insert_admin_audit_def split: if_splits)

lemma upsert_mappingD:
  "upsert_provider_model p m up meta t d = Inr (u, d') \<Longrightarrow> \<exists>pms. d' = d\<lparr>provider_models := pms\<rparr>"
  by (auto simp: upsert_provider_model_def Let_def split: if_splits)

lemma get_model_by_slugD: "get_model_by_slug s d = Inr m \<Longrightarrow> m \<in> set (models d) \<and> mdl_slug m = s"
  by (auto simp: get_model_by_slug_def split: option.splits dest: find_Some_iff_mem)

lemma audit_discovery_okD:
  "audit_discovery m u q w = (Inr x, w') \<Longrightarrow> \<exists>l. db w' = db w\<lparr>audit_log := l\<rparr>"
  unfolding audit_discovery_def by (auto elim!: op_elims dest!: db_exec_okD insert_auditD ids_new_db)

lemma discover_model_okD:
  assumes "discover_model T u k q w = (Inr m, w')" and "slugs_ok (db w)"
  shows "models_grown (db w) (db w') \<and> slugs_ok (db w') \<and> valid_slug (model_slug T (up_id u))
    \<and> provider_models (db w') = provider_models (db w)"
proof -
  obtain r w1 where r: "db_read (get_model_by_slug (model_slug T (up_id u))) w = (r, w1)"
    using assms(1) by (cases "db_read (get_model_by_slug (model_slug T (up_id u))) w")
  show ?thesis
  proof (cases r)
    case (Inr x)
    with r assms show ?thesis
      by (auto simp: discover_model_def Let_def attempt_def slugs_ok_def list_all_iff
          dest!: db_read_okD get_model_by_slugD)
  next
    case (Inl e)
    then obtain i w2 w3 where ids: "ids_new w1 = (Inr i, w2)"
      and c: "db_exec (create_discovered_model i (model_slug T (up_id u)) (model_display_name T (up_id u))
        (discovered_window (up_context_window u))
        (discovered_output (up_max_output u) (discovered_window (up_context_window u)))
        (JObj [(''chatCompletions'', JBool True), (''code'', JBool True), (''markdown'', JBool True)]) k) w2
        = (Inr m, w3)"
      and a: "audit_discovery m (up_id u) q w3 = (Inr (), w')"
      using assms(1) r unfolding discover_model_def Let_def
      by (auto simp: attempt_def split: if_splits elim!: op_elims intro!: that)
    have "db w2 = db w" using db_read_db [OF r] ids_new_db [OF ids] by simp
    with db_exec_okD [OF c] audit_discovery_okD [OF a] assms(2) show ?thesis
      by (auto simp: models_grown_def slugs_ok_def dest!: create_discoveredD)
  qed
qed

abbreviation unmapped :: "mapping_row list \<Rightarrow> upstream_model \<Rightarrow> bool" where
  "unmapped before u \<equiv> list_all (\<lambda>m. pm_upstream_id m \<noteq> up_id u) before"

lemma sync_one_okD:
  assumes "sync_one T p before t q i u w = (Inr x, w')" and "slugs_ok (db w)"
  shows "models_grown (db w) (db w') \<and> slugs_ok (db w')
    \<and> (unmapped before u \<longrightarrow> valid_slug (model_slug T (up_id u)))"
proof (cases "find (\<lambda>m. pm_upstream_id m = up_id u) (rev before)")
  case None
  with assms show ?thesis unfolding sync_one_def
    by (auto elim!: op_elims dest!: db_exec_okD upsert_mappingD discover_model_okD
        simp: models_grown_def slugs_ok_def)
next
  case (Some m)
  then have "\<not> unmapped before u" by (auto simp: list_all_iff dest!: find_Some_iff_mem)
  with Some assms show ?thesis unfolding sync_one_def
    by (auto elim!: op_elims dest!: db_exec_okD upsert_mappingD simp: slugs_ok_def)
qed

lemma sync_each_okD:
  "sync_each T p before t q i us w = (Inr x, w') \<Longrightarrow> slugs_ok (db w) \<Longrightarrow>
   models_grown (db w) (db w') \<and> slugs_ok (db w')
     \<and> (\<forall>u \<in> set us. unmapped before u \<longrightarrow> valid_slug (model_slug T (up_id u)))"
proof (induction us arbitrary: i w)
  case (Cons u us)
  then obtain y w1 where one: "sync_one T p before t q i u w = (Inr y, w1)"
    and rest: "sync_each T p before t q (i + 1) us w1 = (Inr x, w')"
    by (auto elim!: op_elims)
  note a = sync_one_okD [OF one Cons.prems(2)]
  note b = Cons.IH [OF rest a [THEN conjunct2, THEN conjunct1]]
  from a b show ?case using models_grown_trans by auto
qed simp

lemma audit_change_okD:
  "audit_change b m q w = (Inr x, w') \<Longrightarrow> \<exists>l. db w' = db w\<lparr>audit_log := l\<rparr>"
  unfolding audit_change_def by (auto elim!: op_elims dest!: db_exec_okD insert_auditD ids_new_db)

lemma audit_changes_okD:
  "audit_changes before q ms w = (Inr n, w') \<Longrightarrow> \<exists>l. db w' = db w\<lparr>audit_log := l\<rparr>"
proof (induction ms arbitrary: n w)
  case Nil
  then show ?case by (auto intro: exI [of _ "audit_log (db w)"])
next
  case (Cons m ms)
  show ?case
  proof (cases "\<exists>b. find (\<lambda>b. pm_model_id b = pm_model_id m) (rev before) = Some b \<and> pm_available b \<noteq> pm_available m")
    case False
    then show ?thesis using Cons by (auto split: option.splits)
  next
    case True
    then obtain b where b: "find (\<lambda>b. pm_model_id b = pm_model_id m) (rev before) = Some b"
      "pm_available b \<noteq> pm_available m" by blast
    then obtain x w1 k where "audit_change b m q w = (Inr x, w1)" "audit_changes before q ms w1 = (Inr k, w')"
      using Cons.prems by (auto elim!: op_elims intro!: that)
    then obtain l l' where "db w1 = db w\<lparr>audit_log := l\<rparr>" "db w' = db w1\<lparr>audit_log := l'\<rparr>"
      using audit_change_okD Cons.IH by blast
    then show ?thesis by auto
  qed
qed

text \<open>The whole transaction: models grow, then their availability is set from the mappings.\<close>

inductive synced ::
  "text_tables \<Rightarrow> string \<Rightarrow> upstream_model list \<Rightarrow> time \<Rightarrow> database \<Rightarrow> database \<Rightarrow> bool" where
  "p \<in> set (providers d) \<Longrightarrow> prv_code p = code \<Longrightarrow> models_grown d d2 \<Longrightarrow> providers d' = providers d2 \<Longrightarrow>
   provider_models d' = upd_rows (\<lambda>r. pm_provider_id r = prv_id p
        \<and> pm_upstream_id r \<notin> up_id ` set (discovered_models catalog))
        (\<lambda>r. r\<lparr>pm_available := False, pm_synced_at := t\<rparr>) (provider_models d2) \<Longrightarrow>
   models d' = upd_rows (\<lambda>m. mdl_available m = (\<not> mapped_enabled d' (mdl_id m)))
        (\<lambda>m. m\<lparr>mdl_available := mapped_enabled d' (mdl_id m), mdl_version := mdl_version m + 1\<rparr>) (models d2) \<Longrightarrow>
   \<forall>u \<in> set (discovered_models catalog). list_all (\<lambda>m. pm_provider_id m = prv_id p \<longrightarrow>
        pm_upstream_id m \<noteq> up_id u) (provider_models d) \<longrightarrow> valid_slug (model_slug T (up_id u)) \<Longrightarrow>
   synced T code catalog t d d'"

inductive_cases syncedE: "synced T code catalog t d d'"

lemma sync_tx_okD:
  assumes "sync_tx T code catalog t q w = (Inr res, w')" and "slugs_ok (db w)"
  shows "synced T code catalog t (db w) (db w')"
proof -
  let ?found = "discovered_models catalog"
  obtain p w1 before w2 w3 w4 n w5 after w6 k where
    p: "db_read (get_provider_by_code code) w = (Inr p, w1)"
    and before: "db_read (list_provider_model_mappings (prv_id p)) w1 = (Inr before, w2)"
    and each: "sync_each T p before t q 0 ?found w2 = (Inr (), w3)"
    and mark: "db_exec (mark_provider_models_unavailable (prv_id p) (map up_id ?found) t) w3 = (Inr (), w4)"
    and refresh: "db_exec refresh_model_availability w4 = (Inr n, w5)"
    and after: "db_read (list_provider_model_mappings (prv_id p)) w5 = (Inr after, w6)"
    and audit: "audit_changes before q after w6 = (Inr k, w')"
    using assms(1) unfolding sync_tx_def Let_def
    by (auto elim!: op_elims split: sum.splits intro!: that)
  have p': "p \<in> set (providers (db w))" "prv_code p = code" "db w1 = db w"
    using db_read_okD [OF p] by (auto simp: get_provider_by_code_def split: option.splits dest: find_Some_iff_mem)
  have b: "before = sort_key (\<lambda>m. (pm_upstream_id m, pm_model_id m))
      (filter (\<lambda>m. pm_provider_id m = prv_id p) (provider_models (db w)))" "db w2 = db w"
    using db_read_okD [OF before] p' by (auto simp: list_provider_model_mappings_def)
  note e = sync_each_okD [OF each] 
  have m: "db w4 = (db w3)\<lparr>provider_models := upd_rows (\<lambda>r. pm_provider_id r = prv_id p
        \<and> pm_upstream_id r \<notin> set (map up_id ?found))
        (\<lambda>r. r\<lparr>pm_available := False, pm_synced_at := t\<rparr>) (provider_models (db w3))\<rparr>"
    using db_exec_okD [OF mark] by (auto simp: mark_provider_models_unavailable_def)
  have r: "db w5 = (db w4)\<lparr>models := upd_rows (\<lambda>m. mdl_available m \<noteq> mapped_enabled (db w4) (mdl_id m))
        (\<lambda>m. m\<lparr>mdl_available := mapped_enabled (db w4) (mdl_id m), mdl_version := mdl_version m + 1\<rparr>) (models (db w4))\<rparr>"
    using db_exec_okD [OF refresh] by (auto simp: refresh_model_availability_def Let_def split: if_splits)
  obtain l where l: "db w' = db w5\<lparr>audit_log := l\<rparr>"
    using audit_changes_okD [OF audit] db_read_db [OF after] by auto
  have same: "mapped_enabled (db w') = mapped_enabled (db w4)"
    by (rule ext) (simp add: l r mapped_enabled_def)
  show ?thesis
  proof (rule synced.intros [of p _ _ "db w3"])
    show "\<forall>u \<in> set ?found. list_all (\<lambda>m. pm_provider_id m = prv_id p \<longrightarrow>
        pm_upstream_id m \<noteq> up_id u) (provider_models (db w)) \<longrightarrow> valid_slug (model_slug T (up_id u))"
      using e assms(2) b by (auto simp: list_all_iff)
  qed (use p' e assms(2) b m r l same in auto)
qed

lemma discovered_ids: "set (map up_id (discovered_models catalog)) = up_id ` {u \<in> set catalog. usable u}"
proof -
  have "up_id (the (find (\<lambda>m. up_id m = i) (rev (filter usable catalog)))) = i"
    if "i \<in> up_id ` {u \<in> set catalog. usable u}" for i
  proof (cases "find (\<lambda>m. up_id m = i) (rev (filter usable catalog))")
    case None
    with that show ?thesis by (auto simp: find_None_mem)
  next
    case (Some m)
    then show ?thesis by (auto dest: find_Some_iff_mem)
  qed
  then show ?thesis by (force simp: discovered_models_def image_image)
qed

section \<open>Properties\<close>

lemma sync_okD:
  assumes "sync_models T code gw q w = (Inr res, w')" and "slugs_ok (db w)"
  obtains fetch w1 catalog w2 w3 t where "gw = Some fetch" "fetch w = (Inr catalog, w1)" "db w2 = db w1"
    "sync_tx T code catalog t q w2 = (Inr res, w3)" "db w' = db w3"
proof -
  from assms(1) obtain fetch where gw: "gw = Some fetch"
    and run: "bindE (wrap_err ''fetch provider catalog'' fetch) (\<lambda>catalog. bindE clock_now (\<lambda>t.
            within_transaction (sync_tx T code catalog t q))) w = (Inr res, w')"
    by (auto simp: sync_models_def split: option.splits if_splits)
  from run obtain catalog w1 where c: "fetch w = (Inr catalog, w1)"
    and tx: "within_transaction (sync_tx T code catalog (now w1) q) w1 = (Inr res, w')"
    by (auto elim!: op_elims intro!: that)
  from tx obtain w2 w3 where "db w2 = db w1" "sync_tx T code catalog (now w1) q w2 = (Inr res, w3)" "db w' = db w3"
    by (rule within_transaction_okD)
  with gw c show ?thesis by (rule that)
qed

text \<open>C31: after a synchronization every model is marked available exactly when an available mapping
  of an enabled provider serves it, and of the synchronized provider only models that are in its
  catalog, with an id and chat completions, are mapped as available.\<close>
theorem sync_availability:
  assumes "sync_models T code (Some (ok catalog)) q w = (Inr res, w')" and "slugs_ok (db w)"
  shows "list_all (\<lambda>m. mdl_available m = mapped_enabled (db w') (mdl_id m)) (models (db w')) \<and>
    (\<exists>p. prv_code p = code \<and> p \<in> set (providers (db w)) \<and>
       list_all (\<lambda>pm. pm_provider_id pm = prv_id p \<and> pm_available pm \<longrightarrow>
         (\<exists>u \<in> set catalog. usable u \<and> up_id u = pm_upstream_id pm)) (provider_models (db w')))"
proof -
  obtain w2 w3 t where tx: "db w2 = db w" "sync_tx T code catalog t q w2 = (Inr res, w3)" "db w' = db w3"
    by (rule sync_okD [OF assms]) auto
  have ok: "slugs_ok (db w2)" using assms(2) tx(1) by simp
  obtain p and d2 :: database where p: "p \<in> set (providers (db w2))" "prv_code p = code"
    and pms: "provider_models (db w3) = upd_rows (\<lambda>r. pm_provider_id r = prv_id p
        \<and> pm_upstream_id r \<notin> up_id ` set (discovered_models catalog))
        (\<lambda>r. r\<lparr>pm_available := False, pm_synced_at := t\<rparr>) (provider_models d2)"
    and ms: "models (db w3) = upd_rows (\<lambda>m. mdl_available m = (\<not> mapped_enabled (db w3) (mdl_id m)))
        (\<lambda>m. m\<lparr>mdl_available := mapped_enabled (db w3) (mdl_id m), mdl_version := mdl_version m + 1\<rparr>) (models d2)"
    using sync_tx_okD [OF tx(2) ok] by (elim syncedE) (rule that; assumption)
  have "mdl_available m = mapped_enabled (db w3) (mdl_id m)" if "m \<in> set (models (db w3))" for m
    using that unfolding ms set_upd_rows by (elim imageE) (simp split: if_splits)
  moreover have found: "\<exists>u \<in> set catalog. usable u \<and> up_id u = i"
    if "i \<in> set (map up_id (discovered_models catalog))" for i
    using that discovered_ids [of catalog] by auto
  have "\<exists>u \<in> set catalog. usable u \<and> up_id u = pm_upstream_id pm"
    if "pm \<in> set (provider_models (db w3))" "pm_provider_id pm = prv_id p" "pm_available pm" for pm
    using that found unfolding pms set_upd_rows by (elim imageE) (simp split: if_splits)
  ultimately show ?thesis
    using p tx by (auto simp: list_all_iff)
qed

text \<open>C32: a synchronization exposes nothing by itself: every enabled model after it was there and
  enabled before.\<close>
theorem sync_never_enables:
  assumes "sync_models T code (Some (ok catalog)) q w = (Inr res, w')" and "slugs_ok (db w)"
    and "m \<in> set (models (db w'))" and "mdl_enabled m"
  shows "\<exists>m0 \<in> set (models (db w)). mdl_id m0 = mdl_id m \<and> mdl_enabled m0 \<and> mdl_audience m0 = mdl_audience m
     \<and> mdl_default_for m0 = mdl_default_for m"
proof -
  obtain w2 w3 t where tx: "db w2 = db w" "sync_tx T code catalog t q w2 = (Inr res, w3)" "db w' = db w3"
    by (rule sync_okD [OF assms(1,2)]) auto
  have ok: "slugs_ok (db w2)" using assms(2) tx(1) by simp
  obtain d2 :: database where grown: "models_grown (db w2) d2"
    and ms: "models (db w3) = upd_rows (\<lambda>m. mdl_available m = (\<not> mapped_enabled (db w3) (mdl_id m)))
        (\<lambda>m. m\<lparr>mdl_available := mapped_enabled (db w3) (mdl_id m), mdl_version := mdl_version m + 1\<rparr>) (models d2)"
    using sync_tx_okD [OF tx(2) ok] by (elim syncedE) (rule that; assumption)
  obtain m1 where m1: "m1 \<in> set (models d2)" "mdl_id m1 = mdl_id m" "mdl_enabled m1"
      "mdl_audience m1 = mdl_audience m" "mdl_default_for m1 = mdl_default_for m"
    using assms(3,4) unfolding tx(3) ms set_upd_rows by (elim imageE) (auto split: if_splits intro: that)
  with grown tx(1) show ?thesis by (auto simp: models_grown_def list_all_iff)
qed

text \<open>One model of the catalog whose id has no valid slug, and that is not mapped yet, makes the
  whole synchronization fail: nothing of the catalog is taken over.\<close>
theorem sync_unsluggable_fails:
  assumes "sync_models T code (Some (ok catalog)) q w = (r, w')" and "slugs_ok (db w)"
    and "u \<in> set (discovered_models catalog)" and "\<not> valid_slug (model_slug T (up_id u))"
    and "list_all (\<lambda>m. pm_upstream_id m \<noteq> up_id u) (provider_models (db w))"
  shows "\<exists>e. r = Inl e \<and> db w' = db w"
proof (cases r)
  case (Inl e)
  with assms(1) have "db w' = db w"
    unfolding sync_models_def
    by (auto split: if_splits elim!: bindE_errE simp: wrap_err_def ok_def
        dest: within_transaction_error_db)
  with Inl show ?thesis by simp
next
  case (Inr res)
  obtain w2 w3 t where tx: "db w2 = db w" "sync_tx T code catalog t q w2 = (Inr res, w3)"
    by (rule sync_okD [OF assms(1) [unfolded Inr] assms(2)]) auto
  have ok: "slugs_ok (db w2)" using assms(2) tx(1) by simp
  have "valid_slug (model_slug T (up_id u))"
    using sync_tx_okD [OF tx(2) ok] assms(3,5) tx(1) by (elim syncedE) (simp add: list_all_iff)
  with assms(4) show ?thesis by simp
qed

definition ascii_tables :: text_tables where
  "ascii_tables = \<lparr>tt_lower = id, tt_upper = id, tt_letter = (\<lambda>r. 97 \<le> r \<and> r \<le> 122 \<or> 128 \<le> r),
     tt_digit = (\<lambda>r. 48 \<le> r \<and> r \<le> 57), tt_hex_sha256 = (\<lambda>s. replicate 64 CHR ''0'')\<rparr>"

definition sync_model :: "uuid \<Rightarrow> string \<Rightarrow> model_row" where
  "sync_model i slug = \<lparr>mdl_id = i, mdl_slug = slug, mdl_name = slug, mdl_description = [],
     mdl_context_window = 131072, mdl_max_output = 8192,
     mdl_capabilities = JObj [(''chatCompletions'', JBool True)], mdl_enabled = True,
     mdl_available = True, mdl_supported = True, mdl_audience = [''guest'', ''user''],
     mdl_default_for = [], mdl_sort_order = 0, mdl_version = 1\<rparr>"

definition sync_mapping :: "uuid \<Rightarrow> string \<Rightarrow> mapping_row" where
  "sync_mapping m u = \<lparr>pm_provider_id = 1, pm_model_id = m, pm_upstream_id = u,
     pm_available = True, pm_metadata = JObj [], pm_synced_at = 0\<rparr>"

definition sync_world :: world where
  "sync_world = world_of (catalog_db\<lparr>models := [sync_model 101 ''kept''],
     provider_models := [sync_mapping 101 ''kept'']\<rparr>) 1000 [1, 2, 3] []"

definition upstream :: "string \<Rightarrow> upstream_model" where
  "upstream i = \<lparr>up_id = i, up_context_window = 65536, up_max_output = 4096, up_chat = True\<rparr>"

lemmas sync_eval = sync_models_def sync_tx_def sync_one_def discover_model_def audit_change_def
  audit_discovery_def audit_entry_def discovered_models_def usable_def sync_metadata_def upstream_def
  get_provider_by_code_def list_provider_model_mappings_def upsert_provider_model_def
  mark_provider_models_unavailable_def refresh_model_availability_def mapped_enabled_def
  insert_admin_audit_def nullable_string_def sync_model_def sync_mapping_def sync_world_def
  catalog_db_def empty_db_def upd_rows_def count_rows_def rune_count_def decode_runes_ascii Let_def



abbreviation sync_run :: "(error + sync_result) \<times> world" where
  "sync_run \<equiv> sync_models ascii_tables ''fake'' (Some (ok [upstream ''kept''])) [] sync_world"

lemma example_sync:
  "\<exists>res. fst sync_run = Inr res" "models (db (snd sync_run)) = [sync_model 101 ''kept'']"
  by (simp_all add: sync_eval world_eval cong: conj_cong)

lemma slugs_ok_sync_world: "slugs_ok (db sync_world)"
  by (simp add: slugs_ok_def sync_world_def sync_model_def world_of_def valid_slug_def slug_start_def slug_char_def)

theorem sync_availability_witness:
  "list_all (\<lambda>m. mdl_available m = mapped_enabled (db (snd sync_run)) (mdl_id m)) (models (db (snd sync_run)))"
proof -
  obtain res where "fst sync_run = Inr res" using example_sync by blast
  then have "sync_run = (Inr res, snd sync_run)" by (simp add: prod_eq_iff)
  from sync_availability [OF this slugs_ok_sync_world] show ?thesis by blast
qed

theorem sync_never_enables_witness:
  "\<exists>m0. m0 \<in> set (models (db sync_world)) \<and> mdl_id m0 = 101 \<and> mdl_enabled m0"
proof -
  obtain res where "fst sync_run = Inr res" using example_sync by blast
  then have run: "sync_run = (Inr res, snd sync_run)" by (simp add: prod_eq_iff)
  have "sync_model 101 ''kept'' \<in> set (models (db (snd sync_run)))" "mdl_enabled (sync_model 101 ''kept'')"
    by (simp only: example_sync) (simp_all add: sync_model_def)
  from sync_never_enables [OF run slugs_ok_sync_world this] show ?thesis
    by (auto simp: sync_model_def)
qed

text \<open>An id in two bytes of UTF-8: its slug keeps the letter, which no slug may have.\<close>

definition e_acute :: string where
  "e_acute = [char_of (195 :: nat), char_of (169 :: nat)]"

lemma e_acute_unsluggable: "\<not> valid_slug (model_slug ascii_tables e_acute)"
  by code_simp

theorem sync_unsluggable_fails_witness:
  "db (snd (sync_models ascii_tables ''fake'' (Some (ok [upstream ''kept'', upstream e_acute])) [] sync_world))
     = db sync_world"
proof -
  let ?run = "sync_models ascii_tables ''fake'' (Some (ok [upstream ''kept'', upstream e_acute])) [] sync_world"
  have found: "upstream e_acute \<in> set (discovered_models [upstream ''kept'', upstream e_acute])"
    by (simp add: discovered_models_def usable_def upstream_def e_acute_def)
  have "list_all (\<lambda>m. pm_upstream_id m \<noteq> up_id (upstream e_acute)) (provider_models (db sync_world))"
    by (simp add: sync_world_def world_of_def sync_mapping_def upstream_def e_acute_def)
  then have "\<exists>e. fst ?run = Inl e \<and> db (snd ?run) = db sync_world"
    using sync_unsluggable_fails [OF _ slugs_ok_sync_world found, of ascii_tables "''fake''" "[]" "fst ?run" "snd ?run"]
      e_acute_unsluggable by (simp add: upstream_def)
  then show ?thesis by blast
qed

end
