(* ===== verification/Cursor.thy ===== *)
theory Cursor
  imports Json
begin

text \<open>
  The cursor of the conversation list (\<open>internal/conversations/service.go\<close>,
  \<open>encodeConversationCursor\<close> and \<open>decodeConversationCursor\<close>) with what it uses of the standard
  library: \<open>base64.RawURLEncoding\<close>, the JSON text of a \<open>time.Time\<close> and its strict RFC 3339 parser.
  Parsing a UUID (\<open>google/uuid\<close>) is a parameter. The parser of times is the fast path of
  \<open>time.UnmarshalJSON\<close>; its fallback accepts two more spellings (an hour of one digit, a comma
  before the fraction), which are errors here.
\<close>

section \<open>Base64\<close>

definition b64_char :: "nat \<Rightarrow> char" where
  "b64_char n = char_of (if n < 26 then n + 65 else if n < 52 then n + 71 else if n < 62 then n - 4
     else if n = 62 then 45 else 95)"

definition b64_value :: "char \<Rightarrow> nat option" where
  "b64_value c =
     (let b = byte c in
      if 65 \<le> b \<and> b \<le> 90 then Some (b - 65) else if 97 \<le> b \<and> b \<le> 122 then Some (b - 71)
      else if 48 \<le> b \<and> b \<le> 57 then Some (b + 4) else if b = 45 then Some 62
      else if b = 95 then Some 63 else None)"

fun b64_encode :: "string \<Rightarrow> string" where
  "b64_encode [] = []"
| "b64_encode [a] = [b64_char (byte a div 4), b64_char (byte a mod 4 * 16)]"
| "b64_encode [a, b] = [b64_char (byte a div 4), b64_char (byte a mod 4 * 16 + byte b div 16),
     b64_char (byte b mod 16 * 4)]"
| "b64_encode (a # b # c # r) =
     b64_char (byte a div 4) # b64_char (byte a mod 4 * 16 + byte b div 16)
     # b64_char (byte b mod 16 * 4 + byte c div 64) # b64_char (byte c mod 64) # b64_encode r"

fun b64_join :: "nat list \<Rightarrow> string option" where
  "b64_join [] = Some []"
| "b64_join [w] = None"
| "b64_join [w, x] = Some [char_of (w * 4 + x div 16)]"
| "b64_join [w, x, y] = Some [char_of (w * 4 + x div 16), char_of (x mod 16 * 16 + y div 4)]"
| "b64_join (w # x # y # z # r) =
     map_option (\<lambda>s. char_of (w * 4 + x div 16) # char_of (x mod 16 * 16 + y div 4)
       # char_of (y mod 4 * 64 + z) # s) (b64_join r)"

text \<open>Line ends are skipped; trailing bits are not looked at (the encoding is not \<open>Strict\<close>).\<close>

definition b64_decode :: "string \<Rightarrow> string option" where
  "b64_decode s = Option.bind
     (all_some (map b64_value (filter (\<lambda>c. c \<noteq> CHR 0x0A \<and> c \<noteq> CHR 0x0D) s))) b64_join"

lemma byte_b64_char: "n < 64 \<Longrightarrow> byte (b64_char n) = (if n < 26 then n + 65 else if n < 52 then n + 71
     else if n < 62 then n - 4 else if n = 62 then 45 else 95)"
  by (auto simp: b64_char_def)

lemma b64_value_char [simp]: "n < 64 \<Longrightarrow> b64_value (b64_char n) = Some n"
  by (auto simp: b64_value_def byte_b64_char Let_def)

lemma b64_char_not_end [simp]:
  "n < 64 \<Longrightarrow> b64_char n \<noteq> CHR 0x0A" "n < 64 \<Longrightarrow> b64_char n \<noteq> CHR 0x0D"
  by (auto simp: byte_b64_char dest!: arg_cong [of "b64_char n" _ byte] split: if_splits)

lemma all_some_simps [simp]:
  "all_some [] = Some []"
  "all_some (None # xs) = None"
  "all_some (Some x # xs) = map_option ((#) x) (all_some xs)"
  by (simp_all add: all_some_def)

lemma byte_lt [simp]: "byte c < 256"
  by (metis of_char_mod_256 mod_less_divisor zero_less_numeral)

lemma byte_parts [simp]: "byte c div 4 < 64" "byte c div 16 < 16" "byte c div 64 < 4"
  using byte_lt [of c] by (simp_all add: less_mult_imp_div_less)

lemma sextet_bounds [simp]:
  "byte a mod 4 * 16 + byte b div 16 < 64" "byte a mod 16 * 4 + byte b div 64 < 64"
  using byte_parts(2,3) [of b] mod_less_divisor [of 4 "byte a"] mod_less_divisor [of 16 "byte a"] by linarith+

lemma b64_roundtrip: "b64_decode (b64_encode s) = Some s"
proof -
  have "\<exists>vs. all_some (map b64_value (filter (\<lambda>c. c \<noteq> CHR 0x0A \<and> c \<noteq> CHR 0x0D) (b64_encode s))) = Some vs
      \<and> b64_join vs = Some s"
  proof (induction s rule: b64_encode.induct)
    case (4 a b c r)
    then show ?case by (auto simp: div_mult_mod_eq)
  qed (auto simp: div_mult_mod_eq)
  then show ?thesis by (auto simp: b64_decode_def)
qed

section \<open>Times\<close>

definition leap_year :: "int \<Rightarrow> bool" where
  "leap_year y \<longleftrightarrow> y mod 4 = 0 \<and> (y mod 100 \<noteq> 0 \<or> y mod 400 = 0)"

definition days_in :: "int \<Rightarrow> int \<Rightarrow> int" where
  "days_in y m = (if m = 2 then (if leap_year y then 29 else 28) else if m \<in> {4, 6, 9, 11} then 30 else 31)"

text \<open>The day of a Gregorian date, the inverse of \<open>civil_date\<close>.\<close>

definition day_of_civil :: "int \<Rightarrow> int \<Rightarrow> int \<Rightarrow> date" where
  "day_of_civil y m d =
     (let y' = (if m \<le> 2 then y - 1 else y);
          yoe = y' mod 400;
          doy = (153 * (if m > 2 then m - 3 else m + 9) + 2) div 5 + d - 1
      in y' div 400 * 146097 + (yoe * 365 + yoe div 4 - yoe div 100 + doy) - 719468)"

definition year_start :: "int \<Rightarrow> int" where
  "year_start y = 365 * y + y div 4 - y div 100"

definition era_year :: "int \<Rightarrow> int" where
  "era_year n = (n - n div 1460 + n div 36524 - n div 146096) div 365"

lemma div_step:
  assumes "0 < k"
  shows "(n + 1) div k \<le> n div k + (1 :: int)"
proof -
  have "(n + 1) div k \<le> (n + k) div k" by (rule zdiv_mono1) (use assms in auto)
  also have "(n + k) div k = n div k + 1" using assms by (intro div_add_self2) simp
  finally show ?thesis .
qed

lemma div_next:
  assumes "0 < k" "(n + 1) mod k = (0 :: int)"
  shows "(n + 1) div k = n div k + 1"
proof -
  have "n = k * ((n + 1) div k - 1) + (k - 1)"
    using assms(2) div_mult_mod_eq [of "n + 1" k] by (simp add: algebra_simps)
  then have "n div k = (n + 1) div k - 1"
    by (rule int_div_pos_eq) (use assms(1) in auto)
  then show ?thesis by simp
qed

lemma era_year_step: "era_year n \<le> era_year (n + 1)"
proof -
  have quads: "k div 36524 div 4 = k div 146096" for k :: int
    using zdiv_zmult2_eq [of 4 k 36524] by simp
  let ?q = "n div 36524" and ?r = "(n + 1) div 36524"
  have "?r = ?q \<or> ?r = ?q + 1"
    using div_step [of 36524 n] zdiv_mono1 [of n "n + 1" 36524] by linarith
  then have "?q - ?q div 4 \<le> ?r - ?r div 4"
    using div_step [of 4 ?q] by auto
  moreover have "(n + 1) div 1460 \<le> n div 1460 + 1"
    by (rule div_step) simp
  ultimately have "n - n div 1460 + n div 36524 - n div 146096
      \<le> n + 1 - (n + 1) div 1460 + (n + 1) div 36524 - (n + 1) div 146096"
    unfolding quads by linarith
  then show ?thesis
    unfolding era_year_def by (rule zdiv_mono1) simp
qed

lemma era_year_mono: "m \<le> n \<Longrightarrow> era_year m \<le> era_year n"
proof (induction n rule: int_ge_induct)
  case (step n)
  then show ?case using era_year_step [of n] by simp
qed simp

text \<open>The 400 years of an era, one by one.\<close>

lemma era_years_checked:
  "list_all (\<lambda>y. era_year (year_start y) = y \<and> era_year (year_start (y + 1) - 1) = y) [0..399]"
  by code_simp

lemma era_year_at:
  assumes "0 \<le> y" "y \<le> 399"
  shows "era_year (year_start y) = y" "era_year (year_start (y + 1) - 1) = y"
  using era_years_checked assms by (auto simp: list_all_iff)

lemma era_year_bounds:
  assumes "0 \<le> n" "n < 146097"
  shows "0 \<le> era_year n" "era_year n \<le> 399" "year_start (era_year n) \<le> n"
    "n \<le> year_start (era_year n) + 365"
    "leap_year (era_year n + 1) \<or> n < year_start (era_year n) + 365"
proof -
  have ends: "era_year 0 = 0" "era_year 146096 = 399" by code_simp+
  show b: "0 \<le> era_year n" "era_year n \<le> 399"
    using era_year_mono [of 0 n] era_year_mono [of n 146096] assms ends by simp_all
  show low: "year_start (era_year n) \<le> n"
  proof (rule ccontr)
    assume neg: "\<not> ?thesis"
    show False
    proof (cases "era_year n = 0")
      case True
      with neg assms show False by (simp add: year_start_def)
    next
      case False
      then have "era_year (year_start (era_year n - 1 + 1) - 1) = era_year n - 1"
        using b by (intro era_year_at) auto
      with neg era_year_mono [of n "year_start (era_year n) - 1"] show False by simp
    qed
  qed
  have step: "year_start (y + 1) \<le> year_start y + 366 \<and> (\<not> leap_year (y + 1) \<longrightarrow> year_start (y + 1) \<le> year_start y + 365)"
    for y :: int
  proof -
    have "(y + 1) div 4 \<le> y div 4 + 1" "y div 100 \<le> (y + 1) div 100"
      by (simp add: div_step) (rule zdiv_mono1, simp_all)
    moreover have "\<not> leap_year (y + 1) \<Longrightarrow> (y + 1) div 4 - (y + 1) div 100 \<le> y div 4 - y div 100"
    proof (cases "(y + 1) mod 4 = 0")
      case True
      assume "\<not> leap_year (y + 1)"
      with True have "(y + 1) mod 100 = 0" by (simp add: leap_year_def)
      then have "(y + 1) div 100 = y div 100 + 1" by (intro div_next) simp_all
      then show ?thesis using div_step [of 4 y] by simp
    next
      case False
      then have "(y + 1) div 4 = y div 4" by presburger
      then show ?thesis using zdiv_mono1 [of y "y + 1" 100] by simp
    qed
    ultimately show ?thesis unfolding year_start_def by auto
  qed
  have high: "era_year n < 399 \<Longrightarrow> n < year_start (era_year n + 1)"
    using era_year_mono [of "year_start (era_year n + 1)" n] era_year_at(1) [of "era_year n + 1"] b by linarith
  have last: "year_start 399 = 145731" "leap_year 400" by (simp_all add: year_start_def leap_year_def)
  show "n \<le> year_start (era_year n) + 365"
    using high step [of "era_year n"] assms b last by (cases "era_year n = 399") auto
  show "leap_year (era_year n + 1) \<or> n < year_start (era_year n) + 365"
    using high step [of "era_year n"] assms b last by (cases "era_year n = 399") auto
qed

text \<open>The days of a year that starts in March, one by one.\<close>

definition march_date :: "int \<Rightarrow> int \<times> int" where
  "march_date n = (let mp = (5 * n + 2) div 153
     in (if mp < 10 then mp + 3 else mp - 9, n - (153 * mp + 2) div 5 + 1))"

definition march_month :: "int \<Rightarrow> int" where
  "march_month m = (153 * (if m > 2 then m - 3 else m + 9) + 2) div 5"

lemma march_dates_checked:
  "list_all (\<lambda>n. case march_date n of (m, d) \<Rightarrow> 1 \<le> m \<and> m \<le> 12 \<and> 1 \<le> d
     \<and> d \<le> (if m = 2 then (if n = 365 then 29 else 28) else days_in 1 m)
     \<and> march_month m + d - 1 = n) [0..365]"
  by code_simp

lemma march_date_ok:
  assumes "0 \<le> n" "n \<le> 365" "march_date n = (m, d)"
  shows "1 \<le> m" "m \<le> 12" "1 \<le> d" "d \<le> (if m = 2 then (if n = 365 then 29 else 28) else days_in 1 m)"
    "march_month m + d - 1 = n"
proof -
  have "n \<in> set [0..365]" using assms by simp
  with march_dates_checked have "case march_date n of (m, d) \<Rightarrow> 1 \<le> m \<and> m \<le> 12 \<and> 1 \<le> d
     \<and> d \<le> (if m = 2 then (if n = 365 then 29 else 28) else days_in 1 m) \<and> march_month m + d - 1 = n"
    unfolding list_all_iff by (rule bspec)
  then show "1 \<le> m" "m \<le> 12" "1 \<le> d" "d \<le> (if m = 2 then (if n = 365 then 29 else 28) else days_in 1 m)"
    "march_month m + d - 1 = n"
    unfolding assms(3) by simp_all
qed

lemma civil_date_ok:
  assumes "civil_date x = (y, m, d)"
  shows "1 \<le> m" "m \<le> 12" "1 \<le> d" "d \<le> days_in y m" "day_of_civil y m d = x"
proof -
  define doe where "doe = (x + 719468) mod 146097"
  define e where "e = (x + 719468) div 146097"
  define n where "n = doe - year_start (era_year doe)"
  have doe: "0 \<le> doe" "doe < 146097" by (simp_all add: doe_def)
  note b = era_year_bounds [OF doe]
  have n: "0 \<le> n" "n \<le> 365" "leap_year (era_year doe + 1) \<or> n < 365" using b by (auto simp: n_def)
  obtain m' d' where md: "march_date n = (m', d')" by fastforce
  have "civil_date x = (case march_date n of (m', d') \<Rightarrow>
      (era_year doe + e * 400 + (if m' \<le> 2 then 1 else 0), m', d'))"
    by (simp only: civil_date_def march_date_def n_def doe_def e_def year_start_def era_year_def Let_def prod.case)
  then have eq: "m = m'" "d = d'" "y = era_year doe + e * 400 + (if m \<le> 2 then 1 else 0)"
    using assms md by auto
  note ok = march_date_ok [OF n(1,2) md]
  show "1 \<le> m" "m \<le> 12" "1 \<le> d" using ok eq by simp_all
  have leap: "leap_year (k + e * 400) = leap_year k" for k
  proof -
    have "(k + e * 400) mod 4 = k mod 4" "(k + e * 400) mod 100 = k mod 100" "(k + e * 400) mod 400 = k mod 400"
      using mod_mult_self1 [of k "e * 100" 4] mod_mult_self1 [of k "e * 4" 100] by (simp_all add: mult.assoc)
    then show ?thesis by (simp add: leap_year_def)
  qed
  show "d \<le> days_in y m"
  proof (cases "m = 2")
    case True
    then have "y = (era_year doe + 1) + e * 400" using eq by simp
    then have "leap_year y = leap_year (era_year doe + 1)" by (simp only: leap)
    with True ok(4) eq n(3) show ?thesis by (auto simp: days_in_def split: if_splits)
  next
    case False
    with ok(4) eq show ?thesis by (auto simp: days_in_def split: if_splits)
  qed
  have "(if m \<le> 2 then y - 1 else y) = era_year doe + e * 400" using eq by simp
  moreover have "(era_year doe + e * 400) mod 400 = era_year doe" "(era_year doe + e * 400) div 400 = e"
    using b by simp_all
  ultimately have "day_of_civil y m d = e * 146097 + (year_start (era_year doe) + (march_month m + d - 1)) - 719468"
    by (simp add: day_of_civil_def march_month_def year_start_def Let_def)
  also have "\<dots> = e * 146097 + doe - 719468" using ok(5) eq by (simp add: n_def)
  also have "\<dots> = x" by (simp add: e_def doe_def)
  finally show "day_of_civil y m d = x" .
qed

text \<open>Decimal numbers of a fixed width.\<close>

fun dec_fixed :: "nat \<Rightarrow> nat \<Rightarrow> string" where
  "dec_fixed 0 n = []"
| "dec_fixed (Suc k) n = dec_fixed k (n div 10) @ [digit_char (n mod 10)]"

lemma length_dec_fixed [simp]: "length (dec_fixed k n) = k"
  by (induction k arbitrary: n) auto

lemma byte_digit [simp]: "d < 10 \<Longrightarrow> byte (digit_char d) = 48 + d"
  by (simp add: byte_digit_char)

lemma dec_fixed_digits: "list_all is_digit (dec_fixed k n)"
  by (induction k arbitrary: n) (auto simp: is_digit_def)

lemma digits_value_append: "digits_value (s @ t) = digits_value s * 10 ^ length t + digits_value t"
  by (induction s) (auto simp: algebra_simps power_add)

lemma digits_value_dec_fixed: "digits_value (dec_fixed k n) = int (n mod 10 ^ k)"
proof (induction k arbitrary: n)
  case (Suc k)
  have "n mod (10 * 10 ^ k) = 10 * (n div 10 mod 10 ^ k) + n mod 10"
    by (rule mod_mult2_eq)
  with Suc show ?case by (simp add: digits_value_append)
qed simp

lemma pad_number_Suc:
  assumes "0 < k"
  shows "pad_number (Suc k) n = pad_number k (n div 10) @ [digit_char (n mod 10)]"
proof (cases "n < 10")
  case True
  moreover obtain j where "k = Suc j" using assms by (cases k) auto
  moreover have "digit_char 0 = CHR ''0''" by code_simp
  ultimately show ?thesis
    by (simp add: pad_number_def nat_string.simps [of n] nat_string.simps [of 0] replicate_append_same)
next
  case False
  then show ?thesis by (simp add: pad_number_def nat_string.simps [of n] Let_def)
qed

lemma pad_number_fixed: "n < 10 ^ k \<Longrightarrow> 0 < k \<Longrightarrow> pad_number k n = dec_fixed k n"
proof (induction k arbitrary: n)
  case (Suc k)
  show ?case
  proof (cases "k = 0")
    case True
    with Suc.prems show ?thesis by (simp add: pad_number_def nat_string.simps)
  next
    case False
    then have "n div 10 < 10 ^ k" using Suc.prems(1) by (simp add: less_mult_imp_div_less mult.commute)
    with Suc.IH False show ?thesis by (simp add: pad_number_Suc)
  qed
qed simp

text \<open>The JSON text of an instant of the years 0 to 9999 (\<open>RFC3339Nano\<close>, at microseconds).\<close>

definition fraction_text :: "int \<Rightarrow> string" where
  "fraction_text us = (if us = 0 then []
     else CHR ''.'' # rev (dropWhile (\<lambda>c. c = CHR ''0'') (rev (pad_number 6 (nat us)))))"

definition time_text :: "time \<Rightarrow> string option" where
  "time_text t =
     (case civil_date (t div day) of (y, _, _) \<Rightarrow>
        if y < 0 \<or> 9999 < y then None
        else Some (butlast (rfc3339 t) @ fraction_text (t mod second) @ ''Z''))"

definition parse_uint :: "string \<Rightarrow> int \<Rightarrow> int \<Rightarrow> int option" where
  "parse_uint s lo hi =
     (if list_all is_digit s \<and> lo \<le> digits_value s \<and> digits_value s \<le> hi then Some (digits_value s) else None)"

definition parse_zone :: "string \<Rightarrow> time option" where
  "parse_zone s =
     (if s = ''Z'' then Some 0
      else if length s = 6 \<and> hd s \<in> {CHR ''+'', CHR ''-''} \<and> s ! 3 = CHR '':''
      then (case (parse_uint (take 2 (drop 1 s)) 0 23, parse_uint (drop 4 s) 0 59) of
              (Some h, Some m) \<Rightarrow> Some ((if hd s = CHR ''-'' then - 1 else 1) * (h * hour + m * minute))
            | _ \<Rightarrow> None)
      else None)"

definition parse_time :: "string \<Rightarrow> time option" where
  "parse_time s =
     (if length s < 19 \<or> s ! 4 \<noteq> CHR ''-'' \<or> s ! 7 \<noteq> CHR ''-'' \<or> s ! 10 \<noteq> CHR ''T'' \<or> s ! 13 \<noteq> CHR '':''
         \<or> s ! 16 \<noteq> CHR '':'' then None
      else case (parse_uint (take 4 s) 0 9999, parse_uint (take 2 (drop 5 s)) 1 12) of
        (Some y, Some m) \<Rightarrow>
          (case (parse_uint (take 2 (drop 8 s)) 1 (days_in y m), parse_uint (take 2 (drop 11 s)) 0 23,
                 parse_uint (take 2 (drop 14 s)) 0 59, parse_uint (take 2 (drop 17 s)) 0 59) of
             (Some d, Some h, Some mi, Some se) \<Rightarrow>
               let rest = drop 19 s;
                   ds = (case rest of c # r \<Rightarrow> if c = CHR ''.'' then takeWhile is_digit r else [] | [] \<Rightarrow> []);
                   us = (if ds = [] then 0 else digits_value (take 6 (ds @ replicate 6 CHR ''0'')))
               in map_option (\<lambda>zone. day_of_civil y m d * day + h * hour + mi * minute + se * second + us - zone)
                    (parse_zone (if ds = [] then rest else drop (length ds + 1) rest))
           | _ \<Rightarrow> None)
      | _ \<Rightarrow> None)"

lemma parse_uint_fixed:
  "n < 10 ^ k \<Longrightarrow> lo \<le> int n \<Longrightarrow> int n \<le> hi \<Longrightarrow> parse_uint (dec_fixed k n) lo hi = Some (int n)"
  by (simp add: parse_uint_def dec_fixed_digits digits_value_dec_fixed)

lemma strip_tail: "rev (dropWhile (\<lambda>x. x = c) (rev s)) @ replicate (length s - length (dropWhile (\<lambda>x. x = c) (rev s))) c = s"
proof -
  have "takeWhile (\<lambda>x. x = c) (rev s) = replicate (length (takeWhile (\<lambda>x. x = c) (rev s))) c"
    by (metis (full_types) replicate_length_same set_takeWhileD)
  moreover have "length (takeWhile (\<lambda>x. x = c) (rev s)) = length s - length (dropWhile (\<lambda>x. x = c) (rev s))"
    by (metis add_diff_cancel_right' length_append length_rev takeWhile_dropWhile_id)
  ultimately show ?thesis
    by (metis rev_append rev_replicate rev_rev_ident takeWhile_dropWhile_id)
qed

definition fraction_digits :: "string \<Rightarrow> string" where
  "fraction_digits rest = (case rest of c # r \<Rightarrow> if c = CHR ''.'' then takeWhile is_digit r else [] | [] \<Rightarrow> [])"

definition micros :: "string \<Rightarrow> int" where
  "micros ds = (if ds = [] then 0 else digits_value (take 6 (ds @ replicate 6 CHR ''0'')))"

lemma fraction_roundtrip:
  assumes "0 \<le> us" "us < 1000000"
  shows "micros (fraction_digits (fraction_text us @ ''Z'')) = us"
    "(let ds = fraction_digits (fraction_text us @ ''Z'')
      in if ds = [] then fraction_text us @ ''Z'' else drop (length ds + 1) (fraction_text us @ ''Z'')) = ''Z''"
proof -
  define F where "F = dec_fixed 6 (nat us)"
  define G where "G = rev (dropWhile (\<lambda>c. c = CHR ''0'') (rev F))"
  have F: "pad_number 6 (nat us) = F" using assms by (simp add: F_def pad_number_fixed)
  have tail: "G @ replicate (length F - length G) CHR ''0'' = F"
    unfolding G_def using strip_tail [of "CHR ''0''" F] by simp
  have "set G \<subseteq> set F" by (metis Un_upper1 set_append tail)
  then have digits: "list_all is_digit G" using dec_fixed_digits [of 6 "nat us"] by (auto simp: F_def list_all_iff)
  have len: "length F = 6" "length G \<le> 6" using arg_cong [OF tail, of length] by (simp_all add: F_def)
  have "take 6 (G @ replicate 6 CHR ''0'') = F"
    using tail len by (simp add: take_replicate)
  moreover have "digits_value F = us"
    using assms by (simp add: F_def digits_value_dec_fixed)
  moreover have "G \<noteq> []" if "us \<noteq> 0"
  proof
    assume "G = []"
    then have "F = replicate 6 CHR ''0''" using tail len by simp
    then have "digits_value F = 0" by (simp add: numeral_eq_Suc)
    with \<open>digits_value F = us\<close> that show False by simp
  qed
  moreover have "takeWhile is_digit (G @ ''Z'') = G"
    using digits by (simp add: list_all_iff takeWhile_append2 is_digit_def)
  ultimately show "micros (fraction_digits (fraction_text us @ ''Z'')) = us"
    "(let ds = fraction_digits (fraction_text us @ ''Z'')
      in if ds = [] then fraction_text us @ ''Z'' else drop (length ds + 1) (fraction_text us @ ''Z'')) = ''Z''"
    by (auto simp: fraction_text_def F G_def [symmetric] fraction_digits_def micros_def)
qed

lemma parse_time_fields:
  assumes "y < 10000" "1 \<le> m" "m \<le> 12" "1 \<le> d" "int d \<le> days_in (int y) (int m)" "h < 24" "mi < 60" "se < 60"
  shows "parse_time (dec_fixed 4 y @ ''-'' @ dec_fixed 2 m @ ''-'' @ dec_fixed 2 d @ ''T'' @ dec_fixed 2 h @ '':''
      @ dec_fixed 2 mi @ '':'' @ dec_fixed 2 se @ rest) =
    map_option (\<lambda>zone. day_of_civil (int y) (int m) (int d) * day + int h * hour + int mi * minute + int se * second
        + micros (fraction_digits rest) - zone)
      (parse_zone (let ds = fraction_digits rest in if ds = [] then rest else drop (length ds + 1) rest))"
proof -
  have "d \<le> 31" using assms(5) by (simp add: days_in_def split: if_splits)
  then have "parse_uint (dec_fixed 4 y) 0 9999 = Some (int y)" "parse_uint (dec_fixed 2 m) 1 12 = Some (int m)"
    "parse_uint (dec_fixed 2 d) 1 (days_in (int y) (int m)) = Some (int d)"
    "parse_uint (dec_fixed 2 h) 0 23 = Some (int h)"
    "parse_uint (dec_fixed 2 mi) 0 59 = Some (int mi)" "parse_uint (dec_fixed 2 se) 0 59 = Some (int se)"
    using assms by (simp_all add: parse_uint_fixed)
  then show ?thesis
    by (simp add: parse_time_def nth_append fraction_digits_def [symmetric] micros_def [symmetric] Let_def)
qed

lemma time_roundtrip:
  assumes "time_text t = Some s"
  shows "parse_time s = Some t"
proof -
  obtain y m d where c: "civil_date (t div day) = (y, m, d)" by (metis prod_cases3)
  note ok = civil_date_ok [OF c]
  have y: "0 \<le> y" "y \<le> 9999" and s: "s = butlast (rfc3339 t) @ fraction_text (t mod second) @ ''Z''"
    using assms c by (auto simp: time_text_def split: if_splits)
  define r where "r = t mod day div second"
  have r: "0 \<le> r" "r < 86400" by (simp_all add: r_def div_less_iff_less_mult)
  define h mi se where "h = nat (r div 3600)" and "mi = nat (r div 60 mod 60)" and "se = nat (r mod 60)"
  have fields: "h < 24" "mi < 60" "se < 60" "int h = r div 3600" "int mi = r div 60 mod 60" "int se = r mod 60"
    using r by (simp_all add: h_def mi_def se_def nat_less_iff div_less_iff_less_mult pos_imp_zdiv_nonneg_iff)
  have date: "nat y < 10000" "nat m \<le> 12" "nat d \<le> 31" "int (nat y) = y" "int (nat m) = m" "int (nat d) = d"
      "1 \<le> nat m" "1 \<le> nat d"
    using ok(1-4) y by (auto simp: days_in_def split: if_splits)
  have pads: "pad_number 4 (nat y) = dec_fixed 4 (nat y)" "pad_number 2 (nat m) = dec_fixed 2 (nat m)"
      "pad_number 2 (nat d) = dec_fixed 2 (nat d)" "pad_number 2 h = dec_fixed 2 h"
      "pad_number 2 mi = dec_fixed 2 mi" "pad_number 2 se = dec_fixed 2 se"
    using fields(1-3) date(1-3) by (simp_all add: pad_number_fixed)
  have "rfc3339 t = pad_number 4 (nat y) @ ''-'' @ pad_number 2 (nat m) @ ''-'' @ pad_number 2 (nat d) @ ''T'' @
      pad_number 2 h @ '':'' @ pad_number 2 mi @ '':'' @ pad_number 2 se @ ''Z''"
    unfolding rfc3339_def c h_def mi_def se_def r_def Let_def prod.case ..
  then have "butlast (rfc3339 t) = dec_fixed 4 (nat y) @ ''-'' @ dec_fixed 2 (nat m) @ ''-'' @ dec_fixed 2 (nat d)
      @ ''T'' @ dec_fixed 2 h @ '':'' @ dec_fixed 2 mi @ '':'' @ dec_fixed 2 se"
    unfolding pads by (simp add: butlast_append)
  then have "s = dec_fixed 4 (nat y) @ ''-'' @ dec_fixed 2 (nat m) @ ''-'' @ dec_fixed 2 (nat d)
      @ ''T'' @ dec_fixed 2 h @ '':'' @ dec_fixed 2 mi @ '':'' @ dec_fixed 2 se @ fraction_text (t mod second) @ ''Z''"
    unfolding s by simp
  moreover have "0 \<le> t mod second" "t mod second < 1000000" by simp_all
  note frac = fraction_roundtrip [OF this]
  have "parse_time (dec_fixed 4 (nat y) @ ''-'' @ dec_fixed 2 (nat m) @ ''-'' @ dec_fixed 2 (nat d)
      @ ''T'' @ dec_fixed 2 h @ '':'' @ dec_fixed 2 mi @ '':'' @ dec_fixed 2 se @ fraction_text (t mod second) @ ''Z'')
    = map_option (\<lambda>zone. day_of_civil y m d * day + r div 3600 * hour
        + r div 60 mod 60 * minute + r mod 60 * second + t mod second - zone) (parse_zone ''Z'')"
    using parse_time_fields [OF date(1,7,2,8) _ fields(1-3), of "fraction_text (t mod second) @ ''Z''"] ok(4)
    unfolding frac date(4-6) fields(4-6) by blast
  ultimately have "parse_time s = map_option (\<lambda>zone. day_of_civil y m d * day + r div 3600 * hour
        + r div 60 mod 60 * minute + r mod 60 * second + t mod second - zone) (parse_zone ''Z'')"
    by simp
  moreover have "r div 3600 * hour + r div 60 mod 60 * minute + r mod 60 * second = r * second"
  proof -
    have "r div 60 = 60 * (r div 60 div 60) + r div 60 mod 60" by simp
    moreover have "r div 60 div 60 = r div 3600" using zdiv_zmult2_eq [of 60 r 60] by simp
    moreover have "r = 60 * (r div 60) + r mod 60" by simp
    ultimately show ?thesis by linarith
  qed
  moreover have "r * second + t mod second = t mod day"
  proof -
    have "t mod day mod second = t mod second" by (simp add: mod_mod_cancel)
    then show ?thesis unfolding r_def by (metis div_mult_mod_eq)
  qed
  moreover have "day_of_civil y m d * day + t mod day = t"
    unfolding ok(5) by (rule div_mult_mod_eq)
  moreover have "parse_zone ''Z'' = Some 0" by (simp add: parse_zone_def)
  ultimately show ?thesis by (simp only: option.map) (simp only: add.assoc diff_zero)
qed

section \<open>Plain JSON strings\<close>

text \<open>Printable ASCII without the characters \<open>Marshal\<close> escapes.\<close>

definition plain_char :: "char \<Rightarrow> bool" where
  "plain_char c \<longleftrightarrow> 32 \<le> byte c \<and> byte c < 127 \<and> byte c \<notin> {34, 38, 60, 62, 92}"

lemma json_string_plain: "list_all plain_char s \<Longrightarrow> json_string s = CHR 0x22 # s @ [CHR 0x22]"
proof -
  assume "list_all plain_char s"
  then have "concat (map escape_rune (decode_runes s)) = s"
    by (induction s) (auto simp: plain_char_def decode_runes_ascii escape_rune_def rune_error_def)
  then show ?thesis by (simp add: json_string_def)
qed

lemma parse_string_plain:
  "list_all plain_char s \<Longrightarrow> length s < n \<Longrightarrow> parse_string n (s @ CHR 0x22 # r) acc = Some (acc @ s, r)"
proof (induction s arbitrary: n acc)
  case Nil
  then obtain k where "n = Suc k" by (cases n) auto
  then show ?case by simp
next
  case (Cons c s)
  then obtain k where "n = Suc k" by (cases n) auto
  with Cons show ?case by (simp add: plain_char_def)
qed

lemma parse_value_plain:
  assumes "list_all plain_char s"
  shows "parse_value (Suc n) (json_string s @ r) = Some (JStr s, r)"
  using assms
  by (simp add: json_string_plain skip_space_def is_json_space_def parse_string_plain Let_def)

lemma parse_member_plain:
  assumes "list_all plain_char k" "list_all plain_char v" "c = CHR '','' \<or> c = CHR ''}''"
  shows "parse_members (Suc (Suc n)) (json_string k @ '':'' @ json_string v @ c # t) acc =
    (if c = CHR '','' then parse_members (Suc n) t (acc @ [(k, JStr v)])
     else Some (JObj (acc @ [(k, JStr v)]), t))"
  using assms(3) parse_value_plain [OF assms(2), of n "c # t"] assms(1)
  by (auto simp: json_string_plain [OF assms(1)] skip_space_def is_json_space_def parse_string_plain
      simp del: parse_value.simps)

lemma parse_json_two:
  assumes "list_all plain_char k" "list_all plain_char v" "list_all plain_char k'" "list_all plain_char v'"
  shows "parse_json (json_text (JObj [(k, JStr v), (k', JStr v')])) = Some (JObj [(k, JStr v), (k', JStr v')])"
proof -
  let ?rest = "json_string k @ '':'' @ json_string v @ CHR '','' # json_string k' @ '':'' @ json_string v' @ ''}''"
  have printed: "json_text (JObj [(k, JStr v), (k', JStr v')]) = CHR ''{'' # ?rest" by simp
  obtain n where n: "2 * length (CHR ''{'' # ?rest) + 2 = Suc (Suc (Suc (Suc n)))"
    by (rule that [of "2 * length ?rest"]) simp
  have "parse_members (Suc (Suc (Suc n))) ?rest [] = Some (JObj [(k, JStr v), (k', JStr v')], [])"
    using parse_member_plain [OF assms(1,2), of "CHR '',''" "Suc n"]
      parse_member_plain [OF assms(3,4), of "CHR ''}''" n "[]"] by simp
  moreover have "\<exists>r. ?rest = CHR 0x22 # r" by (simp add: json_string_def)
  then have "skip_space ?rest = ?rest" "hd ?rest \<noteq> CHR ''}''" "?rest \<noteq> []"
    by (auto simp: skip_space_def is_json_space_def)
  ultimately have "parse_value (Suc (Suc (Suc (Suc n)))) (CHR ''{'' # ?rest) = Some (JObj [(k, JStr v), (k', JStr v')], [])"
    by (cases ?rest) (simp_all add: skip_space_def is_json_space_def Let_def del: append.simps)
  then show ?thesis
    unfolding parse_json_def printed n by (simp add: skip_space_def)
qed

section \<open>The cursor\<close>

text \<open>An error of \<open>Marshal\<close> is dropped: a year out of range gives the empty cursor.\<close>

definition encode_cursor :: "time \<Rightarrow> uuid \<Rightarrow> string" where
  "encode_cursor t i =
     (case time_text t of
        None \<Rightarrow> []
      | Some s \<Rightarrow> b64_encode (json_text (JObj [(''updatedAt'', JStr s), (''id'', JStr (uuid_string i))])))"

text \<open>Midnight of January 1, year 1: \<open>time.Time{}\<close>.\<close>

definition zero_time :: time where
  "zero_time = - 62135596800000000"

definition decode_cursor :: "(string \<Rightarrow> uuid option) \<Rightarrow> string \<Rightarrow> (time \<times> uuid) option option" where
  "decode_cursor parse_uuid v =
     (if v = [] then Some None
      else case Option.bind (b64_decode v) parse_json of
        None \<Rightarrow> None
      | Some j \<Rightarrow>
          (case (json_field ''updatedAt'' j, json_field ''id'' j) of
             (JStr a, JStr b) \<Rightarrow>
               (case (parse_time a, parse_uuid b) of
                  (Some t, Some i) \<Rightarrow> if t = zero_time \<or> i = uuid_nil then None else Some (Some (t, i))
                | _ \<Rightarrow> None)
           | _ \<Rightarrow> None))"

lemma plain_digits: "list_all is_digit s \<Longrightarrow> list_all plain_char s"
  by (auto simp: list_all_iff is_digit_def plain_char_def)

lemma plain_digit_char: "d < 16 \<Longrightarrow> plain_char (digit_char d)"
  by (auto simp: plain_char_def byte_digit_char)

lemma plain_hex: "list_all plain_char (hex_fixed k n)"
  by (induction k arbitrary: n) (auto simp: plain_digit_char)

lemma plain_uuid: "list_all plain_char (uuid_string i)"
proof -
  have "list_all plain_char (take k (drop j (hex_fixed 32 n)))" for k j n
    using plain_hex [of 32 n] by (auto simp: list_all_iff dest!: in_set_takeD in_set_dropD)
  then show ?thesis
    by (auto simp: uuid_string_def Let_def plain_hex plain_char_def)
qed

lemma plain_nat: "list_all plain_char (nat_string n)"
proof (induction n rule: nat_string.induct)
  case (1 n)
  then show ?case by (cases "n < 10") (auto simp: nat_string.simps [of n] plain_digit_char)
qed

lemma plain_pad: "list_all plain_char (pad_number k n)"
  by (auto simp: pad_number_def Let_def plain_nat list_all_iff plain_char_def)
    (use plain_nat in \<open>auto simp: list_all_iff plain_char_def\<close>)

lemma plain_time: "time_text t = Some s \<Longrightarrow> list_all plain_char s"
proof -
  assume "time_text t = Some s"
  then have s: "s = butlast (rfc3339 t) @ fraction_text (t mod second) @ ''Z''"
    by (auto simp: time_text_def split: if_splits prod.splits)
  have "list_all plain_char (rfc3339 t)"
    by (auto simp: rfc3339_def Let_def plain_pad plain_char_def split: prod.splits)
  then have "list_all plain_char (butlast (rfc3339 t))"
    by (auto simp: list_all_iff dest: in_set_butlastD)
  moreover have "list_all plain_char (fraction_text us)" for us
    using plain_pad [of 6 "nat us"]
    by (auto simp: fraction_text_def list_all_iff plain_char_def dest!: set_dropWhileD)
  ultimately show ?thesis by (simp add: s plain_char_def)
qed

lemma cursor_roundtrip_aux:
  assumes "time_text t \<noteq> None" and "t \<noteq> zero_time" and "i \<noteq> uuid_nil"
    and "parse_uuid (uuid_string i) = Some i"
  shows "decode_cursor parse_uuid (encode_cursor t i) = Some (Some (t, i))"
proof -
  obtain s where s: "time_text t = Some s" using assms(1) by auto
  let ?j = "JObj [(''updatedAt'', JStr s), (''id'', JStr (uuid_string i))]"
  have enc: "encode_cursor t i = b64_encode (json_text ?j)" by (simp add: encode_cursor_def s)
  have "parse_json (json_text ?j) = Some ?j"
    by (rule parse_json_two) (simp_all add: plain_time [OF s] plain_uuid plain_char_def)
  then have "Option.bind (b64_decode (encode_cursor t i)) parse_json = Some ?j"
    by (simp only: enc b64_roundtrip Option.bind.bind_lunit)
  moreover have "encode_cursor t i \<noteq> []"
    unfolding enc by (auto dest!: arg_cong [of _ "[]" b64_decode] simp: b64_roundtrip)
      (simp add: b64_decode_def)
  moreover have "json_field ''updatedAt'' ?j = JStr s" "json_field ''id'' ?j = JStr (uuid_string i)"
    by (simp_all add: json_field_def to_lower_def ascii_lower_def)
  ultimately show ?thesis
    using assms time_roundtrip [OF s] by (simp add: decode_cursor_def)
qed

text \<open>C36: a cursor the server hands out decodes to the instant and the id it was made from.\<close>
theorem cursor_roundtrip:
  assumes "time_text t \<noteq> None" and "t \<noteq> zero_time" and "i \<noteq> uuid_nil"
    and "parse_uuid (uuid_string i) = Some i"
  shows "decode_cursor parse_uuid (encode_cursor t i) = Some (Some (t, i))"
  using assms by (rule cursor_roundtrip_aux)

text \<open>A parser of ids that knows one of them.\<close>

theorem cursor_roundtrip_witness:
  "decode_cursor (\<lambda>s. if s = uuid_string 7 then Some 7 else None) (encode_cursor 1784635262000500 7)
     = Some (Some (1784635262000500, 7))"
proof -
  have "time_text 1784635262000500 \<noteq> None" by code_simp
  then show ?thesis
    by (rule cursor_roundtrip) (simp_all add: zero_time_def uuid_nil_def)
qed

end
