(* ===== verification/Conversations.thy ===== *)
theory Conversations
  imports Sync Cursor
begin

text \<open>
  \<open>internal/conversations/service.go\<close> and the queries of \<open>store/conversations.sql.go\<close>: creating,
  reading, listing, changing and deleting the conversations of one actor. The catalog of models is
  the interface \<open>model_catalog\<close>; parsing UUIDs and PostgreSQL's text search
  (\<open>to_tsvector('simple', title) @@ plainto_tsquery('simple', query)\<close>) are parameters of the service.
\<close>

section \<open>Actors and views\<close>

record conv_actor =
  ca_type :: actor_type
  ca_id :: uuid

definition valid_conv_actor :: "conv_actor \<Rightarrow> bool" where
  "valid_conv_actor a \<longleftrightarrow> ca_id a \<noteq> uuid_nil \<and> (ca_type a = User \<or> ca_type a = Guest)"

record conv_view =
  cv_id :: uuid
  cv_title :: string
  cv_status :: conv_status
  cv_model_id :: uuid
  cv_state :: generation_state
  cv_created_at :: time
  cv_updated_at :: time

definition map_conversation :: "conversation_row \<Rightarrow> conv_view" where
  "map_conversation c = \<lparr>cv_id = conv_id c, cv_title = conv_title c, cv_status = conv_status c,
     cv_model_id = conv_model_id c, cv_state = conv_gen_state c, cv_created_at = conv_created_at c,
     cv_updated_at = conv_updated_at c\<rparr>"

record message_view =
  vm_id :: uuid
  vm_conversation_id :: uuid
  vm_role :: message_role
  vm_content :: string
  vm_status :: message_status
  vm_sequence :: int
  vm_created_at :: time
  vm_model_id :: "uuid option"
  vm_model_name :: "string option"

definition map_listed_message :: "message_row \<times> uuid option \<times> string option \<Rightarrow> message_view" where
  "map_listed_message r =
     (case r of (m, model, name) \<Rightarrow>
        \<lparr>vm_id = msg_id m, vm_conversation_id = msg_conversation_id m, vm_role = msg_role m,
         vm_content = msg_content m, vm_status = msg_status m, vm_sequence = msg_sequence m,
         vm_created_at = msg_created_at m, vm_model_id = model, vm_model_name = name\<rparr>)"

record create_input =
  ci_title :: string
  ci_model :: "uuid option"
  ci_key :: string

record update_input =
  ui_title :: "string option"
  ui_archived :: "bool option"
  ui_model :: "uuid option"

record list_input =
  li_limit :: int
  li_cursor :: string
  li_search :: string
  li_archived :: bool

record 'a page =
  pg_items :: "'a list"
  pg_cursor :: string

record conv_service =
  cs_catalog :: model_catalog
  cs_uuid :: "string \<Rightarrow> uuid option"
  cs_search :: "string \<Rightarrow> string \<Rightarrow> bool"

definition unique_error :: "error \<Rightarrow> bool" where
  "unique_error e \<longleftrightarrow> pg_code e = Some ''23505''"

section \<open>Queries\<close>

text \<open>What a \<open>text\<close> column takes: valid UTF-8 without the zero byte.\<close>

definition text_ok :: "string \<Rightarrow> bool" where
  "text_ok s \<longleftrightarrow> valid_utf8 s \<and> CHR 0x00 \<notin> set s"

definition title_ok :: "string \<Rightarrow> bool" where
  "title_ok t \<longleftrightarrow> 1 \<le> rune_count t \<and> rune_count t \<le> 120"

definition key_length_ok :: "string \<Rightarrow> bool" where
  "key_length_ok k \<longleftrightarrow> 16 \<le> rune_count k \<and> rune_count k \<le> 128"

definition opt_all :: "('a \<Rightarrow> bool) \<Rightarrow> 'a option \<Rightarrow> bool" where
  "opt_all P v = (case v of None \<Rightarrow> True | Some x \<Rightarrow> P x)"

text \<open>The row of an actor: the column of the owner and the condition on it.\<close>

definition owned_by :: "conv_actor \<Rightarrow> conversation_row \<Rightarrow> bool" where
  "owned_by a c = (if ca_type a = User then conv_user_id c = Some (ca_id a) else conv_guest_id c = Some (ca_id a))"

definition new_conversation ::
  "uuid \<Rightarrow> uuid option \<Rightarrow> uuid option \<Rightarrow> string \<Rightarrow> uuid \<Rightarrow> string option \<Rightarrow> time \<Rightarrow> conversation_row" where
  "new_conversation i user guest title model key t =
     \<lparr>conv_id = i, conv_user_id = user, conv_guest_id = guest, conv_title = title,
      conv_status = ConvActive, conv_created_at = t, conv_updated_at = t, conv_model_id = model,
      conv_gen_state = Idle, conv_renamed = False, conv_deleted_at = None, conv_creation_key = key,
      conv_deletion_key = None\<rparr>"

definition conversation_clash :: "conversation_row \<Rightarrow> conversation_row \<Rightarrow> bool" where
  "conversation_clash c r \<longleftrightarrow> conv_id r = conv_id c
     \<or> conv_guest_id c \<noteq> None \<and> conv_guest_id r = conv_guest_id c
     \<or> conv_user_id c \<noteq> None \<and> conv_user_id r = conv_user_id c \<and> conv_creation_key c \<noteq> None
       \<and> conv_creation_key r = conv_creation_key c"

definition insert_conversation :: "conversation_row \<Rightarrow> database \<Rightarrow> error + conversation_row \<times> database" where
  "insert_conversation c d =
     (if \<not> text_ok (conv_title c) \<or> \<not> opt_all text_ok (conv_creation_key c) then Inl invalid_text
      else if \<not> title_ok (conv_title c) then Inl (check_violation ''conversations_title_check'')
      else if \<not> opt_all key_length_ok (conv_creation_key c)
      then Inl (check_violation ''conversations_creation_idempotency_key_check'')
      else if list_ex (conversation_clash c) (conversations d)
      then Inl (unique_violation ''conversations'')
      else if \<not> opt_all (\<lambda>u. list_ex (\<lambda>r. usr_id r = u) (users d)) (conv_user_id c)
           \<or> \<not> opt_all (\<lambda>g. list_ex (\<lambda>r. gst_id r = g) (guest_sessions d)) (conv_guest_id c)
           \<or> \<not> list_ex (\<lambda>m. mdl_id m = conv_model_id c) (models d)
      then Inl (foreign_key_violation ''conversations'')
      else Inr (c, d\<lparr>conversations := conversations d @ [c]\<rparr>))"

definition create_user_conversation ::
  "uuid \<Rightarrow> uuid \<Rightarrow> string \<Rightarrow> uuid \<Rightarrow> string option \<Rightarrow> time \<Rightarrow> database \<Rightarrow> error + conversation_row \<times> database" where
  "create_user_conversation i user title model key t =
     insert_conversation (new_conversation i (Some user) None title model key t)"

definition create_guest_conversation ::
  "uuid \<Rightarrow> uuid \<Rightarrow> string \<Rightarrow> uuid \<Rightarrow> string option \<Rightarrow> time \<Rightarrow> database \<Rightarrow> error + conversation_row \<times> database" where
  "create_guest_conversation i guest title model key t =
     insert_conversation (new_conversation i None (Some guest) title model key t)"

definition one_row :: "('r \<Rightarrow> bool) \<Rightarrow> 'r list \<Rightarrow> error + 'r" where
  "one_row P rows = (case find P rows of None \<Rightarrow> Inl NoRows | Some r \<Rightarrow> Inr r)"

definition get_user_conversation :: "uuid \<Rightarrow> uuid \<Rightarrow> database \<Rightarrow> error + conversation_row" where
  "get_user_conversation i user d =
     one_row (\<lambda>c. conv_id c = i \<and> conv_user_id c = Some user \<and> conv_deleted_at c = None) (conversations d)"

definition get_guest_conversation :: "uuid \<Rightarrow> uuid \<Rightarrow> database \<Rightarrow> error + conversation_row" where
  "get_guest_conversation i guest d =
     one_row (\<lambda>c. conv_id c = i \<and> conv_guest_id c = Some guest \<and> conv_deleted_at c = None) (conversations d)"

definition get_guest_conversation_by_owner :: "uuid \<Rightarrow> database \<Rightarrow> error + conversation_row" where
  "get_guest_conversation_by_owner guest d =
     one_row (\<lambda>c. conv_guest_id c = Some guest \<and> conv_deleted_at c = None) (conversations d)"

definition get_user_conversation_by_creation_key :: "uuid \<Rightarrow> string \<Rightarrow> database \<Rightarrow> error + conversation_row" where
  "get_user_conversation_by_creation_key user key d =
     one_row (\<lambda>c. conv_user_id c = Some user \<and> conv_creation_key c = Some key) (conversations d)"

definition get_guest_conversation_by_creation_key :: "uuid \<Rightarrow> string \<Rightarrow> database \<Rightarrow> error + conversation_row" where
  "get_guest_conversation_by_creation_key guest key d =
     one_row (\<lambda>c. conv_guest_id c = Some guest \<and> conv_creation_key c = Some key) (conversations d)"

definition get_deleted_user_conversation_by_key ::
  "uuid \<Rightarrow> uuid \<Rightarrow> string \<Rightarrow> database \<Rightarrow> error + conversation_row" where
  "get_deleted_user_conversation_by_key i user key d =
     one_row (\<lambda>c. conv_id c = i \<and> conv_user_id c = Some user \<and> conv_deleted_at c \<noteq> None
       \<and> conv_deletion_key c = Some key) (conversations d)"

definition get_deleted_guest_conversation_by_key ::
  "uuid \<Rightarrow> uuid \<Rightarrow> string \<Rightarrow> database \<Rightarrow> error + conversation_row" where
  "get_deleted_guest_conversation_by_key i guest key d =
     one_row (\<lambda>c. conv_id c = i \<and> conv_guest_id c = Some guest \<and> conv_deleted_at c \<noteq> None
       \<and> conv_deletion_key c = Some key) (conversations d)"

text \<open>\<open>ORDER BY updated_at DESC, id DESC\<close> after the cursor.\<close>

definition conv_rank :: "conversation_row \<Rightarrow> time \<times> uuid" where
  "conv_rank c = (conv_updated_at c, conv_id c)"

definition list_user_conversations ::
  "(string \<Rightarrow> string \<Rightarrow> bool) \<Rightarrow> uuid \<Rightarrow> bool \<Rightarrow> string option \<Rightarrow> (time \<times> uuid) option \<Rightarrow> nat \<Rightarrow> database \<Rightarrow>
     error + conversation_row list" where
  "list_user_conversations matches user archived search before n d =
     Inr (take n (rev (sort_key conv_rank (filter (\<lambda>c.
       conv_user_id c = Some user \<and> conv_deleted_at c = None \<and> (archived \<or> conv_status c = ConvActive)
       \<and> opt_all (matches (conv_title c)) search
       \<and> opt_all (\<lambda>k. conv_rank c < k) before) (conversations d)))))"

definition list_conversation_messages ::
  "uuid \<Rightarrow> int option \<Rightarrow> nat \<Rightarrow> database \<Rightarrow> error + (message_row \<times> uuid option \<times> string option) list" where
  "list_conversation_messages i before n d =
     (let model_of = (\<lambda>m. case filter (\<lambda>g. gen_assistant_message_id g = msg_id m) (generations d) of
                        [] \<Rightarrow> [None] | gs \<Rightarrow> map (\<lambda>g. Some (gen_model_id g)) gs);
          named = (\<lambda>o'. map_option mdl_name (Option.bind o' (\<lambda>i. find (\<lambda>m. mdl_id m = i) (models d))))
      in Inr (take n (concat (map (\<lambda>m. map (\<lambda>o'. (m, o', named o')) (model_of m))
           (rev (sort_key (\<lambda>m. (msg_sequence m, msg_id m)) (filter (\<lambda>m.
              msg_conversation_id m = i \<and> opt_all (\<lambda>s. msg_sequence m < s) before) (messages d))))))))"

definition change_conversation ::
  "(conversation_row \<Rightarrow> bool) \<Rightarrow> (conversation_row \<Rightarrow> conversation_row) \<Rightarrow> string option \<Rightarrow> uuid option \<Rightarrow>
     database \<Rightarrow> error + conversation_row \<times> database" where
  "change_conversation hit upd title model d =
     (case find hit (conversations d) of
        None \<Rightarrow> if opt_all text_ok title then Inl NoRows else Inl invalid_text
      | Some c \<Rightarrow>
          if \<not> opt_all text_ok title then Inl invalid_text
          else if \<not> opt_all title_ok title then Inl (check_violation ''conversations_title_check'')
          else if \<not> opt_all (\<lambda>i. list_ex (\<lambda>m. mdl_id m = i) (models d)) model
          then Inl (foreign_key_violation ''conversations_model_id_fkey'')
          else Inr (upd c, d\<lparr>conversations := upd_rows hit upd (conversations d)\<rparr>))"

definition or_old :: "'a option \<Rightarrow> 'a \<Rightarrow> 'a" where
  "or_old v x = (case v of None \<Rightarrow> x | Some y \<Rightarrow> y)"

definition update_guest_conversation ::
  "string option \<Rightarrow> uuid option \<Rightarrow> time \<Rightarrow> uuid \<Rightarrow> uuid \<Rightarrow> database \<Rightarrow> error + conversation_row \<times> database" where
  "update_guest_conversation title model t i guest d =
     change_conversation
       (\<lambda>c. conv_id c = i \<and> conv_guest_id c = Some guest \<and> conv_deleted_at c = None
          \<and> (model = None \<or> conv_gen_state c = Idle))
       (\<lambda>c. c\<lparr>conv_title := or_old title (conv_title c), conv_model_id := or_old model (conv_model_id c),
              conv_updated_at := t\<rparr>) title model d"

definition update_user_conversation ::
  "string option \<Rightarrow> conv_status option \<Rightarrow> uuid option \<Rightarrow> time \<Rightarrow> uuid \<Rightarrow> uuid \<Rightarrow> database \<Rightarrow>
     error + conversation_row \<times> database" where
  "update_user_conversation title status model t i user d =
     change_conversation
       (\<lambda>c. conv_id c = i \<and> conv_user_id c = Some user \<and> conv_deleted_at c = None
          \<and> (model = None \<or> conv_gen_state c = Idle))
       (\<lambda>c. c\<lparr>conv_title := or_old title (conv_title c), conv_status := or_old status (conv_status c),
              conv_model_id := or_old model (conv_model_id c),
              conv_renamed := conv_renamed c \<or> title \<noteq> None, conv_updated_at := t\<rparr>) title model d"

definition soft_delete ::
  "(conversation_row \<Rightarrow> bool) \<Rightarrow> time \<Rightarrow> string \<Rightarrow> database \<Rightarrow> error + nat \<times> database" where
  "soft_delete hit t key d =
     (if \<not> text_ok key then Inl invalid_text
      else if list_ex hit (conversations d) \<and> \<not> key_length_ok key
      then Inl (check_violation ''conversations_deletion_idempotency_key_check'')
      else Inr (count_rows hit (conversations d), d\<lparr>conversations := upd_rows hit
        (\<lambda>c. c\<lparr>conv_deleted_at := Some t, conv_deletion_key := Some key, conv_updated_at := t\<rparr>)
        (conversations d)\<rparr>))"

definition soft_delete_guest_conversation ::
  "time \<Rightarrow> string \<Rightarrow> uuid \<Rightarrow> uuid \<Rightarrow> database \<Rightarrow> error + nat \<times> database" where
  "soft_delete_guest_conversation t key i guest =
     soft_delete (\<lambda>c. conv_id c = i \<and> conv_guest_id c = Some guest \<and> conv_deleted_at c = None
       \<and> conv_gen_state c = Idle) t key"

definition soft_delete_user_conversation ::
  "time \<Rightarrow> string \<Rightarrow> uuid \<Rightarrow> uuid \<Rightarrow> database \<Rightarrow> error + nat \<times> database" where
  "soft_delete_user_conversation t key i user =
     soft_delete (\<lambda>c. conv_id c = i \<and> conv_user_id c = Some user \<and> conv_deleted_at c = None
       \<and> conv_gen_state c = Idle) t key"

section \<open>The service\<close>

definition owned_conversation :: "conv_actor \<Rightarrow> uuid \<Rightarrow> (world, conversation_row) op" where
  "owned_conversation a i =
     (if \<not> valid_conv_actor a \<or> i = uuid_nil then fail ConvInvalid
      else bindE (attempt (db_read (if ca_type a = User then get_user_conversation i (ca_id a)
                                    else get_guest_conversation i (ca_id a)))) (\<lambda>r.
        case r of
          Inl e \<Rightarrow> if errors_is e NoRows then fail ConvNotFound else fail (Wrap ''get owned conversation'' e)
        | Inr c \<Rightarrow> ok c))"

definition created_by_key :: "conv_actor \<Rightarrow> string \<Rightarrow> (world, conversation_row) op" where
  "created_by_key a key =
     (if ca_type a = User then db_read (get_user_conversation_by_creation_key (ca_id a) key)
      else db_read (get_guest_conversation_by_creation_key (ca_id a) key))"

definition deleted_by_key :: "conv_actor \<Rightarrow> uuid \<Rightarrow> string \<Rightarrow> (world, bool) op" where
  "deleted_by_key a i key =
     bindE (attempt (if ca_type a = User then db_read (get_deleted_user_conversation_by_key i (ca_id a) key)
                     else db_read (get_deleted_guest_conversation_by_key i (ca_id a) key))) (\<lambda>r.
     ok (case r of Inl _ \<Rightarrow> False | Inr _ \<Rightarrow> True))"

definition conv_selection :: "model_catalog \<Rightarrow> conv_actor \<Rightarrow> uuid option \<Rightarrow> (world, model_selection) op" where
  "conv_selection C a model =
     bindE (attempt (case model of
              None \<Rightarrow> mc_default C (actor_type_string (ca_type a))
            | Some m \<Rightarrow> mc_select C m (actor_type_string (ca_type a)))) (\<lambda>r.
     case r of
       Inl e \<Rightarrow> fail (if errors_is e ModelNotSelectable then ConvInvalid else e)
     | Inr s \<Rightarrow> ok s)"

definition insert_for ::
  "conv_actor \<Rightarrow> uuid \<Rightarrow> string \<Rightarrow> uuid \<Rightarrow> string option \<Rightarrow> time \<Rightarrow> (world, conversation_row) op" where
  "insert_for a i title model key t =
     db_exec (if ca_type a = User then create_user_conversation i (ca_id a) title model key t
              else create_guest_conversation i (ca_id a) title model key t)"

definition create_conversation :: "conv_service \<Rightarrow> conv_actor \<Rightarrow> create_input \<Rightarrow> (world, conv_view) op" where
  "create_conversation S a input =
     (if \<not> valid_conv_actor a then fail ConvInvalid
      else
        let trimmed = trim_space (ci_title input);
            title = (if trimmed = [] then ''New conversation'' else trimmed);
            key = nullable_string (ci_key input) in
        if length title > 120 then fail ConvInvalid
        else
          bindE (conv_selection (cs_catalog S) a (ci_model input)) (\<lambda>s.
          bindE ids_new (\<lambda>i.
          bindE clock_now (\<lambda>t.
          bindE (attempt (insert_for a i title (mv_id (sel_model s)) key t)) (\<lambda>r.
          case r of
            Inr c \<Rightarrow> ok (map_conversation c)
          | Inl e \<Rightarrow>
              if \<not> unique_error e then fail (Wrap ''create conversation'' e)
              else (case key of
                      None \<Rightarrow> fail ConvConflict
                    | Some k \<Rightarrow>
                        bindE (attempt (created_by_key a k)) (\<lambda>r.
                        case r of
                          Inr c \<Rightarrow> ok (map_conversation c)
                        | Inl e' \<Rightarrow> if errors_is e' NoRows then fail ConvConflict
                                    else fail (Wrap ''resolve idempotent conversation'' e'))))))))"

definition get_conversation :: "conv_actor \<Rightarrow> uuid \<Rightarrow> (world, conv_view) op" where
  "get_conversation a i = bindE (owned_conversation a i) (\<lambda>c. ok (map_conversation c))"

definition conversation_page :: "int \<Rightarrow> conversation_row list \<Rightarrow> conv_view page" where
  "conversation_page limit rows =
     \<lparr>pg_items = map map_conversation (take (nat limit) rows),
      pg_cursor = (if nat limit < length rows
                   then let last = rows ! (nat limit - 1) in encode_cursor (conv_updated_at last) (conv_id last)
                   else [])\<rparr>"

definition list_conversations :: "conv_service \<Rightarrow> conv_actor \<Rightarrow> list_input \<Rightarrow> (world, conv_view page) op" where
  "list_conversations S a input =
     (let limit = (if li_limit input \<le> 0 then 20 else li_limit input) in
      if \<not> valid_conv_actor a \<or> limit > 100 \<or> length (li_search input) > 200 then fail ConvInvalid
      else if ca_type a = Guest
      then bindE (attempt (db_read (get_guest_conversation_by_owner (ca_id a)))) (\<lambda>r.
           case r of
             Inl e \<Rightarrow> if errors_is e NoRows then ok \<lparr>pg_items = [], pg_cursor = []\<rparr>
                      else fail (Wrap ''list guest conversation'' e)
           | Inr c \<Rightarrow> ok \<lparr>pg_items = [map_conversation c], pg_cursor = []\<rparr>)
      else (case decode_cursor (cs_uuid S) (li_cursor input) of
              None \<Rightarrow> fail ConvInvalid
            | Some before \<Rightarrow>
                let trimmed = trim_space (li_search input) in
                bindE (wrap_err ''list conversations'' (db_read (list_user_conversations (cs_search S) (ca_id a)
                  (li_archived input) (nullable_string trimmed) before (nat (limit + 1))))) (\<lambda>rows.
                ok (conversation_page limit rows))))"

definition update_conversation ::
  "conv_service \<Rightarrow> conv_actor \<Rightarrow> uuid \<Rightarrow> update_input \<Rightarrow> (world, conv_view) op" where
  "update_conversation S a i input =
     bindE (owned_conversation a i) (\<lambda>_.
     let title = map_option trim_space (ui_title input) in
     if \<not> opt_all (\<lambda>s. s \<noteq> [] \<and> length s \<le> 120) title then fail ConvInvalid
     else if ca_type a = Guest \<and> ui_archived input \<noteq> None then fail ConvGuestScope
     else
       bindE (case ui_model input of None \<Rightarrow> ok () | Some m \<Rightarrow> bindE (conv_selection (cs_catalog S) a (Some m)) (\<lambda>_. ok ())) (\<lambda>_.
       bindE clock_now (\<lambda>t.
       bindE (attempt (db_exec
         (if ca_type a = Guest then update_guest_conversation title (ui_model input) t i (ca_id a)
          else update_user_conversation title
                 (map_option (\<lambda>b. if b then ConvArchived else ConvActive) (ui_archived input))
                 (ui_model input) t i (ca_id a)))) (\<lambda>r.
       case r of
         Inl e \<Rightarrow> if errors_is e NoRows then fail ConvConflict else fail (Wrap ''update conversation'' e)
       | Inr c \<Rightarrow> ok (map_conversation c)))))"

definition delete_conversation :: "conv_actor \<Rightarrow> uuid \<Rightarrow> string \<Rightarrow> (world, unit) op" where
  "delete_conversation a i key =
     (if length key < 16 \<or> 128 < length key then fail ConvInvalid
      else bindE (attempt (owned_conversation a i)) (\<lambda>r.
        case r of
          Inl e \<Rightarrow>
            if errors_is e ConvNotFound
            then bindE (deleted_by_key a i key) (\<lambda>b. if b then ok () else fail e)
            else fail e
        | Inr _ \<Rightarrow>
            bindE clock_now (\<lambda>t.
            bindE (wrap_err ''delete conversation'' (db_exec
              (if ca_type a = Guest then soft_delete_guest_conversation t key i (ca_id a)
               else soft_delete_user_conversation t key i (ca_id a)))) (\<lambda>affected.
            if affected = 0 then fail ConvConflict else ok ()))))"

definition message_page ::
  "int \<Rightarrow> (message_row \<times> uuid option \<times> string option) list \<Rightarrow> message_view page" where
  "message_page limit rows =
     \<lparr>pg_items = map map_listed_message (take (nat limit) rows),
      pg_cursor = (if nat limit < length rows then int_string (msg_sequence (fst (rows ! (nat limit - 1)))) else [])\<rparr>"

definition conversation_messages ::
  "conv_actor \<Rightarrow> uuid \<Rightarrow> int \<Rightarrow> int option \<Rightarrow> (world, message_view page) op" where
  "conversation_messages a i limit before =
     bindE (owned_conversation a i) (\<lambda>_.
     let limit = (if limit \<le> 0 then 50 else limit) in
     if limit > 100 then fail ConvInvalid
     else
       bindE (wrap_err ''list conversation messages''
         (db_read (list_conversation_messages i before (nat (limit + 1))))) (\<lambda>rows.
       ok (message_page limit rows)))"

definition owned_record :: "conv_actor \<Rightarrow> uuid \<Rightarrow> (world, conversation_row) op" where
  "owned_record = owned_conversation"

end
