(* ===== verification/ConversationLaws.thy ===== *)
theory ConversationLaws
  imports Conversations
begin

text \<open>
  What the operations on conversations guarantee: isolation of the actors, idempotent creation and
  deletion, the one conversation of a guest, and complete pages. Runs are sequences of operations of
  any actors (\<open>conv_runs\<close>); the laws of the model catalog come from its interpretation \<open>cat\<close>.
\<close>

section \<open>What an operation changes\<close>

context catalog_laws
begin

lemma conv_selection_db:
  "conv_selection C a m w = (r, w') \<Longrightarrow> db w' = db w"
  by (auto simp: conv_selection_def bindE_def attempt_def
      split: option.splits prod.splits sum.splits if_splits dest: default_db select_db)

end

text \<open>Rows keep their id, owner and creation key.\<close>

definition same_identity :: "conversation_row \<Rightarrow> conversation_row \<Rightarrow> bool" where
  "same_identity c c' \<longleftrightarrow> conv_id c' = conv_id c \<and> conv_user_id c' = conv_user_id c
     \<and> conv_guest_id c' = conv_guest_id c \<and> conv_creation_key c' = conv_creation_key c"

text \<open>The changes one actor can make to the table: none, a new row, or a change to own rows.\<close>

inductive conv_change :: "conv_actor \<Rightarrow> database \<Rightarrow> database \<Rightarrow> bool" for a where
  same: "d' = d \<Longrightarrow> conv_change a d d'"
| created: "insert_conversation c d = Inr (c, d') \<Longrightarrow> owned_by a c \<Longrightarrow> conv_deleted_at c = None \<Longrightarrow>
    conv_change a d d'"
| changed: "d' = d\<lparr>conversations := upd_rows hit upd (conversations d)\<rparr> \<Longrightarrow>
    (\<And>c. hit c \<Longrightarrow> owned_by a c \<and> conv_deleted_at c = None \<and> same_identity c (upd c)) \<Longrightarrow>
    conv_change a d d'"

lemma insert_conversationD:
  "insert_conversation c d = Inr (c', d') \<Longrightarrow>
   c' = c \<and> d' = d\<lparr>conversations := conversations d @ [c]\<rparr> \<and> \<not> list_ex (conversation_clash c) (conversations d)"
  by (auto simp: insert_conversation_def split: if_splits)

lemma insert_forD:
  assumes "insert_for a i title model key t w = (Inr c, w')" and "valid_conv_actor a"
  shows "insert_conversation c (db w) = Inr (c, db w') \<and> owned_by a c \<and> conv_deleted_at c = None
    \<and> conv_creation_key c = key \<and> conv_id c = i"
proof -
  let ?c = "new_conversation i (if ca_type a = User then Some (ca_id a) else None)
    (if ca_type a = User then None else Some (ca_id a)) title model key t"
  have "insert_conversation ?c (db w) = Inr (c, db w')"
    using db_exec_okD [OF assms(1) [unfolded insert_for_def]]
    by (auto simp: create_user_conversation_def create_guest_conversation_def split: if_splits)
  moreover from this have "c = ?c" by (auto dest: insert_conversationD)
  ultimately show ?thesis by (simp add: owned_by_def new_conversation_def)
qed

lemma insert_for_errD: "insert_for a i title model key t w = (Inl e, w') \<Longrightarrow> db w' = db w"
  unfolding insert_for_def by (rule db_exec_errD)

lemma one_rowD: "one_row P rows = Inr r \<Longrightarrow> r \<in> set rows \<and> P r"
  by (auto simp: one_row_def split: option.splits dest: find_Some_iff_mem)

lemmas conv_reads = get_user_conversation_def get_guest_conversation_def get_guest_conversation_by_owner_def
  get_user_conversation_by_creation_key_def get_guest_conversation_by_creation_key_def
  get_deleted_user_conversation_by_key_def get_deleted_guest_conversation_by_key_def

lemma owned_conversation_db: "owned_conversation a i w = (r, w') \<Longrightarrow> db w' = db w"
  unfolding owned_conversation_def
  by (auto simp: bindE_def attempt_def split: if_splits prod.splits sum.splits dest: db_read_db)

lemma owned_conversationD:
  assumes "owned_conversation a i w = (Inr c, w')"
  shows "valid_conv_actor a \<and> c \<in> set (conversations (db w)) \<and> owned_by a c \<and> conv_id c = i
    \<and> conv_deleted_at c = None \<and> db w' = db w"
  using assms unfolding owned_conversation_def
  by (auto split: if_splits sum.splits elim!: op_elims dest!: db_read_okD one_rowD
      simp: conv_reads owned_by_def)

lemma created_by_key_db: "created_by_key a k w = (r, w') \<Longrightarrow> db w' = db w"
  by (auto simp: created_by_key_def split: if_splits dest: db_read_db)

lemma created_by_keyD:
  "created_by_key a k w = (Inr c, w') \<Longrightarrow>
   c \<in> set (conversations (db w)) \<and> owned_by a c \<and> conv_creation_key c = Some k"
  by (auto simp: created_by_key_def conv_reads owned_by_def split: if_splits dest!: db_read_okD one_rowD)

lemma deleted_by_key_db: "deleted_by_key a i k w = (r, w') \<Longrightarrow> db w' = db w"
  by (auto simp: deleted_by_key_def bindE_def attempt_def split: prod.splits if_splits dest: db_read_db)

lemma change_conversationD:
  "change_conversation hit upd title model d = Inr (c, d') \<Longrightarrow>
   d' = d\<lparr>conversations := upd_rows hit upd (conversations d)\<rparr> \<and>
   (\<exists>c0 \<in> set (conversations d). hit c0 \<and> c = upd c0)"
  by (auto simp: change_conversation_def split: option.splits if_splits dest: find_Some_iff_mem)

lemma soft_deleteD:
  "soft_delete hit t key d = Inr (n, d') \<Longrightarrow>
   d' = d\<lparr>conversations := upd_rows hit (\<lambda>c. c\<lparr>conv_deleted_at := Some t, conv_deletion_key := Some key,
     conv_updated_at := t\<rparr>) (conversations d)\<rparr> \<and> n = count_rows hit (conversations d) \<and> text_ok key"
  by (auto simp: soft_delete_def split: if_splits)

lemma create_conversation_inserts:
  assumes "create_conversation S a inp w = (r, w')" and "cs_catalog S = catalog_service"
  shows "db w' = db w \<or> (\<exists>c. insert_conversation c (db w) = Inr (c, db w') \<and> owned_by a c \<and> conv_deleted_at c = None)"
proof -
  let ?title = "if trim_space (ci_title inp) = [] then ''New conversation'' else trim_space (ci_title inp)"
  let ?key = "nullable_string (ci_key inp)"
  have stay: "db w' = db w \<Longrightarrow> ?thesis" by blast
  show ?thesis
  proof (cases "valid_conv_actor a \<and> length ?title \<le> 120")
    case False
    with assms(1) show ?thesis by (intro stay) (auto simp: create_conversation_def Let_def split: if_splits)
  next
    case True
    obtain sr w1 where s: "conv_selection catalog_service a (ci_model inp) w = (sr, w1)" by fastforce
    have db1: "db w1 = db w" by (rule cat.conv_selection_db [OF s])
    obtain ir w2 where i: "ids_new w1 = (ir, w2)" by fastforce
    have db2: "db w2 = db w" using ids_new_db [OF i] db1 by simp
    note run = assms(1) [unfolded create_conversation_def Let_def]
    show ?thesis
    proof (cases sr)
      case (Inl e)
      with run True s assms(2) db1 show ?thesis by (intro stay) (simp split: if_splits)
    next
      case sel: (Inr sel)
      show ?thesis
      proof (cases ir)
        case (Inl e)
        with run True s sel i assms(2) db2 show ?thesis by (intro stay) (simp split: if_splits)
      next
        case id: (Inr i')
        obtain cr w3 where c: "insert_for a i' ?title (mv_id (sel_model sel)) ?key (now w2) w2 = (cr, w3)" by fastforce
        show ?thesis
        proof (cases cr)
          case (Inr c')
          with run True s sel i id c assms(2) have "db w' = db w3"
            by (simp add: attempt_def split: if_splits)
          with insert_forD [OF c [unfolded Inr]] True db2 show ?thesis
            by auto
        next
          case (Inl e)
          have db3: "db w3 = db w" using insert_for_errD [OF c [unfolded Inl]] db2 by simp
          obtain kr w4 where k: "created_by_key a (the ?key) w3 = (kr, w4)" by fastforce
          have "db w4 = db w" using created_by_key_db [OF k] db3 by simp
          with run True s sel i id c Inl k db3 assms(2) show ?thesis
            by (intro stay) (auto simp: attempt_def split: if_splits option.splits sum.splits)
        qed
      qed
    qed
  qed
qed

lemma create_conversation_change:
  "create_conversation S a inp w = (r, w') \<Longrightarrow> cs_catalog S = catalog_service \<Longrightarrow> conv_change a (db w) (db w')"
  by (drule create_conversation_inserts) (auto intro: conv_change.intros)

lemma update_write_change:
  assumes "db_exec (if ca_type a = Guest then update_guest_conversation title model t i (ca_id a)
      else update_user_conversation title status model t i (ca_id a)) w = (r, w')" and "valid_conv_actor a"
  shows "conv_change a (db w) (db w')"
proof (cases r)
  case (Inl e)
  from db_exec_errD [OF assms(1) [unfolded Inl]] show ?thesis by (rule conv_change.same)
next
  case (Inr c)
  note q = db_exec_okD [OF assms(1) [unfolded Inr]]
  show ?thesis
  proof (cases "ca_type a = Guest")
    case True
    with q have ch: "change_conversation (\<lambda>c. conv_id c = i \<and> conv_guest_id c = Some (ca_id a)
          \<and> conv_deleted_at c = None \<and> (model = None \<or> conv_gen_state c = Idle))
       (\<lambda>c. c\<lparr>conv_title := or_old title (conv_title c), conv_model_id := or_old model (conv_model_id c),
              conv_updated_at := t\<rparr>) title model (db w) = Inr (c, db w')"
      by (simp add: update_guest_conversation_def)
    show ?thesis
      by (rule conv_change.changed [OF change_conversationD [OF ch, THEN conjunct1]])
        (use True in \<open>simp add: owned_by_def same_identity_def\<close>)
  next
    case False
    with q assms(2) have ch: "change_conversation (\<lambda>c. conv_id c = i \<and> conv_user_id c = Some (ca_id a)
          \<and> conv_deleted_at c = None \<and> (model = None \<or> conv_gen_state c = Idle))
       (\<lambda>c. c\<lparr>conv_title := or_old title (conv_title c), conv_status := or_old status (conv_status c),
              conv_model_id := or_old model (conv_model_id c),
              conv_renamed := conv_renamed c \<or> title \<noteq> None, conv_updated_at := t\<rparr>) title model (db w)
       = Inr (c, db w')"
      by (simp add: update_user_conversation_def)
    show ?thesis
      by (rule conv_change.changed [OF change_conversationD [OF ch, THEN conjunct1]])
        (use False assms(2) in \<open>simp add: owned_by_def same_identity_def valid_conv_actor_def\<close>)
  qed
qed

lemma update_conversation_change:
  assumes "update_conversation S a i inp w = (r, w')" and "cs_catalog S = catalog_service"
  shows "conv_change a (db w) (db w')"
proof -
  obtain or w1 where o': "owned_conversation a i w = (or, w1)" by fastforce
  have db1: "db w1 = db w" by (rule owned_conversation_db [OF o'])
  have stay: "db w' = db w \<Longrightarrow> ?thesis" by (rule conv_change.same)
  note run = assms(1) [unfolded update_conversation_def Let_def assms(2)]
  let ?title = "map_option trim_space (ui_title inp)"
  show ?thesis
  proof (cases or)
    case (Inl e)
    with run o' db1 show ?thesis by (intro stay) simp
  next
    case (Inr c)
    have valid: "valid_conv_actor a" using owned_conversationD [OF o' [unfolded Inr]] by simp
    obtain sr w2 where s: "(case ui_model inp of None \<Rightarrow> ok ()
        | Some m \<Rightarrow> bindE (conv_selection catalog_service a (Some m)) (\<lambda>_. ok ())) w1 = (sr, w2)" by fastforce
    have db2: "db w2 = db w"
      using s db1 by (auto split: option.splits elim!: bindE_errE simp: bindE_def
          split: prod.splits sum.splits dest: cat.conv_selection_db)
    obtain ur w3 where u: "db_exec (if ca_type a = Guest
          then update_guest_conversation ?title (ui_model inp) (now w2) i (ca_id a)
          else update_user_conversation ?title
                 (map_option (\<lambda>b. if b then ConvArchived else ConvActive) (ui_archived inp))
                 (ui_model inp) (now w2) i (ca_id a)) w2 = (ur, w3)" by fastforce
    from update_write_change [OF u valid] db2 have "conv_change a (db w) (db w3)" by simp
    moreover have "db w' = db w \<or> db w' = db w3"
      using run o' Inr s u assms(2) db1 db2 by (cases sr) (auto simp: attempt_def split: if_splits sum.splits)
    ultimately show ?thesis using stay by auto
  qed
qed

lemma delete_conversation_change:
  assumes "delete_conversation a i key w = (r, w')"
  shows "conv_change a (db w) (db w')"
proof -
  obtain or w1 where o': "owned_conversation a i w = (or, w1)" by fastforce
  have db1: "db w1 = db w" by (rule owned_conversation_db [OF o'])
  have stay: "db w' = db w \<Longrightarrow> ?thesis" by (rule conv_change.same)
  note run = assms(1) [unfolded delete_conversation_def]
  show ?thesis
  proof (cases or)
    case (Inl e)
    obtain kr w2 where k: "deleted_by_key a i key w1 = (kr, w2)" by fastforce
    have "db w2 = db w" using deleted_by_key_db [OF k] db1 by simp
    with run o' Inl db1 k show ?thesis
      by (intro stay) (cases kr; auto simp: attempt_def split: if_splits)
  next
    case (Inr c)
    have valid: "valid_conv_actor a" using owned_conversationD [OF o' [unfolded Inr]] by simp
    obtain ur w3 where u: "db_exec
        (if ca_type a = Guest then soft_delete_guest_conversation (now w1) key i (ca_id a)
         else soft_delete_user_conversation (now w1) key i (ca_id a)) w1 = (ur, w3)" by fastforce
    have "conv_change a (db w) (db w3)"
    proof (cases ur)
      case (Inl e)
      with db_exec_errD [OF u [unfolded Inl]] db1 show ?thesis by (intro conv_change.same) simp
    next
      case n: (Inr n)
      let ?hit = "\<lambda>c. conv_id c = i \<and> owned_by a c \<and> conv_deleted_at c = None \<and> conv_gen_state c = Idle"
      have "soft_delete ?hit (now w1) key (db w) = Inr (n, db w3)"
        using db_exec_okD [OF u [unfolded n]] db1 valid
        by (auto simp: soft_delete_guest_conversation_def soft_delete_user_conversation_def owned_by_def
            valid_conv_actor_def split: if_splits)
      from soft_deleteD [OF this, THEN conjunct1] show ?thesis
        by (rule conv_change.changed) (simp add: same_identity_def)
    qed
    moreover have "db w' = db w \<or> db w' = db w3"
      using run o' Inr u db1 by (cases ur) (auto simp: attempt_def wrap_err_def split: if_splits)
    ultimately show ?thesis using stay by auto
  qed
qed

lemma reads_change:
  "get_conversation a i w = (r1, w') \<Longrightarrow> db w' = db w"
  "list_conversations S a li w = (r2, w') \<Longrightarrow> db w' = db w"
  "conversation_messages a i n b w = (r3, w') \<Longrightarrow> db w' = db w"
proof -
  note keeps = keeps_db_read [where P = "\<lambda>d. d = db w"] keeps_ok keeps_fail
  have owned: "keeps (\<lambda>x. db x = db w) (owned_conversation a i)"
    unfolding owned_conversation_def by (intro keeps_intros)
  show "get_conversation a i w = (r1, w') \<Longrightarrow> db w' = db w"
    using keepsD_eq [of "\<lambda>x. db x = db w" "get_conversation a i" w]
    unfolding get_conversation_def by (auto intro!: keeps_intros owned)
  show "list_conversations S a li w = (r2, w') \<Longrightarrow> db w' = db w"
  proof -
    have "keeps (\<lambda>x. db x = db w) (list_conversations S a li)"
      unfolding list_conversations_def by (intro keeps_intros)
    then show "list_conversations S a li w = (r2, w') \<Longrightarrow> db w' = db w" by (auto dest: keepsD_eq)
  qed
  show "conversation_messages a i n b w = (r3, w') \<Longrightarrow> db w' = db w"
  proof -
    have "keeps (\<lambda>x. db x = db w) (conversation_messages a i n b)"
      unfolding conversation_messages_def by (intro keeps_intros owned)
    then show "conversation_messages a i n b w = (r3, w') \<Longrightarrow> db w' = db w" by (auto dest: keepsD_eq)
  qed
qed

section \<open>Runs\<close>

text \<open>One operation of an actor, on any world; and what happens in between (time passes, other calls
  of the outside fail or succeed) as long as it leaves the database alone.\<close>

inductive conv_step :: "conv_service \<Rightarrow> conv_actor \<Rightarrow> world \<Rightarrow> world \<Rightarrow> bool" for S a where
  create: "create_conversation S a ci w = (r, w') \<Longrightarrow> conv_step S a w w'"
| get: "get_conversation a i w = (v, w') \<Longrightarrow> conv_step S a w w'"
| list: "list_conversations S a li w = (p, w') \<Longrightarrow> conv_step S a w w'"
| update: "update_conversation S a i ui w = (r, w') \<Longrightarrow> conv_step S a w w'"
| delete: "delete_conversation a i key w = (u, w') \<Longrightarrow> conv_step S a w w'"
| messages: "conversation_messages a i n b w = (mp, w') \<Longrightarrow> conv_step S a w w'"
| pause: "db w' = db w \<Longrightarrow> conv_step S a w w'"

inductive conv_runs :: "conv_service \<Rightarrow> world \<Rightarrow> world \<Rightarrow> bool" for S where
  none: "conv_runs S w w"
| more: "conv_runs S w w1 \<Longrightarrow> conv_step S a w1 w2 \<Longrightarrow> conv_runs S w w2"

lemma conv_step_change:
  "conv_step S a w w' \<Longrightarrow> cs_catalog S = catalog_service \<Longrightarrow> conv_change a (db w) (db w')"
  by (induction rule: conv_step.induct)
    (auto intro: create_conversation_change update_conversation_change delete_conversation_change
      conv_change.same dest: reads_change)

text \<open>No two rows share an id, a guest, or the creation key of a user.\<close>

definition convs_ok :: "database \<Rightarrow> bool" where
  "convs_ok d \<longleftrightarrow> distinct (map conv_id (conversations d)) \<and>
     pairwise (\<lambda>c r. \<not> conversation_clash c r) (set (conversations d))"

lemma clash_identity:
  "same_identity c c' \<Longrightarrow> same_identity r r' \<Longrightarrow> conversation_clash c' r' = conversation_clash c r"
  by (auto simp: same_identity_def conversation_clash_def)

lemma clash_sym: "conversation_clash c r = conversation_clash r c"
  by (auto simp: conversation_clash_def)

lemma same_identity_refl [simp]: "same_identity c c"
  by (simp add: same_identity_def)

lemma conv_change_ok:
  assumes "conv_change a d d'" and "convs_ok d"
  shows "convs_ok d'"
  using assms
proof (induction rule: conv_change.induct)
  case (created c d d')
  from insert_conversationD [OF created(1)] created(4) show ?case
    by (auto simp: convs_ok_def pairwise_insert list_ex_iff clash_sym conversation_clash_def)
next
  case (changed d' hit upd d)
  let ?f = "\<lambda>c. if hit c then upd c else c"
  have same: "same_identity c (?f c)" for c using changed(2) by auto
  then have "map conv_id (conversations d') = map conv_id (conversations d)"
    unfolding changed(1) using changed(2) by (auto intro!: map_upd_rows_same simp: same_identity_def)
  moreover have "pairwise (\<lambda>c r. \<not> conversation_clash c r) (?f ` set (conversations d))"
    using changed(3) clash_identity [OF same same]
    by (auto simp only: convs_ok_def pairwise_def ball_simps)
  ultimately show ?case using changed(3) unfolding changed(1) convs_ok_def by (simp add: set_upd_rows)
qed simp

lemma conv_change_row:
  assumes "conv_change a d d'" and "c \<in> set (conversations d)"
  shows "\<exists>c' \<in> set (conversations d'). same_identity c c' \<and> (conv_deleted_at c \<noteq> None \<or> \<not> owned_by a c \<longrightarrow> c' = c)"
  using assms
proof (induction rule: conv_change.induct)
  case (created x d d')
  from insert_conversationD [OF created(1)] created(4) show ?case by (intro bexI [of _ c]) auto
next
  case (changed d' hit upd d)
  then have "(if hit c then upd c else c) \<in> set (conversations d')"
    by (auto simp: set_upd_rows)
  with changed(2) [of c] show ?case by (intro bexI [of _ "if hit c then upd c else c"]) auto
next
  case (same d' d)
  then show ?case by (intro bexI [of _ c]) simp_all
qed


lemma conv_runs_ok:
  assumes "conv_runs S w w'" and "cs_catalog S = catalog_service"
  shows "(convs_ok (db w) \<longrightarrow> convs_ok (db w')) \<and> (\<forall>c \<in> set (conversations (db w)).
    \<exists>c' \<in> set (conversations (db w')). same_identity c c' \<and> (conv_deleted_at c \<noteq> None \<longrightarrow> c' = c))"
  using assms
proof (induction rule: conv_runs.induct)
  case (more w w1 a w2)
  have "conv_change a (db w1) (db w2)" using conv_step_change more.hyps(2) more.prems by blast
  note ok = conv_change_ok [OF this] and row = conv_change_row [OF this]
  show ?case
  proof (intro conjI ballI)
    show "convs_ok (db w) \<longrightarrow> convs_ok (db w2)" using more ok by blast
    fix c assume "c \<in> set (conversations (db w))"
    with more obtain c1 where c1: "c1 \<in> set (conversations (db w1))" "same_identity c c1"
      "conv_deleted_at c \<noteq> None \<longrightarrow> c1 = c" by blast
    from row [OF c1(1)] obtain c2 where "c2 \<in> set (conversations (db w2))" "same_identity c1 c2"
      "conv_deleted_at c1 \<noteq> None \<longrightarrow> c2 = c1" by blast
    with c1 show "\<exists>c' \<in> set (conversations (db w2)). same_identity c c' \<and> (conv_deleted_at c \<noteq> None \<longrightarrow> c' = c)"
      by (intro bexI [of _ c2]) (auto simp: same_identity_def)
  qed
next
  case (none w)
  show ?case by (auto intro!: bexI)
qed


section \<open>Properties\<close>


lemma create_okD:
  assumes "create_conversation S a inp w = (Inr v, w')" and "cs_catalog S = catalog_service"
  obtains (inserted) c where "v = map_conversation c" "owned_by a c" "conv_deleted_at c = None"
      "conv_creation_key c = nullable_string (ci_key inp)" "insert_conversation c (db w) = Inr (c, db w')"
  | (replayed) c k where "v = map_conversation c" "owned_by a c" "nullable_string (ci_key inp) = Some k"
      "conv_creation_key c = Some k" "c \<in> set (conversations (db w))" "db w' = db w"
proof -
  let ?title = "if trim_space (ci_title inp) = [] then ''New conversation'' else trim_space (ci_title inp)"
  let ?key = "nullable_string (ci_key inp)"
  have valid: "valid_conv_actor a" using assms(1) by (auto simp: create_conversation_def split: if_splits)
  obtain sel w1 i w2 cr w3 where s: "conv_selection catalog_service a (ci_model inp) w = (Inr sel, w1)"
    and i: "ids_new w1 = (Inr i, w2)"
    and c: "insert_for a i ?title (mv_id (sel_model sel)) ?key (now w2) w2 = (cr, w3)"
    and rest: "(case cr of Inr c \<Rightarrow> ok (map_conversation c) | Inl e \<Rightarrow>
        if \<not> unique_error e then fail (Wrap ''create conversation'' e)
        else (case ?key of None \<Rightarrow> fail ConvConflict | Some k \<Rightarrow> bindE (attempt (created_by_key a k)) (\<lambda>r.
           case r of Inr c \<Rightarrow> ok (map_conversation c)
           | Inl e' \<Rightarrow> if errors_is e' NoRows then fail ConvConflict
                       else fail (Wrap ''resolve idempotent conversation'' e')))) w3 = (Inr v, w')"
    using assms unfolding create_conversation_def Let_def
    by (auto split: if_splits elim!: op_elims intro!: that)
  have db2: "db w2 = db w" using cat.conv_selection_db [OF s] ids_new_db [OF i] by simp
  show ?thesis
  proof (cases cr)
    case (Inr c')
    with rest have "v = map_conversation c'" "w' = w3" by auto
    with insert_forD [OF c [unfolded Inr] valid] db2 show ?thesis by (intro inserted [of c']) auto
  next
    case (Inl e)
    with rest obtain k c' where k: "?key = Some k" and r: "created_by_key a k w3 = (Inr c', w')"
      and v: "v = map_conversation c'"
      by (auto split: if_splits option.splits sum.splits elim!: op_elims)
    have "db w3 = db w" using insert_for_errD [OF c [unfolded Inl]] db2 by simp
    with created_by_keyD [OF r] created_by_key_db [OF r] k v show ?thesis by (intro replayed [of c' k]) auto
  qed
qed




lemma deleted_by_keyD:
  assumes "deleted_by_key a i key w = (Inr True, w')"
  shows "\<exists>c \<in> set (conversations (db w')). conv_id c = i \<and> owned_by a c \<and> conv_deleted_at c \<noteq> None
    \<and> conv_deletion_key c = Some key"
proof -
  obtain c where "(if ca_type a = User then get_deleted_user_conversation_by_key i (ca_id a) key (db w)
      else get_deleted_guest_conversation_by_key i (ca_id a) key (db w)) = Inr c" "db w' = db w"
    using assms by (auto simp: deleted_by_key_def split: sum.splits if_splits elim!: op_elims dest!: db_read_okD)
  then show ?thesis
    by (intro bexI [of _ c]) (auto simp: conv_reads owned_by_def split: if_splits dest!: one_rowD)
qed

lemma delete_okD:
  assumes "delete_conversation a i key w = (Inr (), w')"
  obtains c where "c \<in> set (conversations (db w'))" "conv_id c = i" "owned_by a c"
    "conv_deleted_at c \<noteq> None" "conv_deletion_key c = Some key"
proof -
  obtain or w1 where o': "owned_conversation a i w = (or, w1)" by fastforce
  have db1: "db w1 = db w" by (rule owned_conversation_db [OF o'])
  note run = assms(1) [unfolded delete_conversation_def]
  show ?thesis
  proof (cases or)
    case (Inl e)
    with run o' have k: "deleted_by_key a i key w1 = (Inr True, w')"
      by (auto simp: attempt_def split: if_splits elim!: op_elims)
    from deleted_by_keyD [OF k] show ?thesis using that by blast
  next
    case (Inr c)
    have valid: "valid_conv_actor a" using owned_conversationD [OF o' [unfolded Inr]] by simp
    let ?hit = "\<lambda>c. conv_id c = i \<and> owned_by a c \<and> conv_deleted_at c = None \<and> conv_gen_state c = Idle"
    obtain n where n: "n \<noteq> 0" and u: "db_exec
        (if ca_type a = Guest then soft_delete_guest_conversation (now w1) key i (ca_id a)
         else soft_delete_user_conversation (now w1) key i (ca_id a)) w1 = (Inr n, w')"
      using run o' Inr by (auto simp: attempt_def split: if_splits elim!: op_elims)
    have "soft_delete ?hit (now w1) key (db w1) = Inr (n, db w')"
      using db_exec_okD [OF u] valid
      by (auto simp: soft_delete_guest_conversation_def soft_delete_user_conversation_def owned_by_def
          valid_conv_actor_def split: if_splits)
    note d = soft_deleteD [OF this]
    then have "count_rows ?hit (conversations (db w1)) \<noteq> 0" using n by blast
    then obtain r where "r \<in> set (conversations (db w1))" "?hit r"
      unfolding count_rows_0 by blast
    with d show ?thesis
      by (intro that [of "r\<lparr>conv_deleted_at := Some (now w1), conv_deletion_key := Some key,
          conv_updated_at := now w1\<rparr>"]) (auto simp: set_upd_rows owned_by_def intro!: image_eqI [of _ _ r])
  qed
qed

text \<open>A guest has one conversation for good: once it deleted it, every attempt to create another one
  is refused; only repeating the key of the deleted one succeeds, and returns the deleted one.\<close>
theorem guest_conversation_spent:
  assumes "ca_type a = Guest" and "delete_conversation a i key w = (Inr (), w1)" and "conv_runs S w1 w2"
    and "create_conversation S a inp w2 = (r, w3)" and "cs_catalog S = catalog_service" and "convs_ok (db w)"
  shows "db w3 = db w2 \<and> ((\<exists>e. r = Inl e) \<or> (\<exists>v c. r = Inr v \<and> v = map_conversation c \<and>
     c \<in> set (conversations (db w2)) \<and> conv_deleted_at c \<noteq> None))"
proof -
  obtain c where c: "c \<in> set (conversations (db w1))" "owned_by a c" "conv_deleted_at c \<noteq> None"
    using delete_okD [OF assms(2)] by metis
  have "convs_ok (db w1)" using conv_change_ok [OF delete_conversation_change [OF assms(2)]] assms(6) by blast
  with conv_runs_ok [OF assms(3,5)] c(1,3) have ok: "convs_ok (db w2)" and c2: "c \<in> set (conversations (db w2))"
    by auto
  have clash: "conversation_clash x c" if "owned_by a x" for x
    using that c(2) assms(1) by (auto simp: owned_by_def conversation_clash_def)
  show ?thesis
  proof (cases r)
    case (Inl e)
    from create_conversation_inserts [OF assms(4,5)] have "db w3 = db w2"
      using insert_conversationD clash c2 by (fastforce simp: list_ex_iff)
    with Inl show ?thesis by simp
  next
    case (Inr v)
    from assms(4) [unfolded Inr] assms(5) show ?thesis
    proof (cases rule: create_okD)
      case (inserted x)
      with insert_conversationD [OF inserted(5)] clash c2 show ?thesis by (auto simp: list_ex_iff)
    next
      case (replayed x k)
      then have "x = c" using ok clash c2 by (auto simp: convs_ok_def pairwise_def)
      with replayed c(3) Inr show ?thesis by auto
    qed
  qed
qed

section \<open>Pages\<close>

text \<open>A client that follows the cursors; the fuel is the number of requests it is ready to make.\<close>

fun collect_pages :: "nat \<Rightarrow> conv_service \<Rightarrow> conv_actor \<Rightarrow> list_input \<Rightarrow> (world, conv_view list) op" where
  "collect_pages 0 S a li = fail (Msg ''too many pages'')"
| "collect_pages (Suc n) S a li =
     bindE (list_conversations S a li) (\<lambda>p.
     if pg_cursor p = [] then ok (pg_items p)
     else bindE (collect_pages n S a (li\<lparr>li_cursor := pg_cursor p\<rparr>)) (\<lambda>vs. ok (pg_items p @ vs)))"

definition wanted :: "conv_service \<Rightarrow> conv_actor \<Rightarrow> list_input \<Rightarrow> conversation_row \<Rightarrow> bool" where
  "wanted S a li c \<longleftrightarrow> conv_user_id c = Some (ca_id a) \<and> conv_deleted_at c = None
     \<and> (li_archived li \<or> conv_status c = ConvActive)
     \<and> opt_all (cs_search S (conv_title c)) (nullable_string (trim_space (li_search li)))"

definition ranked :: "conv_service \<Rightarrow> conv_actor \<Rightarrow> list_input \<Rightarrow> database \<Rightarrow> conversation_row list" where
  "ranked S a li d = rev (sort_key conv_rank (filter (wanted S a li) (conversations d)))"

text \<open>What a cursor can carry.\<close>

definition cursor_ok :: "conv_service \<Rightarrow> conversation_row \<Rightarrow> bool" where
  "cursor_ok S c \<longleftrightarrow> time_text (conv_updated_at c) \<noteq> None \<and> conv_updated_at c \<noteq> zero_time
     \<and> conv_id c \<noteq> uuid_nil \<and> cs_uuid S (uuid_string (conv_id c)) = Some (conv_id c)"

lemma list_user_ranked:
  "list_user_conversations (cs_search S) (ca_id a) (li_archived li) (nullable_string (trim_space (li_search li)))
     before n d = Inr (take n (filter (\<lambda>c. opt_all (\<lambda>k. conv_rank c < k) before) (ranked S a li d)))"
proof -
  let ?Q = "\<lambda>c. opt_all (\<lambda>k. conv_rank c < k) before"
  have "filter ?Q (ranked S a li d) = rev (sort_key conv_rank (filter ?Q (filter (wanted S a li) (conversations d))))"
    by (simp only: ranked_def rev_filter [symmetric] filter_sort)
  also have "filter ?Q (filter (wanted S a li) (conversations d)) = filter (\<lambda>c.
       conv_user_id c = Some (ca_id a) \<and> conv_deleted_at c = None \<and> (li_archived li \<or> conv_status c = ConvActive)
       \<and> opt_all (cs_search S (conv_title c)) (nullable_string (trim_space (li_search li))) \<and> ?Q c) (conversations d)"
    unfolding filter_filter by (rule filter_cong) (auto simp: wanted_def)
  finally show ?thesis by (simp only: list_user_conversations_def)
qed

lemma ranked_sorted:
  assumes "distinct (map conv_id (conversations d))"
  shows "sorted_wrt (\<lambda>c c'. conv_rank c' < conv_rank c) (ranked S a li d)"
proof -
  let ?xs = "filter (wanted S a li) (conversations d)"
  have "distinct (map conv_rank ?xs)"
    using assms by (auto simp: distinct_map conv_rank_def inj_on_def)
  then have "sorted_wrt (<) (map conv_rank (sort_key conv_rank ?xs))"
    by (simp add: strict_sorted_iff distinct_map)
  then show ?thesis by (simp add: ranked_def sorted_wrt_rev sorted_wrt_map)
qed

lemma filter_below:
  assumes "sorted_wrt (\<lambda>c c'. conv_rank c' < conv_rank c) L" and "m < length L"
  shows "filter (\<lambda>c. conv_rank c < conv_rank (L ! m)) L = drop (Suc m) L"
proof -
  have lt: "conv_rank (L ! j) < conv_rank (L ! i)" if "i < j" "j < length L" for i j
    using assms(1) that by (simp add: sorted_wrt_iff_nth_less)
  have "filter (\<lambda>c. conv_rank c < conv_rank (L ! m)) (take (Suc m) L) = []"
    using assms(2) lt by (auto simp: filter_empty_conv in_set_conv_nth less_Suc_eq) (metis order.asym)
  moreover have "filter (\<lambda>c. conv_rank c < conv_rank (L ! m)) (drop (Suc m) L) = drop (Suc m) L"
    using lt by (auto simp: filter_id_conv in_set_conv_nth)
  ultimately show ?thesis
    by (metis append_Nil append_take_drop_id filter_append)
qed

lemma encode_cursor_nonempty: "time_text t \<noteq> None \<Longrightarrow> encode_cursor t i \<noteq> []"
  by (auto simp: encode_cursor_def json_string_def elim!: b64_encode.elims)

lemma collect_from:
  assumes "faults w = []" "ca_type a = User" "ca_id a \<noteq> uuid_nil" "0 < li_limit li" "li_limit li \<le> 100"
    "length (li_search li) \<le> 200" "distinct (map conv_id (conversations (db w)))"
    "list_all (cursor_ok S) (conversations (db w))"
  shows "m \<le> length (ranked S a li (db w)) \<Longrightarrow>
    decode_cursor (cs_uuid S) cur = Some (if m = 0 then None else Some (conv_rank (ranked S a li (db w) ! (m - 1)))) \<Longrightarrow>
    length (ranked S a li (db w)) - m < n \<Longrightarrow>
    collect_pages n S a (li\<lparr>li_cursor := cur\<rparr>) w = (Inr (map map_conversation (drop m (ranked S a li (db w)))), w)"
proof (induction n arbitrary: m cur)
  case (Suc n)
  let ?L = "ranked S a li (db w)" and ?k = "nat (li_limit li)"
  let ?before = "if m = 0 then None else Some (conv_rank (?L ! (m - 1)))"
  have k: "0 < ?k" "nat (li_limit li + 1) = Suc ?k" using assms(4) by auto
  have sorted: "sorted_wrt (\<lambda>c c'. conv_rank c' < conv_rank c) ?L" by (rule ranked_sorted [OF assms(7)])
  have "filter (\<lambda>c. opt_all (\<lambda>k. conv_rank c < k) ?before) ?L = drop m ?L"
    using filter_below [OF sorted, of "m - 1"] Suc.prems(1) by (cases m) (auto simp: opt_all_def)
  then have rows: "list_user_conversations (cs_search S) (ca_id a) (li_archived li)
      (nullable_string (trim_space (li_search li))) ?before (Suc ?k) (db w) = Inr (take (Suc ?k) (drop m ?L))"
    by (simp only: list_user_ranked)
  have page: "list_conversations S a (li\<lparr>li_cursor := cur\<rparr>) w =
      (Inr (conversation_page (li_limit li) (take (Suc ?k) (drop m ?L))), w)"
    using assms(1-6) Suc.prems(2) rows k(2)
    by (simp add: list_conversations_def valid_conv_actor_def db_read_run wrap_err_def Let_def)
  show ?case
  proof (cases "?k < length (drop m ?L)")
    case False
    then show ?thesis using page by (simp add: conversation_page_def)
  next
    case True
    let ?last = "?L ! (m + ?k - 1)"
    have nth: "take (Suc ?k) (drop m ?L) ! (?k - 1) = ?last" using True k(1) by simp
    have "?last \<in> set ?L" using True by (intro nth_mem) auto
    then have "cursor_ok S ?last" using assms(8) by (auto simp: ranked_def list_all_iff)
    then have cur: "decode_cursor (cs_uuid S) (encode_cursor (conv_updated_at ?last) (conv_id ?last))
        = Some (Some (conv_rank ?last))" "encode_cursor (conv_updated_at ?last) (conv_id ?last) \<noteq> []"
      by (auto simp: cursor_ok_def conv_rank_def intro!: cursor_roundtrip_aux encode_cursor_nonempty)
    have "collect_pages n S a (li\<lparr>li_cursor := encode_cursor (conv_updated_at ?last) (conv_id ?last)\<rparr>) w =
        (Inr (map map_conversation (drop (m + ?k) ?L)), w)"
      by (rule Suc.IH) (use True k(1) cur Suc.prems(3) in auto)
    moreover have "take ?k (drop m ?L) @ drop (m + ?k) ?L = drop m ?L"
      by (metis append_take_drop_id drop_drop add.commute)
    ultimately show ?thesis
      using page True nth cur(2) by (simp add: conversation_page_def Let_def flip: map_append)
  qed
qed simp

text \<open>C21: following the cursors of the list gives every conversation of the user that matches exactly
  once, the last changed first, in at most one request more than there are conversations.\<close>
theorem pagination_complete:
  assumes "faults w = []" "ca_type a = User" "ca_id a \<noteq> uuid_nil" "0 < li_limit li" "li_limit li \<le> 100"
    "length (li_search li) \<le> 200" "li_cursor li = []" "distinct (map conv_id (conversations (db w)))"
    "list_all (cursor_ok S) (conversations (db w))" "length (conversations (db w)) < n"
  shows "collect_pages n S a li w =
    (Inr (map map_conversation (rev (sort_key conv_rank (filter (wanted S a li) (conversations (db w)))))), w)"
proof -
  have "length (ranked S a li (db w)) \<le> length (conversations (db w))" by (simp add: ranked_def)
  then have "collect_pages n S a (li\<lparr>li_cursor := []\<rparr>) w = (Inr (map map_conversation (drop 0 (ranked S a li (db w)))), w)"
    by (intro collect_from) (use assms in \<open>simp_all add: decode_cursor_def\<close>)
  moreover have "li\<lparr>li_cursor := []\<rparr> = li" using assms(7) by (cases li) simp
  ultimately show ?thesis by (simp add: ranked_def)
qed

section \<open>Examples\<close>

definition conv_demo :: conv_service where
  "conv_demo = \<lparr>cs_catalog = catalog_service, cs_uuid = (\<lambda>s. find (\<lambda>i. uuid_string i = s) [1, 2, 3]),
     cs_search = (\<lambda>title q. title = q)\<rparr>"

definition demo_user :: conv_actor where
  "demo_user = \<lparr>ca_type = User, ca_id = 5\<rparr>"

definition demo_guest :: conv_actor where
  "demo_guest = \<lparr>ca_type = Guest, ca_id = 9\<rparr>"

definition conv_db :: database where
  "conv_db = catalog_db\<lparr>
     users := [\<lparr>usr_id = 5, usr_email = ''a@b.c'', usr_display_name = ''A'', usr_avatar_url = None, usr_locale = ''en'',
       usr_role = RoleUser, usr_status = Active, usr_token_version = 1, usr_created_at = 0, usr_updated_at = 0,
       usr_version = 1\<rparr>],
     guest_sessions := [\<lparr>gst_id = 9, gst_identity_hash = [], gst_prompt_count = 0, gst_output_tokens = 0,
       gst_last_seen_at = 0, gst_expires_at = 5000, gst_migrated_user_id = None, gst_migrated_at = None\<rparr>],
     conversations := [new_conversation 1 (Some 6) None ''of another'' 100 None 500]\<rparr>"

definition conv_world :: world where
  "conv_world = world_of conv_db 1000 [2, 3, 4] []"

definition demo_create :: create_input where
  "demo_create = \<lparr>ci_title = ''Hi'', ci_model = None, ci_key = ''0123456789abcdef''\<rparr>"

lemmas conv_eval = create_conversation_def conv_selection_def insert_for_def create_user_conversation_def
  create_guest_conversation_def insert_conversation_def new_conversation_def conversation_clash_def text_ok_def
  title_ok_def key_length_ok_def opt_all_def rune_count_def valid_utf8_def decode_runes_ascii trim_space_def
  is_space_def nullable_string_def rune_error_def valid_conv_actor_def uuid_nil_def map_conversation_def catalog_service_def
  catalog_eval conv_demo_def demo_user_def demo_guest_def conv_world_def conv_db_def demo_create_def



lemma conv_demo_catalog: "cs_catalog conv_demo = catalog_service"
  by (simp add: conv_demo_def)




definition guest_world :: world where
  "guest_world = conv_world\<lparr>db := conv_db\<lparr>conversations := [new_conversation 3 None (Some 9) ''Mine'' 100 None 500]\<rparr>\<rparr>"

abbreviation guest_delete :: "(error + unit) \<times> world" where
  "guest_delete \<equiv> delete_conversation demo_guest 3 ''abcdefghijklmnop'' guest_world"

lemma example_delete: "fst guest_delete = Inr ()"
  by (simp add: guest_world_def conv_eval world_eval delete_conversation_def owned_conversation_def conv_reads
      one_row_def soft_delete_guest_conversation_def soft_delete_def count_rows_def)

theorem guest_conversation_spent_witness:
  "db (snd (create_conversation conv_demo demo_guest demo_create (snd guest_delete))) = db (snd guest_delete)"
proof -
  have "convs_ok (db guest_world)"
    by (simp add: convs_ok_def guest_world_def pairwise_def)
  moreover have "guest_delete = (Inr (), snd guest_delete)" using example_delete by (simp add: prod_eq_iff)
  ultimately show ?thesis
    using guest_conversation_spent [OF _ _ conv_runs.none prod.collapse [symmetric] conv_demo_catalog]
    by (auto simp: demo_guest_def)
qed

definition paged_world :: world where
  "paged_world = conv_world\<lparr>db := conv_db\<lparr>conversations :=
     [new_conversation 1 (Some 5) None ''Old'' 100 None 500, new_conversation 2 (Some 5) None ''New'' 100 None 900]\<rparr>\<rparr>"

definition one_by_one :: list_input where
  "one_by_one = \<lparr>li_limit = 1, li_cursor = [], li_search = [], li_archived = False\<rparr>"

lemma paged_cursors: "list_all (cursor_ok conv_demo) (conversations (db paged_world))"
proof -
  have "time_text 500 \<noteq> None" "time_text 900 \<noteq> None" by code_simp+
  moreover have "uuid_string 1 \<noteq> uuid_string 2" using uuid_string_inj [of 1 2] by auto
  ultimately show ?thesis
    by (simp add: paged_world_def cursor_ok_def new_conversation_def zero_time_def uuid_nil_def conv_demo_def)
qed

theorem pagination_complete_witness:
  "\<exists>vs. collect_pages 3 conv_demo demo_user one_by_one paged_world = (Inr vs, paged_world)
     \<and> map cv_title vs = [''New'', ''Old'']"
proof -
  have rows: "conversations (db paged_world) =
     [new_conversation 1 (Some 5) None ''Old'' 100 None 500, new_conversation 2 (Some 5) None ''New'' 100 None 900]"
    by (simp add: paged_world_def)
  have "rev (sort_key conv_rank (filter (wanted conv_demo demo_user one_by_one) (conversations (db paged_world)))) =
     [new_conversation 2 (Some 5) None ''New'' 100 None 900, new_conversation 1 (Some 5) None ''Old'' 100 None 500]"
    by (simp add: rows wanted_def new_conversation_def demo_user_def one_by_one_def opt_all_def nullable_string_def
        trim_space_def conv_rank_def)
  moreover have "faults paged_world = []" by (simp add: paged_world_def conv_world_def world_of_def)
  ultimately show ?thesis
    using pagination_complete [of paged_world demo_user one_by_one conv_demo 3] paged_cursors
    by (simp add: demo_user_def one_by_one_def uuid_nil_def rows new_conversation_def map_conversation_def)
qed

end
