(* ===== verification/JsonLaws.thy ===== *)
theory JsonLaws
  imports Cursor
begin

text \<open>
  What \<open>json.Marshal\<close> prints, \<open>json.Unmarshal\<close> reads back: for every value without fractions whose
  strings are valid UTF-8. The two halves are the string literals with their escapes and the
  structure of arrays and objects.
\<close>

section \<open>Fuel\<close>

lemma hex4_shrinks: "hex4 s = Some (x, r) \<Longrightarrow> length r < length s"
  by (auto simp: hex4_def split: list.splits option.splits)

text \<open>Any fuel above the length of the text gives the same literal.\<close>

lemma parse_string_fuel:
  "length s < n \<Longrightarrow> length s < m \<Longrightarrow> parse_string n s acc = parse_string m s acc"
proof (induction n arbitrary: m s acc)
  case 0
  then show ?case by simp
next
  case (Suc n)
  obtain k where m: "m = Suc k" using Suc.prems(2) by (cases m) auto
  show ?case
  proof (cases s)
    case Nil
    then show ?thesis by (simp add: m)
  next
    case (Cons c s')
    have same: "parse_string n t acc' = parse_string k t acc'" if "length t \<le> length s'" for t acc'
      using Suc.IH [of t k acc'] Suc.prems that by (simp add: Cons m)
    have eq: "hex4 s1 = Some (x, s2) \<Longrightarrow> length s1 \<le> length s' \<Longrightarrow> length s2 \<le> length s'" for s1 s2 x
      using hex4_shrinks [of s1 x s2] by simp
    show ?thesis
      unfolding Cons m
      by (auto simp: same split: list.split option.split dest!: eq)
  qed
qed

abbreviation parse_literal :: "string \<Rightarrow> string \<Rightarrow> (string \<times> string) option" where
  "parse_literal s acc \<equiv> parse_string (Suc (length s)) s acc"

section \<open>String literals\<close>

lemma parse_literal_byte:
  "byte c \<noteq> 34 \<Longrightarrow> byte c \<noteq> 92 \<Longrightarrow> 32 \<le> byte c \<Longrightarrow> parse_literal (c # s) acc = parse_literal s (acc @ [c])"
  by simp

lemma parse_literal_bytes:
  "list_all (\<lambda>c. 32 \<le> byte c \<and> byte c \<noteq> 34 \<and> byte c \<noteq> 92) bs \<Longrightarrow>
   parse_literal (bs @ s) acc = parse_literal s (acc @ bs)"
proof (induction bs arbitrary: acc)
  case (Cons c bs)
  then have "parse_literal (c # bs @ s) acc = parse_literal (bs @ s) (acc @ [c])"
    by (intro parse_literal_byte) auto
  with Cons show ?case by simp
qed simp

lemma parse_literal_escape:
  assumes "(e, b) \<in> {(CHR 0x22, CHR 0x22), (CHR 0x5C, CHR 0x5C), (CHR ''b'', CHR 0x08), (CHR ''f'', CHR 0x0C),
     (CHR ''n'', CHR 0x0A), (CHR ''r'', CHR 0x0D), (CHR ''t'', CHR 0x09)}"
  shows "parse_literal (CHR 0x5C # e # s) acc = parse_literal s (acc @ [b])"
proof -
  have "parse_string (Suc (Suc (length s))) s x = parse_literal s x" for x
    by (rule parse_string_fuel) simp_all
  then show ?thesis using assms by (elim insertE emptyE) simp_all
qed

lemma parse_literal_unicode:
  assumes "hex4 t = Some (r, s)" and "r < 55296"
  shows "parse_literal (CHR 0x5C # CHR ''u'' # t) acc = parse_literal s (acc @ encode_rune r)"
proof -
  have "parse_string (Suc (Suc (length t))) s x = parse_literal s x" for x
    using hex4_shrinks [OF assms(1)] by (intro parse_string_fuel) simp_all
  then show ?thesis using assms by simp
qed

lemma hex_value_digit: "d < 16 \<Longrightarrow> hex_value (digit_char d) = Some d"
  by (auto simp: hex_value_def is_digit_def byte_digit_char)

lemma hex4_fixed:
  assumes "r < 65536"
  shows "hex4 (hex_fixed 4 r @ s) = Some (r, s)"
proof -
  define a b c where "a = r div 16" and "b = a div 16" and "c = b div 16"
  have "c div 16 = 0" using assms by (simp add: a_def b_def c_def div_mult2_eq [symmetric])
  then have "c mod 16 = c" by (simp add: div_eq_0_iff)
  moreover have "r = a * 16 + r mod 16" "a = b * 16 + a mod 16" "b = c * 16 + b mod 16"
    by (simp_all add: a_def b_def c_def)
  ultimately have sum: "c mod 16 * 4096 + b mod 16 * 256 + a mod 16 * 16 + r mod 16 = r"
    by linarith
  have "(4::nat) = Suc (Suc (Suc (Suc 0)))" by simp
  then have "hex_fixed 4 r = [digit_char (c mod 16), digit_char (b mod 16), digit_char (a mod 16), digit_char (r mod 16)]"
    by (simp only: hex_fixed.simps append.simps a_def b_def c_def)
  moreover have "hex_value (digit_char (x mod 16)) = Some (x mod 16)" for x
    by (rule hex_value_digit) simp
  ultimately show ?thesis
    by (simp only: hex4_def append.simps list.case option.case prod.case sum)
qed


text \<open>A rune decoded from valid bytes is encoded by those bytes.\<close>

lemma digits64:
  "a < 64 \<Longrightarrow> (k * 64 + a) div 64 = (k::nat)" "a < 64 \<Longrightarrow> (k * 64 + a) mod 64 = (a::nat)"
  by simp_all

lemma bound64:
  "16 \<le> k \<Longrightarrow> 1024 \<le> k * 64 + (a::nat)" "32 \<le> k \<Longrightarrow> 2048 \<le> k * 64 + a"
  "1024 \<le> k \<Longrightarrow> 65536 \<le> k * 64 + a" "k < 1024 \<Longrightarrow> a < 64 \<Longrightarrow> k * 64 + a < 65536"
  by simp_all

lemma high_bits: "m \<le> b \<Longrightarrow> b < m + d \<Longrightarrow> d dvd m \<Longrightarrow> m + b mod d = (b::nat)"
proof -
  assume a: "m \<le> b" "b < m + d" "d dvd m"
  then obtain k where k: "b = m + k" "k < d" by (metis add_less_cancel_left le_iff_add)
  then have "b mod d = k" using a(3) by (auto elim!: dvdE)
  then show ?thesis using k(1) by simp
qed

lemma decode_rune_valid:
  assumes "decode_rune s = (r, n)" and "s \<noteq> []" and "r \<noteq> rune_error \<or> n = 3"
  shows "take n s = encode_rune r" and "128 \<le> r \<Longrightarrow> list_all (\<lambda>c. 128 \<le> byte c) (take n s)"
proof -
  obtain c s1 where s: "s = c # s1" using assms(2) by (cases s) auto
  consider (ascii) "byte c < 128" "r = byte c" "n = 1"
    | (two) d s2 where "s1 = d # s2" "194 \<le> byte c" "byte c < 224" "128 \<le> byte d" "byte d < 192"
        "r = byte c mod 32 * 64 + byte d mod 64" "n = 2"
    | (three) d e s3 where "s1 = d # e # s3" "224 \<le> byte c" "byte c < 240" "128 \<le> byte d" "byte d < 192"
        "byte c = 224 \<Longrightarrow> 160 \<le> byte d" "128 \<le> byte e" "byte e < 192"
        "r = byte c mod 16 * 4096 + byte d mod 64 * 64 + byte e mod 64" "n = 3"
    | (four) d e f s4 where "s1 = d # e # f # s4" "240 \<le> byte c" "byte c < 245" "128 \<le> byte d" "byte d < 192"
        "byte c = 240 \<Longrightarrow> 144 \<le> byte d" "128 \<le> byte e" "byte e < 192" "128 \<le> byte f" "byte f < 192"
        "r = byte c mod 8 * 262144 + byte d mod 64 * 4096 + byte e mod 64 * 64 + byte f mod 64" "n = 4"
    using assms(1,3)
    by (auto simp: s decode_rune_def Let_def second_ok_def is_cont_def rune_error_def
        split: if_splits list.splits)
  then have "take n s = encode_rune r \<and> (128 \<le> r \<longrightarrow> list_all (\<lambda>c. 128 \<le> byte c) (take n s))"
  proof cases
    case ascii
    then show ?thesis by (simp add: s encode_rune_def)
  next
    case two
    define x y where "x = byte c mod 32" and "y = byte d mod 64"
    have b: "192 + x = byte c" "128 + y = byte d" "y < 64" and r: "r = x * 64 + y"
      using two by (simp_all add: x_def y_def high_bits)
    have "r div 64 = x" "r mod 64 = y" using b by (simp_all add: r)
    moreover have "128 \<le> r" "r < 2048" using two(2,3) b by (simp_all add: r)
    ultimately have "encode_rune r = [c, d]" by (simp add: encode_rune_def b)
    with two show ?thesis by (simp add: s)
  next
    case three
    define x y z where "x = byte c mod 16" and "y = byte d mod 64" and "z = byte e mod 64"
    have b: "224 + x = byte c" "128 + y = byte d" "128 + z = byte e" "y < 64" "z < 64"
        and r: "r = (x * 64 + y) * 64 + z"
      using three by (simp_all add: x_def y_def z_def high_bits)
    have d: "r div 64 = x * 64 + y" "r mod 64 = z" unfolding r using b by (simp_all only: digits64)
    have "r div 4096 = r div 64 div 64" by (simp add: div_mult2_eq [symmetric])
    then have e: "r div 4096 = x" using b d by simp
    have "x < 16" "x = 0 \<longrightarrow> 32 \<le> y" using three(3,6) b(1,2) by linarith+
    then have "32 \<le> x * 64 + y" "x * 64 + y < 1024" using b(4) by (cases "x = 0"; linarith)+
    then have "2048 \<le> r" by (simp only: bound64 r)
    moreover have "r < 65536" using \<open>x * 64 + y < 1024\<close> b(5) by (simp only: bound64 r)
    ultimately have "encode_rune r = [char_of (224 + r div 4096), char_of (128 + r div 64 mod 64), char_of (128 + r mod 64)]"
      by (simp add: encode_rune_def)
    then have "encode_rune r = [c, d, e]" by (simp only: d e digits64 [OF b(4)] b char_of_char)
    with three(1,2,4,7,10) show ?thesis by (simp add: s numeral_eq_Suc)
  next
    case four
    define x y z u where "x = byte c mod 8" and "y = byte d mod 64" and "z = byte e mod 64" and "u = byte f mod 64"
    have b: "240 + x = byte c" "128 + y = byte d" "128 + z = byte e" "128 + u = byte f" "y < 64" "z < 64" "u < 64"
        and r: "r = ((x * 64 + y) * 64 + z) * 64 + u"
      using four by (simp_all add: x_def y_def z_def u_def high_bits)
    have d: "r div 64 = (x * 64 + y) * 64 + z" "r mod 64 = u" unfolding r using b by (simp_all only: digits64)
    have "r div 4096 = r div 64 div 64" "r div 262144 = r div 64 div 64 div 64"
      by (simp_all add: div_mult2_eq [symmetric])
    then have e: "r div 4096 = x * 64 + y" "r div 262144 = x" using b d by simp_all
    have "x = 0 \<longrightarrow> 16 \<le> y" using four(6) b(1,2) by linarith
    then have "16 \<le> x * 64 + y" by (cases "x = 0"; linarith)
    then have "1024 \<le> (x * 64 + y) * 64 + z" by (simp only: bound64)
    then have "65536 \<le> r" by (simp only: bound64 r)
    then have "encode_rune r = [char_of (240 + r div 262144), char_of (128 + r div 4096 mod 64),
        char_of (128 + r div 64 mod 64), char_of (128 + r mod 64)]"
      by (simp add: encode_rune_def)
    then have "encode_rune r = [c, d, e, f]"
      by (simp only: d e digits64 [OF b(5)] digits64 [OF b(6)] b char_of_char)
    with four(1,2,4,7,9,12) show ?thesis by (simp add: s numeral_eq_Suc)
  qed
  then show "take n s = encode_rune r" and "128 \<le> r \<Longrightarrow> list_all (\<lambda>c. 128 \<le> byte c) (take n s)" by auto
qed


lemma length_encode_error: "length (encode_rune rune_error) = 3"
  by (simp add: encode_rune_def rune_error_def)

lemma decode_runes_items:
  assumes "valid_utf8 s"
  shows "list_all (\<lambda>(r, bs). bs = encode_rune r \<and> (128 \<le> r \<longrightarrow> list_all (\<lambda>c. 128 \<le> byte c) bs)
    \<and> \<not> (r = rune_error \<and> length bs \<noteq> 3)) (decode_runes s)"
  using assms
proof (induction s rule: decode_runes.induct)
  case (1 s)
  show ?case
  proof (cases "s = []")
    case False
    obtain r n where d: "decode_rune s = (r, n)" by fastforce
    have runes: "decode_runes s = (r, take n s) # decode_runes (drop n s)"
      using False d by (subst decode_runes.simps) simp
    have n: "n \<le> length s" using decode_rune_width [OF False] d by simp
    have ok: "r \<noteq> rune_error \<or> n = 3" "valid_utf8 (drop n s)"
      using "1.prems" n by (auto simp: valid_utf8_def runes)
    show ?thesis
      using "1.IH" [OF False d [symmetric] ok(2)] decode_rune_valid [OF d False ok(1)] ok(1) n
      by (auto simp: runes length_encode_error)
  qed simp
qed

lemma rune_below_128: "r < 128 \<Longrightarrow> encode_rune r = [char_of r]"
  by (simp add: encode_rune_def)

text \<open>One printed rune is read back as the bytes it was printed from.\<close>

lemma parse_escaped:
  assumes bs: "bs = encode_rune r" and high: "128 \<le> r \<longrightarrow> list_all (\<lambda>c. 128 \<le> byte c) bs"
    and valid: "\<not> (r = rune_error \<and> length bs \<noteq> 3)"
  shows "parse_literal (escape_rune (r, bs) @ s) acc = parse_literal s (acc @ bs)"
proof -
  have raw: ?thesis if "escape_rune (r, bs) = bs" "32 \<le> r" "r \<noteq> 34" "r \<noteq> 92"
  proof -
    have "list_all (\<lambda>c. 32 \<le> byte c \<and> byte c \<noteq> 34 \<and> byte c \<noteq> 92) bs"
      using that(2-) high by (cases "r < 128") (auto simp: bs rune_below_128 list_all_iff)
    then show ?thesis unfolding that(1) by (rule parse_literal_bytes)
  qed
  have unicode: ?thesis if "escape_rune (r, bs) = CHR 0x5C # ''u'' @ hex_fixed 4 r" "r < 55296"
    using parse_literal_unicode [OF hex4_fixed [of r s]] that by (simp add: bs)
  have short: ?thesis if "(e, c) \<in> {(CHR 0x22, CHR 0x22), (CHR 0x5C, CHR 0x5C), (CHR ''b'', CHR 0x08),
      (CHR ''f'', CHR 0x0C), (CHR ''n'', CHR 0x0A), (CHR ''r'', CHR 0x0D), (CHR ''t'', CHR 0x09)}"
      "byte c = r" "r < 128" "escape_rune (r, bs) = [CHR 0x5C, e]" for e c
    using parse_literal_escape [OF that(1), of s acc] that(2-) by (auto simp: bs rune_below_128)
  consider "r \<in> {34, 92, 8, 12, 10, 13, 9}"
    | "r \<notin> {34, 92, 8, 12, 10, 13, 9}" "r < 32 \<or> r = 60 \<or> r = 62 \<or> r = 38 \<or> r = 8232 \<or> r = 8233"
    | "r \<notin> {34, 92, 8, 12, 10, 13, 9}" "\<not> (r < 32 \<or> r = 60 \<or> r = 62 \<or> r = 38 \<or> r = 8232 \<or> r = 8233)"
    by blast
  then show ?thesis
  proof cases
    case 1
    then consider "r = 34" | "r = 92" | "r = 8" | "r = 12" | "r = 10" | "r = 13" | "r = 9" by blast
    then show ?thesis
      by cases (rule short [of "CHR 0x22" "CHR 0x22"] short [of "CHR 0x5C" "CHR 0x5C"] short [of "CHR ''b''" "CHR 0x08"]
        short [of "CHR ''f''" "CHR 0x0C"] short [of "CHR ''n''" "CHR 0x0A"] short [of "CHR ''r''" "CHR 0x0D"]
        short [of "CHR ''t''" "CHR 0x09"]; simp add: escape_rune_def; fail)+
  next
    case 2
    then show ?thesis by (intro unicode) (auto simp: escape_rune_def)
  next
    case 3
    then show ?thesis using valid by (intro raw) (auto simp: escape_rune_def)
  qed
qed


lemma parse_printed_runes:
  "list_all (\<lambda>(r, bs). bs = encode_rune r \<and> (128 \<le> r \<longrightarrow> list_all (\<lambda>c. 128 \<le> byte c) bs)
     \<and> \<not> (r = rune_error \<and> length bs \<noteq> 3)) items \<Longrightarrow>
   parse_literal (concat (map escape_rune items) @ t) acc = parse_literal t (acc @ concat (map snd items))"
proof (induction items arbitrary: acc)
  case (Cons item items)
  then show ?case
    using parse_escaped [of "snd item" "fst item" "concat (map escape_rune items) @ t" acc]
    by (auto simp: length_encode_error simp del: parse_string.simps)
qed simp

lemma parse_printed_string:
  assumes "valid_utf8 s"
  shows "parse_literal (concat (map escape_rune (decode_runes s)) @ CHR 0x22 # r) [] = Some (s, r)"
  unfolding parse_printed_runes [OF decode_runes_items [OF assms]] by (simp add: concat_decode_runes)

section \<open>Numbers\<close>

lemma digit_ascii:
  assumes "d < 10"
  shows "is_digit (digit_char d)" and "digit_char d = CHR ''0'' \<longleftrightarrow> d = 0"
proof -
  show "is_digit (digit_char d)" using assms by (simp add: is_digit_def byte_digit_char)
  have "byte (digit_char 0) = byte CHR ''0''" by (simp add: byte_digit_char)
  then have "digit_char 0 = CHR ''0''" by (metis char_of_char)
  then show "digit_char d = CHR ''0'' \<longleftrightarrow> d = 0" using assms digit_char_inj [of d 0] by auto
qed

lemma nat_string_small: "n < 10 \<Longrightarrow> nat_string n = [digit_char n]"
  by (subst nat_string.simps) simp

lemma nat_string_large: "\<not> n < 10 \<Longrightarrow> nat_string n = nat_string (n div 10) @ [digit_char (n mod 10)]"
  by (subst nat_string.simps) simp

lemma nat_string_digits:
  "list_all is_digit (nat_string n) \<and> nat_string n \<noteq> [] \<and> digits_value (nat_string n) = int n
   \<and> (hd (nat_string n) = CHR ''0'' \<longleftrightarrow> n = 0)"
proof (induction n rule: nat_string.induct)
  case (1 n)
  show ?case
  proof (cases "n < 10")
    case True
    then show ?thesis by (simp add: nat_string_small digit_ascii)
  next
    case False
    have "int n = int (n div 10) * 10 + int (n mod 10)" by presburger
    with False 1 show ?thesis
      by (simp add: nat_string_large digits_value_append digit_ascii)
  qed
qed

lemma nat_string_zero: "length (nat_string n) > 1 \<Longrightarrow> n \<noteq> 0"
  by (rule notI) (simp add: nat_string_small)

definition follows :: "string \<Rightarrow> bool" where
  "follows r \<longleftrightarrow> r = [] \<or> hd r \<in> {CHR '','', CHR '']'', CHR ''}''}"

lemma parse_digits:
  assumes "list_all is_digit ds" "ds \<noteq> []" "\<not> (1 < length ds \<and> hd ds = CHR ''0'')" "follows r"
    and s: "(case s of c # t \<Rightarrow> if c = CHR ''-'' then (True, t) else (False, s) | [] \<Rightarrow> (False, [])) = (neg, ds @ r)"
  shows "parse_number s = Some (JInt (if neg then - digits_value ds else digits_value ds), r)"
proof -
  have r: "takeWhile is_digit r = []" "dropWhile is_digit r = r"
    using assms(4) by (cases r; auto simp: follows_def is_digit_def)+
  obtain q where q: "q = ds @ r" by blast
  have scanned: "takeWhile is_digit q = ds" "dropWhile is_digit q = r"
    using assms(1) r by (simp_all add: q list_all_iff takeWhile_append2 dropWhile_append2)
  show ?thesis
  proof (cases r)
    case Nil
    with assms(2,3) show ?thesis by (auto simp: parse_number_def Let_def s [folded q] scanned)
  next
    case (Cons c t)
    then have "c \<noteq> CHR ''.''" "c \<noteq> CHR ''e''" "c \<noteq> CHR ''E''" using assms(4) by (auto simp: follows_def)
    with Cons assms(2,3) show ?thesis by (auto simp: parse_number_def Let_def s [folded q] scanned)
  qed
qed

lemma parse_printed_number:
  assumes "follows r"
  shows "parse_number (int_string i @ r) = Some (JInt i, r)"
proof -
  define n where "n = nat \<bar>i\<bar>"
  note digits = nat_string_digits [of n]
  obtain c t where ct: "nat_string n = c # t" using digits by (cases "nat_string n") auto
  then have c: "c \<noteq> CHR ''-''" using digits by (auto simp: is_digit_def)
  have printed: "int_string i = (if i < 0 then CHR ''-'' # nat_string n else nat_string n)"
    by (simp add: int_string_def n_def)
  have "parse_number (int_string i @ r) =
      Some (JInt (if i < 0 then - digits_value (nat_string n) else digits_value (nat_string n)), r)"
    by (rule parse_digits) (use assms digits nat_string_zero [of n] c in \<open>auto simp: printed ct\<close>)
  moreover have "digits_value (nat_string n) = \<bar>i\<bar>" using digits by (simp add: n_def)
  ultimately show ?thesis by simp
qed

section \<open>Values\<close>

text \<open>What \<open>Marshal\<close> is given: no fractions, and texts of valid UTF-8.\<close>

primrec json_ok :: "json \<Rightarrow> bool" where
  "json_ok JNull = True"
| "json_ok (JBool b) = True"
| "json_ok (JInt i) = True"
| "json_ok (JFrac s) = False"
| "json_ok (JStr s) = valid_utf8 s"
| "json_ok (JArr xs) = list_all id (map json_ok xs)"
| "json_ok (JObj kvs) = list_all (\<lambda>p. valid_utf8 (fst p) \<and> snd p) (map (map_prod id json_ok) kvs)"

definition reads :: "json \<Rightarrow> bool" where
  "reads j \<longleftrightarrow> (\<forall>n r. length (json_text j) < n \<longrightarrow> follows r \<longrightarrow> parse_value n (json_text j @ r) = Some (j, r))"

lemma reads_string: "valid_utf8 s \<Longrightarrow> reads (JStr s)"
  unfolding reads_def
proof (intro allI impI)
  fix n r
  assume s: "valid_utf8 s" and "length (json_text (JStr s)) < n"
  then obtain k where n: "n = Suc k" by (cases n) auto
  have "parse_string (length (json_string s @ r)) (concat (map escape_rune (decode_runes s)) @ CHR 0x22 # r) [] = Some (s, r)"
    using parse_printed_string [OF s, of r] by (simp add: json_string_def del: parse_string.simps)
  then show "parse_value n (json_text (JStr s) @ r) = Some (JStr s, r)"
    by (simp add: n json_string_def skip_space_def is_json_space_def Let_def del: parse_string.simps)
qed


lemma text_start:
  "json_ok j \<Longrightarrow> \<exists>c t. json_text j = c # t \<and> \<not> is_json_space c \<and> c \<noteq> CHR '']'' \<and> c \<noteq> CHR ''}''"
proof (cases j)
  case (JInt i)
  obtain c t where ct: "nat_string (nat \<bar>i\<bar>) = c # t" and "is_digit c"
    using nat_string_digits [of "nat \<bar>i\<bar>"] by (cases "nat_string (nat \<bar>i\<bar>)") auto
  then show ?thesis by (auto simp: JInt int_string_def is_digit_def is_json_space_def)
qed (auto simp: is_json_space_def json_string_def)

lemma skip_text: "json_ok j \<Longrightarrow> skip_space (json_text j @ r) = json_text j @ r"
  using text_start [of j] by (auto simp: skip_space_def)

lemma reads_atom: "json_ok j \<Longrightarrow> j = JNull \<or> j = JBool b \<or> j = JInt i \<Longrightarrow> reads j"
  unfolding reads_def
proof (intro allI impI)
  fix n r
  assume j: "json_ok j" "j = JNull \<or> j = JBool b \<or> j = JInt i" and "length (json_text j) < n" and r: "follows r"
  then obtain k where n: "n = Suc k" by (cases n) auto
  show "parse_value n (json_text j @ r) = Some (j, r)"
  proof (cases "j = JInt i")
    case True
    obtain c t where ct: "nat_string (nat \<bar>i\<bar>) = c # t" and c: "is_digit c"
      using nat_string_digits [of "nat \<bar>i\<bar>"] by (cases "nat_string (nat \<bar>i\<bar>)") auto
    then obtain d u where d: "int_string i = d # u" "d = CHR ''-'' \<or> is_digit d"
      by (cases "i < 0") (auto simp: int_string_def)
    then have not: "\<not> is_json_space d" "d \<noteq> CHR ''n''" "d \<noteq> CHR ''t''" "d \<noteq> CHR ''f''" "d \<noteq> CHR ''[''" "d \<noteq> CHR ''{''"
        "byte d \<noteq> 34"
      by (auto simp: is_digit_def is_json_space_def)
    have "parse_value n (d # u @ r) = parse_number (d # u @ r)"
      by (simp add: n skip_space_def Let_def not)
    then show ?thesis
      using parse_printed_number [OF r, of i] True d(1) by (simp del: parse_value.simps)
  qed (use j in \<open>auto simp: n skip_space_def is_json_space_def\<close>)
qed

lemma parse_printed_elems:
  "(\<forall>x\<in>set xs. json_ok x \<and> reads x) \<Longrightarrow> xs \<noteq> [] \<Longrightarrow> length (join '','' (map json_text xs)) + 1 < n \<Longrightarrow>
   parse_elems n (join '','' (map json_text xs) @ CHR '']'' # r) acc = Some (JArr (acc @ xs), r)"
proof (induction xs arbitrary: n acc)
  case (Cons x xs)
  then obtain k where n: "n = Suc k" by (cases n) auto
  have x: "parse_value k (json_text x @ c # t) = Some (x, c # t)" if "c \<in> {CHR '','', CHR '']''}" for c t
    using Cons.prems that by (cases xs) (auto simp: reads_def n follows_def)
  show ?case
  proof (cases xs)
    case Nil
    then show ?thesis by (simp add: n x skip_space_def is_json_space_def)
  next
    case (Cons y ys)
    then have "parse_elems k (join '','' (map json_text xs) @ CHR '']'' # r) (acc @ [x]) = Some (JArr (acc @ [x] @ xs), r)"
      using Cons.IH [of k "acc @ [x]"] Cons.prems by (simp add: n)
    then show ?thesis by (simp add: n x skip_space_def is_json_space_def Cons)
  qed
qed simp


abbreviation member_text :: "string \<times> json \<Rightarrow> string" where
  "member_text p \<equiv> json_string (fst p) @ '':'' @ json_text (snd p)"

lemma members_text: "map (\<lambda>p. json_string (fst p) @ '':'' @ snd p) (map (map_prod id json_text) kvs) = map member_text kvs"
  by (simp add: comp_def)

lemma parse_printed_members:
  "(\<forall>p\<in>set kvs. valid_utf8 (fst p) \<and> json_ok (snd p) \<and> reads (snd p)) \<Longrightarrow> kvs \<noteq> [] \<Longrightarrow>
   length (join '','' (map member_text kvs)) + 1 < n \<Longrightarrow>
   parse_members n (join '','' (map member_text kvs) @ CHR ''}'' # r) acc = Some (JObj (acc @ kvs), r)"
proof (induction kvs arbitrary: n acc)
  case (Cons p kvs)
  then obtain m where n: "n = Suc m" by (cases n) auto
  obtain k v where p: "p = (k, v)" by fastforce
  have v: "parse_value m (json_text v @ c # t) = Some (v, c # t)" if "c \<in> {CHR '','', CHR ''}''}" for c t
    using Cons.prems that by (cases kvs) (auto simp: reads_def n follows_def p)
  have k: "parse_string (length (json_string k @ t)) (concat (map escape_rune (decode_runes k)) @ CHR 0x22 # t) [] = Some (k, t)" for t
    using parse_printed_string [of k t] Cons.prems(1) by (simp add: p json_string_def del: parse_string.simps)
  have member: "parse_members n (member_text p @ c # t) acc =
      (if c = CHR '','' then parse_members m t (acc @ [p]) else Some (JObj (acc @ [p]), t))"
    if "c \<in> {CHR '','', CHR ''}''}" for c t
    using k [of "'':'' @ json_text v @ c # t"] v [OF that] that
    by (auto simp: n p skip_space_def is_json_space_def json_string_def simp del: parse_string.simps)
  show ?case
  proof (cases kvs)
    case Nil
    then show ?thesis using member [of "CHR ''}''" r] by simp
  next
    case (Cons q ys)
    then have "parse_members m (join '','' (map member_text kvs) @ CHR ''}'' # r) (acc @ [p]) = Some (JObj (acc @ [p] @ kvs), r)"
      using Cons.IH [of m "acc @ [p]"] Cons.prems by (simp add: n)
    then show ?thesis
      using member [of "CHR '',''" "join '','' (map member_text kvs) @ CHR ''}'' # r"] by (simp add: Cons)
  qed
qed simp

lemma reads_array: "(\<forall>x\<in>set xs. json_ok x \<and> reads x) \<Longrightarrow> reads (JArr xs)"
  unfolding reads_def [of "JArr xs"]
proof (intro allI impI)
  fix n r
  assume xs: "\<forall>x\<in>set xs. json_ok x \<and> reads x" and "length (json_text (JArr xs)) < n"
  then obtain k where n: "n = Suc k" and k: "length (join '','' (map json_text xs)) + 1 < k" by (cases n) auto
  show "parse_value n (json_text (JArr xs) @ r) = Some (JArr xs, r)"
  proof (cases xs)
    case Nil
    then show ?thesis by (simp add: n skip_space_def is_json_space_def)
  next
    case (Cons x ys)
    obtain u where u: "join '','' (map json_text xs) = json_text x @ u" by (cases ys) (auto simp: Cons)
    obtain c t where ct: "json_text x = c # t" "\<not> is_json_space c" "c \<noteq> CHR '']''"
      using text_start [of x] xs Cons by auto
    then show ?thesis
      using parse_printed_elems [OF xs _ k, of r "[]"] Cons u
      by (simp add: n skip_space_def is_json_space_def Let_def)
  qed
qed

lemma reads_object:
  "(\<forall>p\<in>set kvs. valid_utf8 (fst p) \<and> json_ok (snd p) \<and> reads (snd p)) \<Longrightarrow> reads (JObj kvs)"
  unfolding reads_def [of "JObj kvs"]
proof (intro allI impI)
  fix n r
  assume kvs: "\<forall>p\<in>set kvs. valid_utf8 (fst p) \<and> json_ok (snd p) \<and> reads (snd p)"
    and "length (json_text (JObj kvs)) < n"
  then obtain k where n: "n = Suc k" and k: "length (join '','' (map member_text kvs)) + 1 < k"
    by (cases n) (auto simp: comp_def)
  show "parse_value n (json_text (JObj kvs) @ r) = Some (JObj kvs, r)"
  proof (cases kvs)
    case Nil
    then show ?thesis by (simp add: n skip_space_def is_json_space_def)
  next
    case (Cons p ps)
    obtain t where t: "join '','' (map member_text kvs) = CHR 0x22 # t"
      by (cases ps) (auto simp: Cons json_string_def)
    then have "json_text (JObj kvs) @ r = CHR ''{'' # CHR 0x22 # t @ CHR ''}'' # r"
      by (simp add: comp_def)
    then show ?thesis
      using parse_printed_members [OF kvs _ k, of r "[]"] Cons t
      by (simp add: n skip_space_def is_json_space_def Let_def)
  qed
qed

lemma json_reads: "json_ok j \<Longrightarrow> reads j"
proof (induction j)
  case (JArr xs)
  then show ?case by (intro reads_array) (auto simp: list_all_iff)
next
  case (JObj kvs)
  then show ?case by (intro reads_object) (force simp: list_all_iff prod_set_defs)
qed (auto intro: reads_string reads_atom)

lemma json_roundtrip:
  assumes "json_ok j"
  shows "parse_json (json_text j) = Some j"
proof -
  have "parse_value (2 * length (json_text j) + 2) (json_text j @ []) = Some (j, [])"
    using json_reads [OF assms, unfolded reads_def, rule_format, of "2 * length (json_text j) + 2" "[]"]
    by (simp only: follows_def simp_thms)
  then show ?thesis by (simp add: parse_json_def skip_space_def del: parse_value.simps)
qed

end
