(* ===== verification/Realtime.thy ===== *)
theory Realtime
  imports Conversations JsonLaws
begin

text \<open>
  \<open>internal/realtime\<close>: the one-use tickets a WebSocket is opened with (\<open>tickets.go\<close>), the event log
  of an actor in Redis with its replay window (\<open>broker.go\<close>), and the loops of a connection
  (\<open>handler.go\<close>). SHA-256 is the parameter \<open>tk_hash\<close>; the socket and the scheduler of the goroutines
  are the environment: a step of a loop is an operation on the connection.
\<close>

section \<open>Tickets\<close>


record tickets =
  tk_hash :: "string \<Rightarrow> string"
  tk_ttl :: time

definition ticket_id :: "tickets \<Rightarrow> string \<Rightarrow> string" where
  "ticket_id T v = concat (map (\<lambda>c. hex_fixed 2 (byte c)) (tk_hash T v))"

text \<open>\<open>json.Marshal\<close> of an instant fails outside the years 0 to 9999.\<close>

definition time_json :: "time \<Rightarrow> error + json" where
  "time_json t = (case time_text t of
     None \<Rightarrow> Inl (Msg ''json: error calling MarshalJSON for type time.Time: year outside of range [0,9999]'')
   | Some s \<Rightarrow> Inr (JStr s))"



text \<open>\<open>Unmarshal\<close> of a time field: \<open>null\<close> and an absent member leave the zero time.\<close>

definition as_time :: "json \<Rightarrow> time option" where
  "as_time j = (case j of JStr s \<Rightarrow> parse_time s | JNull \<Rightarrow> Some zero_time | _ \<Rightarrow> None)"

definition decode_ticket :: "string \<Rightarrow> (string \<times> string \<times> time) option" where
  "decode_ticket raw =
     (case parse_json raw of
        None \<Rightarrow> None
      | Some j \<Rightarrow>
          if \<not> is_struct j then None
          else (case (as_string (json_field ''actorType'' j), as_string (json_field ''actorId'' j),
                      as_time (json_field ''expiresAt'' j)) of
                  (Some a, Some i, Some t) \<Rightarrow> Some (a, i, t)
                | _ \<Rightarrow> None))"

definition consume_ticket :: "tickets \<Rightarrow> string \<Rightarrow> conv_actor \<Rightarrow> (world, unit) op" where
  "consume_ticket T v a =
     (if length v < 32 then fail TicketInvalid
      else
        bindE (attempt (take_value ''ws-ticket'' (ticket_id T v))) (\<lambda>r.
        case r of
          Inl e \<Rightarrow> if errors_is e RedisNotFound then fail TicketInvalid
                   else fail (Wrap ''consume WebSocket ticket'' e)
        | Inr raw \<Rightarrow>
            (case decode_ticket raw of
               None \<Rightarrow> fail TicketInvalid
             | Some (kind, i, expires) \<Rightarrow>
                 bindE clock_now (\<lambda>t.
                 if expires \<le> t then fail TicketInvalid
                 else if kind \<noteq> actor_type_string (ca_type a) \<or> i \<noteq> uuid_string (ca_id a)
                 then fail TicketActorMismatch
                 else ok ()))))"

section \<open>The event log\<close>

definition protocol_version :: int where
  "protocol_version = 1"

definition replay_limit :: int where
  "replay_limit = 256"

definition replay_ttl :: time where
  "replay_ttl = 10 * minute"

record event =
  ev_type :: string
  ev_id :: string
  ev_request :: string
  ev_sequence :: int
  ev_occurred :: time
  ev_payload :: json

definition event_json :: "event \<Rightarrow> error + json" where
  "event_json e =
     bindS (time_json (ev_occurred e)) (\<lambda>occurred.
     Inr (JObj [(''version'', JInt protocol_version), (''type'', JStr (ev_type e)), (''eventId'', JStr (ev_id e)),
       (''requestId'', JStr (ev_request e)), (''sequence'', JInt (ev_sequence e)), (''occurredAt'', occurred),
       (''payload'', ev_payload e)]))"

definition actor_key :: "conv_actor \<Rightarrow> string" where
  "actor_key a = actor_type_string (ca_type a) @ '':'' @ uuid_string (ca_id a)"

definition topic :: "conv_actor \<Rightarrow> string" where
  "topic a = ''actor:'' @ actor_type_string (ca_type a) @ '':'' @ uuid_string (ca_id a)"

definition emit :: "conv_actor \<Rightarrow> string \<Rightarrow> string \<Rightarrow> json \<Rightarrow> (world, event) op" where
  "emit a kind request payload =
     bindE (next_sequence ''actor'' (actor_key a) replay_ttl) (\<lambda>sequence.
     bindE ids_new (\<lambda>i.
     bindE clock_now (\<lambda>t.
     let e = \<lparr>ev_type = kind, ev_id = ''evt_'' @ uuid_string i, ev_request = request, ev_sequence = sequence,
              ev_occurred = t, ev_payload = payload\<rparr> in
     bindE (of_sum (event_json e)) (\<lambda>j.
     bindE (wrap_err ''append realtime replay''
       (append_replay ''actor'' (actor_key a) sequence (json_text j) replay_limit replay_ttl)) (\<lambda>_.
     bindE (wrap_err ''publish realtime event'' (publish (topic a) (json_text j))) (\<lambda>_.
     ok e))))))"

record replay_result =
  rp_events :: "string list"
  rp_resync :: bool

text \<open>The sequence of a stored event: the whole struct has to decode.\<close>

definition replayed_sequence :: "string \<Rightarrow> int option" where
  "replayed_sequence raw =
     (case parse_json raw of
        None \<Rightarrow> None
      | Some j \<Rightarrow>
          if \<not> is_struct j \<or> as_int64 (json_field ''version'' j) = None \<or> as_string (json_field ''type'' j) = None
             \<or> as_string (json_field ''eventId'' j) = None \<or> as_string (json_field ''requestId'' j) = None
             \<or> as_time (json_field ''occurredAt'' j) = None
          then None else as_int64 (json_field ''sequence'' j))"

definition replay :: "conv_actor \<Rightarrow> int \<Rightarrow> (world, replay_result) op" where
  "replay a after =
     bindE (current_sequence ''actor'' (actor_key a)) (\<lambda>current.
     bindE (replay_after ''actor'' (actor_key a) after replay_limit) (\<lambda>events.
     if after \<le> 0 \<or> current \<le> after then ok \<lparr>rp_events = events, rp_resync = False\<rparr>
     else (case events of
             [] \<Rightarrow> ok \<lparr>rp_events = events, rp_resync = True\<rparr>
           | first # _ \<Rightarrow>
               (case replayed_sequence first of
                  None \<Rightarrow> fail (Wrap ''decode first replay event'' (Msg ''json: cannot unmarshal''))
                | Some s \<Rightarrow> ok \<lparr>rp_events = events, rp_resync = after + 1 < s\<rparr>))))"

definition new_request_id :: "uuid \<Rightarrow> string" where
  "new_request_id i = ''req_'' @ uuid_string i"

section \<open>Commands of a client\<close>

text \<open>\<open>Payload\<close> is kept raw: \<open>None\<close> when the member is absent.\<close>

record raw_event =
  re_version :: int
  re_type :: string
  re_event_id :: string
  re_request_id :: string
  re_key :: string
  re_occurred_at :: time
  re_payload :: "json option"

definition raw_member :: "string \<Rightarrow> json \<Rightarrow> json option" where
  "raw_member name j =
     (case j of
        JObj kvs \<Rightarrow> map_option snd (find (\<lambda>(k, v). to_lower k = to_lower name) (rev kvs))
      | _ \<Rightarrow> None)"

definition decode_raw_event :: "string \<Rightarrow> raw_event option" where
  "decode_raw_event raw =
     (case parse_json raw of
        None \<Rightarrow> None
      | Some j \<Rightarrow>
          if \<not> is_struct j then None
          else (case (as_int64 (json_field ''version'' j), as_string (json_field ''type'' j),
                      as_string (json_field ''eventId'' j), as_string (json_field ''requestId'' j),
                      as_string (json_field ''idempotencyKey'' j), as_time (json_field ''occurredAt'' j)) of
                  (Some v, Some ty, Some ev, Some rq, Some key, Some t) \<Rightarrow>
                    Some \<lparr>re_version = v, re_type = ty, re_event_id = ev, re_request_id = rq, re_key = key,
                          re_occurred_at = t, re_payload = raw_member ''payload'' j\<rparr>
                | _ \<Rightarrow> None))"

definition validate_client_event :: "raw_event \<Rightarrow> error + unit" where
  "validate_client_event e =
     (if re_version e \<noteq> protocol_version
         \<or> length (re_event_id e) < 8 \<or> 128 < length (re_event_id e)
         \<or> length (re_request_id e) < 8 \<or> 128 < length (re_request_id e)
         \<or> length (re_key e) < 16 \<or> 128 < length (re_key e)
         \<or> re_occurred_at e = zero_time
      then Inl (Msg ''invalid realtime envelope'')
      else if re_type e \<in> {''connection.resume'', ''chat.generate'', ''chat.cancel'', ''heartbeat.pong''}
      then Inr () else Inl (Msg ''unsupported realtime command''))"

definition realtime_code :: "error \<Rightarrow> string" where
  "realtime_code e =
     (let v = to_lower (error_text e) in
      if str_contains v ''safety policy'' then ''safety_blocked''
      else if str_contains v ''quota'' then ''quota_exceeded''
      else if str_contains v ''concurrent'' then ''concurrency_exceeded''
      else if str_contains v ''not found'' then ''not_found''
      else if str_contains v ''forbidden'' then ''forbidden''
      else ''conflict'')"

definition websocket_request_id :: "string \<Rightarrow> string" where
  "websocket_request_id header = (if header = [] then ''req_websocket'' else header)"

text \<open>\<open>originPatterns\<close>: the hosts of the origins that parse (\<open>url.Parse\<close> is a parameter).\<close>

definition origin_patterns :: "(string \<Rightarrow> string option) \<Rightarrow> string list \<Rightarrow> string list" where
  "origin_patterns host origins =
     concat (map (\<lambda>o'. case host o' of Some h \<Rightarrow> if h \<noteq> [] then [h] else [] | None \<Rightarrow> []) origins)"

section \<open>The loops of a connection\<close>

text \<open>
  The state of \<open>Serve\<close>: the buffered channel of outgoing frames with its capacity, the last pong, the
  frames written, and the closures that \<open>Prepare\<close> returned and \<open>start()\<close> ran.
\<close>

record 'c connection =
  cn_actor :: conv_actor
  cn_queue :: "string list"
  cn_capacity :: nat
  cn_last_pong :: time
  cn_written :: "string list"
  cn_started :: "'c list"

definition enqueue :: "string \<Rightarrow> 'c connection \<Rightarrow> bool \<times> 'c connection" where
  "enqueue v c =
     (if length (cn_queue c) < cn_capacity c then (True, c\<lparr>cn_queue := cn_queue c @ [v]\<rparr>) else (False, c))"

fun enqueue_all :: "string list \<Rightarrow> 'c connection \<Rightarrow> bool \<times> 'c connection" where
  "enqueue_all [] c = (True, c)"
| "enqueue_all (v # vs) c = (case enqueue v c of (True, c') \<Rightarrow> enqueue_all vs c' | (False, c') \<Rightarrow> (False, c'))"

definition queue_full :: error where
  "queue_full = Msg ''realtime write queue is full''"

text \<open>One frame of \<open>writeLoop\<close>, and one message of the subscription.\<close>

definition write_one :: "'c connection \<Rightarrow> 'c connection" where
  "write_one c = (case cn_queue c of [] \<Rightarrow> c | v # vs \<Rightarrow> c\<lparr>cn_queue := vs, cn_written := cn_written c @ [v]\<rparr>)"

definition deliver :: "string \<Rightarrow> 'c connection \<Rightarrow> error option \<times> 'c connection" where
  "deliver v c = (case enqueue v c of (b, c') \<Rightarrow> (if b then None else Some queue_full, c'))"

definition rejected :: "conv_actor \<Rightarrow> raw_event \<Rightarrow> string \<Rightarrow> string \<Rightarrow> (world, event) op" where
  "rejected a e code message =
     emit a ''command.rejected'' (re_request_id e)
       (JObj [(''code'', JStr code), (''commandEventId'', JStr (re_event_id e)), (''message'', JStr message)])"

definition resume_after :: "raw_event \<Rightarrow> int option" where
  "resume_after e =
     (case re_payload e of
        None \<Rightarrow> None
      | Some j \<Rightarrow>
          if \<not> is_struct j then None
          else (case as_int64 (json_field ''lastSequence'' j) of
                  None \<Rightarrow> None | Some n \<Rightarrow> if n < 0 then None else Some n))"

definition resume :: "raw_event \<Rightarrow> 'c connection \<Rightarrow> (world, 'c connection) op" where
  "resume e c =
     (case resume_after e of
        None \<Rightarrow> fail (Msg ''invalid resume payload'')
      | Some n \<Rightarrow>
          bindE (replay (cn_actor c) n) (\<lambda>r.
          if rp_resync r
          then bindE (emit (cn_actor c) ''connection.resync_required'' (re_request_id e)
                 (JObj [(''reason'', JStr ''replay_window_missed''),
                        (''resources'', JArr [JStr ''conversations'', JStr ''messages'', JStr ''usage''])])) (\<lambda>_. ok c)
          else (case enqueue_all (rp_events r) c of
                  (True, c') \<Rightarrow> ok c' | (False, c') \<Rightarrow> fail queue_full)))"

text \<open>One turn of \<open>readLoop\<close> on a decoded frame; an error ends the connection.\<close>

definition read_one ::
  "(conv_actor \<Rightarrow> raw_event \<Rightarrow> (world, 'c option) op) option \<Rightarrow> raw_event \<Rightarrow> 'c connection \<Rightarrow>
     (world, 'c connection) op" where
  "read_one processor e c =
     (case validate_client_event e of
        Inl _ \<Rightarrow> bindE (rejected (cn_actor c) e ''invalid_command'' ''Command envelope is invalid.'') (\<lambda>_. ok c)
      | Inr _ \<Rightarrow>
          if re_type e = ''heartbeat.pong''
          then bindE clock_now (\<lambda>t. ok (c\<lparr>cn_last_pong := t\<rparr>))
          else if re_type e = ''connection.resume'' then resume e c
          else (case processor of
                  None \<Rightarrow> fail (Msg ''chat processor is unavailable'')
                | Some prepare \<Rightarrow>
                    bindE (attempt (prepare (cn_actor c) e)) (\<lambda>r.
                    case r of
                      Inl er \<Rightarrow> bindE (rejected (cn_actor c) e (realtime_code er) ''Command could not be processed.'') (\<lambda>_. ok c)
                    | Inr start \<Rightarrow>
                        bindE (emit (cn_actor c) ''command.acknowledged'' (re_request_id e)
                          (JObj [(''commandEventId'', JStr (re_event_id e))])) (\<lambda>_.
                        ok (case start of None \<Rightarrow> c | Some s \<Rightarrow> c\<lparr>cn_started := cn_started c @ [s]\<rparr>)))))"

text \<open>A text frame: at most \<open>maxCommandBytes\<close>, and a JSON object of the envelope's types.\<close>

definition read_frame ::
  "(conv_actor \<Rightarrow> raw_event \<Rightarrow> (world, 'c option) op) option \<Rightarrow> string \<Rightarrow> 'c connection \<Rightarrow>
     (world, 'c connection) op" where
  "read_frame processor raw c =
     (if 65536 < length raw then fail (Msg ''read limited at 65536 bytes'')
      else case decode_raw_event raw of
        None \<Rightarrow> fail (Msg ''failed to unmarshal JSON'')
      | Some e \<Rightarrow> read_one processor e c)"

text \<open>A tick of \<open>heartbeatLoop\<close>; the id is the clock in nanoseconds.\<close>

definition heartbeat_wait :: time where
  "heartbeat_wait = 50 * second"

definition heartbeat_tick :: "'c connection \<Rightarrow> (world, unit) op" where
  "heartbeat_tick c =
     bindE clock_now (\<lambda>t.
     if heartbeat_wait < t - cn_last_pong c then fail (Msg ''heartbeat timed out'')
     else bindE (emit (cn_actor c) ''heartbeat.ping'' [] (JObj [(''heartbeatId'', JStr (int_string (t * 1000)))])) (\<lambda>_.
          ok ()))"

text \<open>
  \<open>Serve\<close> up to the loops: the ticket is consumed first; the WebSocket accepts or not (a parameter);
  the connection starts with an empty queue and the ready event.
\<close>

definition write_queue_size :: nat where
  "write_queue_size = 64"

definition heartbeat_ms :: int where
  "heartbeat_ms = 20000"

definition subscribe_topic :: "(world, unit) op" where
  "subscribe_topic = wrap_err ''subscribe Redis topic'' (call (ok ()))"

definition serve_open ::
  "tickets \<Rightarrow> string \<Rightarrow> string \<Rightarrow> error option \<Rightarrow> conv_actor \<Rightarrow> (world, 'c connection) op" where
  "serve_open T v request accepted a =
     bindE (consume_ticket T v a) (\<lambda>_.
     case accepted of
       Some e \<Rightarrow> fail e
     | None \<Rightarrow>
         bindE subscribe_topic (\<lambda>_.
         bindE clock_now (\<lambda>t.
         bindE (emit a ''connection.ready'' (websocket_request_id request)
           (JObj [(''actorType'', JStr (actor_type_string (ca_type a))), (''heartbeatIntervalMs'', JInt heartbeat_ms),
                  (''replayWindow'', JInt replay_limit),
                  (''serverTime'', case time_text t of None \<Rightarrow> JNull | Some s \<Rightarrow> JStr s)])) (\<lambda>_.
         ok \<lparr>cn_actor = a, cn_queue = [], cn_capacity = write_queue_size, cn_last_pong = t, cn_written = [],
             cn_started = []\<rparr>))))"


section \<open>Tickets are bound to their actor and used once\<close>

lemma valid_plain: "list_all plain_char s \<Longrightarrow> valid_utf8 s"
  unfolding valid_utf8_def by (induction s) (auto simp: plain_char_def decode_runes_ascii rune_error_def)


lemma as_string_text [simp]: "as_string (JStr s) = Some s"
  by (simp add: as_string_def)









lemma key_now [simp]: "redis_key (w\<lparr>now := t\<rparr>) ps = redis_key w ps"
  by (simp add: redis_key_def)




definition demo_guest :: conv_actor where
  "demo_guest = \<lparr>ca_type = Guest, ca_id = 7\<rparr>"

definition demo_world :: world where
  "demo_world = world_of empty_db 1784635262000000 [1, 2, 3] [replicate 32 CHR ''x'']"




section \<open>The event log refines a list\<close>

text \<open>
  The abstract log of an actor is the list of the texts it was sent, numbered from 1. Redis holds its
  length and its last 256 entries.
\<close>

fun numbered :: "int \<Rightarrow> string list \<Rightarrow> (int \<times> string) list" where
  "numbered n [] = []"
| "numbered n (x # xs) = (n, x) # numbered (n + 1) xs"

lemma length_numbered [simp]: "length (numbered n xs) = length xs"
  by (induction xs arbitrary: n) auto

lemma snd_numbered [simp]: "map snd (numbered n xs) = xs"
  by (induction xs arbitrary: n) auto

lemma numbered_append: "numbered n (xs @ ys) = numbered n xs @ numbered (n + int (length xs)) ys"
  by (induction xs arbitrary: n) (auto simp: add.assoc)

lemma drop_numbered: "drop k (numbered n xs) = numbered (n + int k) (drop k xs)"
  by (induction xs arbitrary: n k) (auto simp: drop_Cons algebra_simps split: nat.split)

lemma filter_numbered:
  "filter (\<lambda>(s, _). m \<le> s) (numbered n xs) = numbered (n + int (nat (m - n))) (drop (nat (m - n)) xs)"
proof (induction xs arbitrary: n)
  case (Cons x xs)
  show ?case
  proof (cases "m \<le> n")
    case False
    then have "nat (m - n) = Suc (nat (m - (n + 1)))" by simp
    with False Cons [of "n + 1"] show ?thesis by simp
  qed (use Cons [of "n + 1"] in simp)
qed simp

lemma numbered_below: "(s, x) \<in> set (numbered n xs) \<Longrightarrow> s < n + int (length xs) \<and> x \<in> set xs"
  by (induction xs arbitrary: n) fastforce+

lemma insort_end: "(\<And>x. x \<in> set z \<Longrightarrow> x < y) \<Longrightarrow> insort y z = z @ [y]"
  by (induction z) (auto dest: leD)

definition log_held :: "conv_actor \<Rightarrow> string list \<Rightarrow> world \<Rightarrow> bool" where
  "log_held a log w \<longleftrightarrow>
     live w (redis_key w [''sequence'', ''actor'', actor_key a]) =
       (if log = [] then None else Some (RInt (int (length log))))
     \<and> live w (redis_key w [''replay'', ''actor'', actor_key a]) =
       (if log = [] then None else Some (RZset (keep_last replay_limit (numbered 1 log))))
     \<and> (\<forall>i < length log. replayed_sequence (log ! i) = Some (int i + 1))"

definition log_from :: "int \<Rightarrow> string list \<Rightarrow> replay_result" where
  "log_from after log =
     \<lparr>rp_events = drop (max (nat after) (length log - 256)) log,
      rp_resync = (0 < after \<and> after + 256 < int (length log))\<rparr>"

lemma log_keys_differ:
  "redis_key w [''replay'', ''actor'', k] \<noteq> redis_key w [''sequence'', ''actor'', k]"
  by (simp add: redis_key_def replace_char_def)

lemma set_key_again [simp]: "set_key k v t (set_key k v' t' w) = set_key k v t w"
  by (simp add: set_key_def)

lemma set_key_faults [simp]: "set_key k v t (w\<lparr>faults := fs\<rparr>) = (set_key k v t w)\<lparr>faults := fs\<rparr>"
  by (simp add: set_key_def)

lemma expiry_faults [simp]: "expiry (w\<lparr>faults := fs\<rparr>) k = expiry w k"
  by (simp add: expiry_def split: option.split)

lemma now_set_key [simp]: "now (set_key k v t w) = now w"
  by (simp add: set_key_def)

lemma live_new_ids [simp]: "live (w\<lparr>new_ids := l\<rparr>) k = live w k"
  by (simp add: live_def split: option.splits)

lemma incr_okD:
  assumes "incr k w = (Inr n, w')"
  shows "n < 2 ^ 63 \<and> live w' k = Some (RInt n) \<and> (\<exists>t. w' = set_key k (RInt n) t w)
    \<and> (live w k = None \<and> n = 1 \<or> live w k = Some (RInt (n - 1)))"
proof (cases "live w k")
  case None
  then show ?thesis using assms by (auto simp: incr_def) (simp add: live_def set_key_def)
next
  case (Some v)
  then have alive: "live (set_key k u (expiry w k) w) k = Some u" for u
    by (auto simp: expiry_def live_def set_key_def split: option.splits if_splits)
  show ?thesis using Some assms alive
    by (auto simp: incr_def split: redis_value.splits if_splits)
qed

lemma next_sequenceD:
  assumes "next_sequence ns i ttl w = (Inr n, w')"
  obtains fs where "w' = (set_key (redis_key w [''sequence'', ns, i]) (RInt n) (Some (now w + ttl)) w)\<lparr>faults := fs\<rparr>"
    and "n < 2 ^ 63" "0 < ttl"
    and "live w (redis_key w [''sequence'', ns, i]) = None \<and> n = 1
       \<or> live w (redis_key w [''sequence'', ns, i]) = Some (RInt (n - 1))"
proof -
  let ?k = "redis_key w [''sequence'', ns, i]"
  obtain w1 fs1 fs2 where inc: "incr ?k (w\<lparr>faults := fs1\<rparr>) = (Inr n, w1)" and "0 < ttl"
      and w': "w' = expire_key (redis_key w1 [''sequence'', ns, i]) ttl (w1\<lparr>faults := fs2\<rparr>)"
    using assms by (auto simp: next_sequence_def split: if_splits elim!: op_elims)
  note D = incr_okD [OF inc]
  then obtain t where w1: "w1 = (set_key ?k (RInt n) t w)\<lparr>faults := fs1\<rparr>" by auto
  then have "w' = (set_key ?k (RInt n) (Some (now w + ttl)) w)\<lparr>faults := fs2\<rparr>"
    using D by (simp add: w' expire_key_def)
  with D \<open>0 < ttl\<close> show ?thesis by (intro that [of fs2]) auto
qed

lemma append_replayD:
  assumes "append_replay ns i s p l ttl w = (Inr u, w')"
  obtains fs z where "w' = (set_key (redis_key w [''replay'', ns, i]) (RZset z) (Some (now w + ttl)) w)\<lparr>faults := fs\<rparr>"
    and "live w (redis_key w [''replay'', ns, i]) = None \<and> z = [(s, p)]
       \<or> (\<exists>old. live w (redis_key w [''replay'', ns, i]) = Some (RZset old) \<and> z = keep_last l (zadd s p old))"
  using assms
  by (auto simp: append_replay_def Let_def split: if_splits option.splits redis_value.splits elim!: op_elims)


lemma valid_append_plain: "list_all plain_char s \<Longrightarrow> list_all plain_char t \<Longrightarrow> valid_utf8 (s @ t)"
  by (rule valid_plain) simp

text \<open>A marshalled event decodes to its own sequence.\<close>

lemma event_sequence:
  assumes "event_json e = Inr j" "valid_utf8 (ev_type e)" "list_all plain_char (ev_id e)" "valid_utf8 (ev_request e)"
    and "json_ok (ev_payload e)" "0 \<le> ev_sequence e" "ev_sequence e < 2 ^ 63"
  shows "replayed_sequence (json_text j) = Some (ev_sequence e)"
proof -
  obtain s where s: "time_text (ev_occurred e) = Some s"
      and j: "j = JObj [(''version'', JInt protocol_version), (''type'', JStr (ev_type e)), (''eventId'', JStr (ev_id e)),
       (''requestId'', JStr (ev_request e)), (''sequence'', JInt (ev_sequence e)), (''occurredAt'', JStr s),
       (''payload'', ev_payload e)]"
    using assms(1) by (auto simp: event_json_def time_json_def split: option.splits)
  have "json_ok j"
    using assms(2-5) plain_time [OF s] unfolding j by (simp add: valid_plain plain_char_def)
  then have "parse_json (json_text j) = Some j" by (rule json_roundtrip)
  moreover have "is_struct j" by (simp add: j is_struct_def)
  moreover have "json_field ''version'' j = JInt protocol_version" "json_field ''type'' j = JStr (ev_type e)"
      "json_field ''eventId'' j = JStr (ev_id e)" "json_field ''requestId'' j = JStr (ev_request e)"
      "json_field ''sequence'' j = JInt (ev_sequence e)" "json_field ''occurredAt'' j = JStr s"
    by (simp_all add: j json_field_def to_lower_def ascii_lower_def)
  ultimately show ?thesis
    using assms(6,7) time_roundtrip [OF s]
    by (simp add: replayed_sequence_def as_int64_def protocol_version_def as_time_def)
qed

lemma emit_okD:
  assumes "emit a kind request payload w = (Inr e, w')"
  obtains n i z j where
    "e = \<lparr>ev_type = kind, ev_id = ''evt_'' @ uuid_string i, ev_request = request, ev_sequence = n,
          ev_occurred = now w, ev_payload = payload\<rparr>" "event_json e = Inr j" "n < 2 ^ 63"
    "live w (redis_key w [''sequence'', ''actor'', actor_key a]) = None \<and> n = 1
       \<or> live w (redis_key w [''sequence'', ''actor'', actor_key a]) = Some (RInt (n - 1))"
    "live w (redis_key w [''replay'', ''actor'', actor_key a]) = None \<and> z = [(n, json_text j)]
       \<or> (\<exists>old. live w (redis_key w [''replay'', ''actor'', actor_key a]) = Some (RZset old)
            \<and> z = keep_last replay_limit (zadd n (json_text j) old))"
    "redis w' = (redis w)(redis_key w [''sequence'', ''actor'', actor_key a] \<mapsto> (RInt n, Some (now w + replay_ttl)),
       redis_key w [''replay'', ''actor'', actor_key a] \<mapsto> (RZset z, Some (now w + replay_ttl)))"
    "now w' = now w" "redis_prefix w' = redis_prefix w" "db w' = db w"
    "published w' = published w @ [(redis_key w [''topic'', topic a], json_text j)]"
proof -
  from assms obtain n w1 i w2 j w3 w4 where
    1: "next_sequence ''actor'' (actor_key a) replay_ttl w = (Inr n, w1)" and 2: "ids_new w1 = (Inr i, w2)"
    and e: "e = \<lparr>ev_type = kind, ev_id = ''evt_'' @ uuid_string i, ev_request = request, ev_sequence = n,
          ev_occurred = now w2, ev_payload = payload\<rparr>" "event_json e = Inr j"
    and 3: "append_replay ''actor'' (actor_key a) n (json_text j) replay_limit replay_ttl w2 = (Inr (), w3)"
    and 4: "publish (topic a) (json_text j) w3 = (Inr (), w')"
    by (auto simp: emit_def Let_def elim!: op_elims) (metis)
  let ?seq = "redis_key w [''sequence'', ''actor'', actor_key a]" and ?rep = "redis_key w [''replay'', ''actor'', actor_key a]"
  obtain fs1 where w1: "w1 = (set_key ?seq (RInt n) (Some (now w + replay_ttl)) w)\<lparr>faults := fs1\<rparr>"
      and n: "n < 2 ^ 63" "live w ?seq = None \<and> n = 1 \<or> live w ?seq = Some (RInt (n - 1))"
    using next_sequenceD [OF 1] by metis
  obtain rest fs2 where w2: "w2 = w1\<lparr>faults := fs2, new_ids := rest\<rparr>"
    using 2 by (auto simp: ids_new_def split: list.splits elim!: call_okE)
  have key2: "redis_key w2 ps = redis_key w ps" and now2: "now w2 = now w" for ps
    by (simp_all add: w2 w1 set_key_def redis_key_def)
  have live2: "live w2 ?rep = live w ?rep"
    using live_other(1) [OF log_keys_differ [symmetric], of w "actor_key a" "RInt n" "Some (now w + replay_ttl)" w]
    by (simp add: w2 w1)
  obtain fs3 z where w3: "w3 = (set_key ?rep (RZset z) (Some (now w + replay_ttl)) w2)\<lparr>faults := fs3\<rparr>"
      and z: "live w ?rep = None \<and> z = [(n, json_text j)]
       \<or> (\<exists>old. live w ?rep = Some (RZset old) \<and> z = keep_last replay_limit (zadd n (json_text j) old))"
    by (rule append_replayD [OF 3, unfolded key2 now2 live2]) (rule that)
  obtain fs4 where w': "w' = w3\<lparr>faults := fs4, published := published w3 @ [(redis_key w3 [''topic'', topic a], json_text j)]\<rparr>"
    using 4 by (auto simp: publish_def elim!: call_okE)
  have "redis_key w3 ps = redis_key w ps" for ps by (simp add: w3 key2)
  then show ?thesis
    by (intro that [OF e(1) [unfolded now2] e(2) n z]) (simp_all add: w' w3 w2 w1 set_key_def)
qed


lemma keep_last_append: "keep_last l (keep_last l z @ [y]) = keep_last l (z @ [y])"
  by (simp add: keep_last_def Suc_diff_le) (cases "length z \<le> nat l"; simp add: Suc_diff_le)

lemma zadd_end:
  assumes "\<And>s x. (s, x) \<in> set z \<Longrightarrow> s < n \<and> x \<noteq> p"
  shows "zadd n p z = z @ [(n, p)]"
proof -
  have "filter (\<lambda>(_, x). x \<noteq> p) z = z" using assms by (intro filter_True) auto
  moreover have "insort (n, p) z = z @ [(n, p)]" using assms by (intro insort_end) (auto simp: less_prod_def')
  ultimately show ?thesis by (simp add: zadd_def)
qed

lemma set_keep_last: "x \<in> set (keep_last l z) \<Longrightarrow> x \<in> set z"
  by (auto simp: keep_last_def dest: in_set_dropD)

text \<open>Emitting appends to the log.\<close>

lemma emit_appends:
  assumes held: "log_held a log w" and run: "emit a kind request payload w = (Inr e, w')"
    and valid: "valid_utf8 kind" "valid_utf8 request" "json_ok payload"
  shows "\<exists>raw. log_held a (log @ [raw]) w' \<and> ev_sequence e = int (length log) + 1
    \<and> published w' = published w @ [(redis_key w [''topic'', topic a], raw)]"
proof -
  let ?seq = "redis_key w [''sequence'', ''actor'', actor_key a]" and ?rep = "redis_key w [''replay'', ''actor'', actor_key a]"
  obtain n i z j where e: "e = \<lparr>ev_type = kind, ev_id = ''evt_'' @ uuid_string i, ev_request = request, ev_sequence = n,
          ev_occurred = now w, ev_payload = payload\<rparr>" and j: "event_json e = Inr j" and big: "n < 2 ^ 63"
    and n: "live w ?seq = None \<and> n = 1 \<or> live w ?seq = Some (RInt (n - 1))"
    and z: "live w ?rep = None \<and> z = [(n, json_text j)]
       \<or> (\<exists>old. live w ?rep = Some (RZset old) \<and> z = keep_last replay_limit (zadd n (json_text j) old))"
    and w': "redis w' = (redis w)(?seq \<mapsto> (RInt n, Some (now w + replay_ttl)), ?rep \<mapsto> (RZset z, Some (now w + replay_ttl)))"
      "now w' = now w" "redis_prefix w' = redis_prefix w"
      "published w' = published w @ [(redis_key w [''topic'', topic a], json_text j)]"
    using run by (rule emit_okD)
  have len: "n = int (length log) + 1"
    using n held by (auto simp: log_held_def split: if_splits)
  have decoded: "replayed_sequence (json_text j) = Some n"
    using event_sequence [OF j] valid big len e plain_uuid [of i] by (simp add: plain_char_def)
  have fresh: "s < n \<and> x \<noteq> json_text j" if "(s, x) \<in> set (numbered 1 log)" for s x
  proof -
    have "s < n" "x \<in> set log" using numbered_below [OF that] len by auto
    moreover have "replayed_sequence x \<noteq> Some n" if "x \<in> set log"
      using that held len by (auto simp: log_held_def in_set_conv_nth)
    ultimately show ?thesis using decoded by auto
  qed
  have "z = keep_last replay_limit (numbered 1 (log @ [json_text j]))"
  proof (cases "log = []")
    case True
    then show ?thesis using z held len by (simp add: log_held_def keep_last_def replay_limit_def)
  next
    case False
    then have "z = keep_last replay_limit (zadd n (json_text j) (keep_last replay_limit (numbered 1 log)))"
      using z held by (auto simp: log_held_def)
    also have "\<dots> = keep_last replay_limit (keep_last replay_limit (numbered 1 log) @ [(n, json_text j)])"
      using fresh by (subst zadd_end) (auto dest: set_keep_last)
    finally show ?thesis by (simp add: keep_last_append numbered_append len add.commute)
  qed
  moreover have "redis_key w' ps = redis_key w ps" for ps using w'(3) by (simp add: redis_key_def)
  ultimately have "log_held a (log @ [json_text j]) w'"
    using held decoded len w'(1,2) log_keys_differ [of w "actor_key a"]
    by (auto simp: log_held_def live_def replay_ttl_def nth_append less_Suc_eq)
  then show ?thesis using e len w'(4) by auto
qed

text \<open>Reading it back.\<close>

lemma current_sequenceD:
  assumes "current_sequence ns i w = (Inr n, w')"
  shows "(\<exists>fs. w' = w\<lparr>faults := fs\<rparr>) \<and>
    (live w (redis_key w [''sequence'', ns, i]) = None \<and> n = 0 \<or> live w (redis_key w [''sequence'', ns, i]) = Some (RInt n))"
  using assms
  by (auto simp: current_sequence_def split: option.splits redis_value.splits elim!: wrap_err_okE call_cases)

lemma replay_afterD:
  assumes "replay_after ns i s l w = (Inr events, w')"
  shows "(\<exists>fs. w' = w\<lparr>faults := fs\<rparr>) \<and> 0 \<le> s \<and>
    (live w (redis_key w [''replay'', ns, i]) = None \<and> events = []
     \<or> (\<exists>z. live w (redis_key w [''replay'', ns, i]) = Some (RZset z)
          \<and> events = take (nat l) (map snd (filter (\<lambda>(x, _). s + 1 \<le> x) z))))"
  using assms
  by (auto simp: replay_after_def split: if_splits option.splits redis_value.splits elim!: wrap_err_okE call_cases)

lemma log_held_faults [simp]: "log_held a log (w\<lparr>faults := fs\<rparr>) = log_held a log w"
  by (simp add: log_held_def)

lemma held_events:
  assumes "0 \<le> after"
  shows "take 256 (map snd (filter (\<lambda>(s, _). after + 1 \<le> s) (keep_last replay_limit (numbered 1 log))))
    = drop (max (nat after) (length log - 256)) log"
proof -
  let ?k = "length log - 256"
  have "keep_last replay_limit (numbered 1 log) = numbered (1 + int ?k) (drop ?k log)"
    by (simp add: keep_last_def replay_limit_def drop_numbered)
  moreover have "nat (after + 1 - (1 + int ?k)) + ?k = max (nat after) ?k" using assms by auto
  ultimately have "map snd (filter (\<lambda>(s, _). after + 1 \<le> s) (keep_last replay_limit (numbered 1 log)))
      = drop (max (nat after) ?k) log"
    by (simp add: filter_numbered)
  then show ?thesis by simp
qed

lemma replay_reads:
  assumes held: "log_held a log w" and run: "replay a after w = (Inr r, w')"
  shows "r = log_from after log \<and> log_held a log w'"
proof -
  obtain current events w1 where 1: "current_sequence ''actor'' (actor_key a) w = (Inr current, w1)"
      and 2: "replay_after ''actor'' (actor_key a) after replay_limit w1 = (Inr events, w')"
      and r: "r = \<lparr>rp_events = events, rp_resync = rp_resync r\<rparr>"
      "rp_resync r \<longleftrightarrow> 0 < after \<and> after < current \<and>
         (case events of [] \<Rightarrow> True | first # _ \<Rightarrow> after + 1 < the (replayed_sequence first))"
    using run by (auto simp: replay_def split: if_splits list.splits option.splits elim!: op_elims)
  obtain fs where w1: "w1 = w\<lparr>faults := fs\<rparr>" using current_sequenceD [OF 1] by auto
  have w': "\<exists>fs. w' = w\<lparr>faults := fs\<rparr>" and after: "0 \<le> after"
    using replay_afterD [OF 2] by (auto simp: w1)
  have current: "current = int (length log)"
    using current_sequenceD [OF 1] held by (auto simp: log_held_def split: if_splits)
  have events: "events = drop (max (nat after) (length log - 256)) log"
    using replay_afterD [OF 2] held held_events [OF after, of log]
    by (auto simp: log_held_def w1 replay_limit_def split: if_splits)
  have "rp_resync r \<longleftrightarrow> 0 < after \<and> after + 256 < int (length log)"
  proof (cases "max (nat after) (length log - 256) < length log")
    case True
    let ?m = "max (nat after) (length log - 256)"
    have "events = log ! ?m # drop (Suc ?m) log" using events Cons_nth_drop_Suc [OF True] by simp
    moreover have "replayed_sequence (log ! ?m) = Some (int ?m + 1)" using held True by (simp add: log_held_def)
    ultimately show ?thesis using r(2) current True by auto
  next
    case False
    then show ?thesis using r(2) current after by auto
  qed
  then show ?thesis
    using r(1) events w' held by (auto simp: log_from_def)
qed

text \<open>C20: the event log of an actor in Redis refines the list of the texts sent to the actor. Emitting an event
  appends its text, numbers it with the new length and publishes it once; reading back after number \<open>n\<close>
  gives every later text in order, or, when more than 256 were sent since, asks for a resync.\<close>
theorem broker_refines_log:
  assumes "log_held a log w" "valid_utf8 kind" "valid_utf8 request" "json_ok payload"
  shows "(\<forall>e w1. emit a kind request payload w = (Inr e, w1) \<longrightarrow>
      (\<exists>raw. log_held a (log @ [raw]) w1 \<and> ev_sequence e = int (length log) + 1
        \<and> published w1 = published w @ [(redis_key w [''topic'', topic a], raw)]))
    \<and> (\<forall>after r w2. replay a after w = (Inr r, w2) \<longrightarrow> r = log_from after log \<and> log_held a log w2)"
  using assms emit_appends replay_reads by blast

lemma demo_emit: "\<exists>e w1. emit demo_guest ''heartbeat.ping'' ''req_websocket'' (JObj []) demo_world = (Inr e, w1)"
proof -
  have "time_text 1784635262000000 = Some ''2026-07-21T12:01:02Z''" by code_simp
  then show ?thesis
    by (simp add: emit_def demo_world_def world_eval next_sequence_def incr_def expire_key_def live_def expiry_def
        replay_ttl_def event_json_def time_json_def append_replay_def replay_limit_def publish_def set_key_def
        redis_key_def replace_char_def)
qed

lemma demo_log: "log_held demo_guest [] demo_world"
  by (simp add: log_held_def live_def demo_world_def world_of_def)

theorem broker_refines_log_witness:
  "\<exists>raw. log_held demo_guest [raw] (snd (emit demo_guest ''heartbeat.ping'' ''req_websocket'' (JObj []) demo_world))
     \<and> fst (replay demo_guest 0 demo_world) = Inr (log_from 0 [])"
proof -
  obtain e w1 where e: "emit demo_guest ''heartbeat.ping'' ''req_websocket'' (JObj []) demo_world = (Inr e, w1)"
    using demo_emit by blast
  have "valid_utf8 ''heartbeat.ping''" "valid_utf8 ''req_websocket''" "json_ok (JObj [])"
    by (simp_all add: valid_plain plain_char_def)
  note law = broker_refines_log [OF demo_log this]
  have "fst (replay demo_guest 0 demo_world) = Inr \<lparr>rp_events = [], rp_resync = False\<rparr>"
    by (simp add: replay_def current_sequence_def replay_after_def replay_limit_def demo_world_def world_eval live_def)
  with law e show ?thesis
    by (metis append_Nil prod.collapse snd_conv)
qed

text \<open>The log is forgotten ten minutes after the last event, and a client that resumes then is told that it
  missed nothing: no events and no resync, whatever number it asks for, the last one it was sent included.\<close>
theorem replay_silent_after_expiry:
  assumes "emit a kind request payload w = (Inr e, w1)" "0 \<le> after"
  shows "replay a after (w1\<lparr>now := now w1 + replay_ttl, faults := []\<rparr>) =
    (Inr \<lparr>rp_events = [], rp_resync = False\<rparr>, w1\<lparr>now := now w1 + replay_ttl, faults := []\<rparr>)"
proof -
  let ?w = "w1\<lparr>now := now w1 + replay_ttl, faults := []\<rparr>"
  obtain n z where r: "redis w1 = (redis w)(redis_key w [''sequence'', ''actor'', actor_key a] \<mapsto> (RInt n, Some (now w + replay_ttl)),
       redis_key w [''replay'', ''actor'', actor_key a] \<mapsto> (RZset z, Some (now w + replay_ttl)))"
      and "now w1 = now w" "redis_prefix w1 = redis_prefix w"
    using assms(1) by (rule emit_okD)
  then have "live ?w (redis_key ?w [''sequence'', ''actor'', actor_key a]) = None"
    "live ?w (redis_key ?w [''replay'', ''actor'', actor_key a]) = None"
    using log_keys_differ [of w "actor_key a"] by (simp_all add: live_def redis_key_def)
  then show ?thesis
    using assms(2)
    by (simp add: replay_def current_sequence_def replay_after_def replay_limit_def wrap_err_def bindE_def ok_def)
qed

theorem replay_silent_after_expiry_witness:
  "\<exists>e w1. emit demo_guest ''heartbeat.ping'' ''req_websocket'' (JObj []) demo_world = (Inr e, w1)
     \<and> fst (replay demo_guest 1 (w1\<lparr>now := now w1 + replay_ttl, faults := []\<rparr>)) =
     Inr \<lparr>rp_events = [], rp_resync = False\<rparr>"
proof -
  obtain e w1 where "emit demo_guest ''heartbeat.ping'' ''req_websocket'' (JObj []) demo_world = (Inr e, w1)"
    using demo_emit by blast
  with replay_silent_after_expiry [OF this, of 1] show ?thesis by (metis fst_conv zero_less_one_class.zero_le_one)
qed

text \<open>The code a client is given for each error of the quota and chat services. An actor that already has
  an active generation is told \<open>conflict\<close>, never \<open>concurrency_exceeded\<close>.\<close>
theorem realtime_codes:
  "map realtime_code [ChatSafetyBlocked, QuotaExceeded, QuotaInvalid, ChatNotFound, ConvNotFound, QuotaBusy,
     ChatConflict, ChatInvalid, ChatUnavailable]
   = [''safety_blocked'', ''quota_exceeded'', ''quota_exceeded'', ''not_found'', ''not_found'', ''conflict'',
     ''conflict'', ''conflict'', ''conflict'']"
  by code_simp

end
