(* ===== verification/ChatStore.thy ===== *)
theory ChatStore
  imports Realtime
begin

text \<open>
  The queries of \<open>store/chat.sql.go\<close> (and the two of \<open>store/conversations.sql.go\<close> that generations
  use): messages, generations, summaries and the usage ledger, with the constraints of
  \<open>migrations/00002_models_chat.sql\<close>. A statement that violates a constraint fails and changes nothing.
\<close>

section \<open>Messages\<close>

definition content_ok :: "string \<Rightarrow> bool" where
  "content_ok s \<longleftrightarrow> rune_count s \<le> 200000"

definition create_message ::
  "uuid \<Rightarrow> uuid \<Rightarrow> message_role \<Rightarrow> string \<Rightarrow> message_status \<Rightarrow> int \<Rightarrow> time \<Rightarrow> database \<Rightarrow>
     error + message_row \<times> database" where
  "create_message i c role content status sequence t d =
     (let m = \<lparr>msg_id = i, msg_conversation_id = c, msg_role = role, msg_content = content, msg_status = status,
               msg_sequence = sequence, msg_created_at = t, msg_updated_at = t\<rparr>
      in if \<not> text_ok content then Inl invalid_text
         else if \<not> content_ok content then Inl (check_violation ''messages_content_check'')
         else if sequence \<le> 0 then Inl (check_violation ''messages_sequence_check'')
         else if list_ex (\<lambda>r. msg_id r = i \<or> msg_conversation_id r = c \<and> msg_sequence r = sequence) (messages d)
         then Inl (unique_violation ''messages'')
         else if \<not> list_ex (\<lambda>r. conv_id r = c) (conversations d)
         then Inl (foreign_key_violation ''messages_conversation_id_fkey'')
         else Inr (m, d\<lparr>messages := messages d @ [m]\<rparr>))"

definition append_assistant_message ::
  "string \<Rightarrow> time \<Rightarrow> uuid \<Rightarrow> database \<Rightarrow> error + message_row \<times> database" where
  "append_assistant_message delta t i d =
     (let hit = (\<lambda>m. msg_id m = i \<and> msg_role m = MsgAssistant \<and> msg_status m = Pending);
          upd = (\<lambda>m. m\<lparr>msg_content := msg_content m @ delta, msg_status := Pending, msg_updated_at := t\<rparr>)
      in if \<not> text_ok delta then Inl invalid_text
         else case find hit (messages d) of
           None \<Rightarrow> Inl NoRows
         | Some m \<Rightarrow>
             if \<not> content_ok (msg_content (upd m)) then Inl (check_violation ''messages_content_check'')
             else Inr (upd m, d\<lparr>messages := upd_rows hit upd (messages d)\<rparr>))"

definition finalize_message :: "message_status \<Rightarrow> time \<Rightarrow> uuid \<Rightarrow> database \<Rightarrow> error + nat \<times> database" where
  "finalize_message status t i d =
     (let hit = (\<lambda>m. msg_id m = i \<and> msg_status m = Pending)
      in Inr (count_rows hit (messages d),
              d\<lparr>messages := upd_rows hit (\<lambda>m. m\<lparr>msg_status := status, msg_updated_at := t\<rparr>) (messages d)\<rparr>))"

definition get_message :: "uuid \<Rightarrow> database \<Rightarrow> error + message_row" where
  "get_message i d = one_row (\<lambda>m. msg_id m = i) (messages d)"

definition list_context_messages :: "uuid \<Rightarrow> database \<Rightarrow> error + message_row list" where
  "list_context_messages c d =
     Inr (sort_key (\<lambda>m. (msg_sequence m, msg_id m)) (filter (\<lambda>m. msg_conversation_id m = c
       \<and> (msg_role m = MsgUser \<or> msg_status m = Complete)) (messages d)))"

definition next_message_sequence :: "uuid \<Rightarrow> database \<Rightarrow> error + int" where
  "next_message_sequence c d =
     (let n = foldl max 0 (map msg_sequence (filter (\<lambda>m. msg_conversation_id m = c) (messages d))) + 1
      in if 2 ^ 31 \<le> n then Inl out_of_range else Inr n)"

section \<open>Generations\<close>

definition active :: "generation_row \<Rightarrow> bool" where
  "active g \<longleftrightarrow> gen_status g = Accepted \<or> gen_status g = Streaming"

text \<open>
  \<open>ON CONFLICT (conversation_id, idempotency_key) DO UPDATE .. WHERE false\<close>: a row with the key gives no
  row. The CHECKs come before the arbiter index, the other unique indexes after it.
\<close>

definition create_generation ::
  "uuid \<Rightarrow> uuid \<Rightarrow> uuid \<Rightarrow> uuid \<Rightarrow> uuid option \<Rightarrow> uuid \<Rightarrow> uuid \<Rightarrow> uuid option \<Rightarrow> string \<Rightarrow> time \<Rightarrow> database \<Rightarrow>
     error + generation_row \<times> database" where
  "create_generation i c user_msg assistant_msg parent model provider rsv key t d =
     (let g = \<lparr>gen_id = i, gen_conversation_id = c, gen_user_message_id = user_msg,
               gen_assistant_message_id = assistant_msg, gen_parent_id = parent, gen_model_id = model,
               gen_provider_id = provider, gen_reservation_id = rsv, gen_idempotency_key = key,
               gen_status = Accepted, gen_retryable = False, gen_finish_reason = None, gen_error_code = None,
               gen_input_tokens = 0, gen_output_tokens = 0, gen_cached_tokens = 0, gen_stream_offset = 0,
               gen_provider_request_id = None, gen_accepted_at = t, gen_started_at = None,
               gen_completed_at = None, gen_updated_at = t\<rparr>
      in if \<not> text_ok key then Inl invalid_text
         else if \<not> key_length_ok key \<or> user_msg = assistant_msg then Inl (check_violation ''generations'')
         else if list_ex (\<lambda>r. gen_conversation_id r = c \<and> gen_idempotency_key r = key) (generations d) then Inl NoRows
         else if list_ex (\<lambda>r. gen_id r = i \<or> gen_conversation_id r = c \<and> active r) (generations d)
         then Inl (unique_violation ''generations'')
         else if \<not> list_ex (\<lambda>r. conv_id r = c) (conversations d)
              \<or> \<not> list_ex (\<lambda>r. msg_id r = user_msg) (messages d)
              \<or> \<not> list_ex (\<lambda>r. msg_id r = assistant_msg) (messages d)
              \<or> \<not> opt_all (\<lambda>p. list_ex (\<lambda>r. gen_id r = p) (generations d)) parent
              \<or> \<not> list_ex (\<lambda>r. mdl_id r = model) (models d)
              \<or> \<not> list_ex (\<lambda>r. prv_id r = provider) (providers d)
              \<or> \<not> opt_all (\<lambda>q. list_ex (\<lambda>r. rsv_id r = q) (reservations d)) rsv
         then Inl (foreign_key_violation ''generations'')
         else Inr (g, d\<lparr>generations := generations d @ [g]\<rparr>))"

definition mark_generation_streaming :: "time \<Rightarrow> uuid \<Rightarrow> database \<Rightarrow> error + generation_row \<times> database" where
  "mark_generation_streaming t i d =
     (let hit = (\<lambda>g. gen_id g = i \<and> gen_status g = Accepted);
          upd = (\<lambda>g. g\<lparr>gen_status := Streaming, gen_started_at := Some (or_old (gen_started_at g) t),
                      gen_updated_at := t\<rparr>)
      in case find hit (generations d) of
           None \<Rightarrow> Inl NoRows
         | Some g \<Rightarrow> Inr (upd g, d\<lparr>generations := upd_rows hit upd (generations d)\<rparr>))"

definition checkpoint_generation :: "int \<Rightarrow> int \<Rightarrow> time \<Rightarrow> uuid \<Rightarrow> database \<Rightarrow> error + nat \<times> database" where
  "checkpoint_generation offset tokens t i d =
     (let hit = (\<lambda>g. gen_id g = i \<and> gen_status g = Streaming \<and> gen_stream_offset g \<le> offset);
          upd = (\<lambda>g. g\<lparr>gen_stream_offset := offset, gen_output_tokens := tokens, gen_updated_at := t\<rparr>)
      in if list_ex hit (generations d) \<and> (offset < 0 \<or> tokens < 0) then Inl (check_violation ''generations'')
         else Inr (count_rows hit (generations d), d\<lparr>generations := upd_rows hit upd (generations d)\<rparr>))"

text \<open>The new values of \<open>FinalizeGeneration\<close>.\<close>

record final_values =
  fin_status :: generation_status
  fin_retryable :: bool
  fin_reason :: string
  fin_code :: "string option"
  fin_input :: int
  fin_output :: int
  fin_cached :: int
  fin_offset :: int
  fin_request :: "string option"

definition final_ok :: "final_values \<Rightarrow> bool" where
  "final_ok v \<longleftrightarrow> fin_status v \<in> {Completed, Cancelled, Failed, Rejected}
     \<and> fin_reason v \<in> {''stop'', ''length'', ''cancelled'', ''safety'', ''error''}
     \<and> 0 \<le> fin_input v \<and> 0 \<le> fin_output v \<and> 0 \<le> fin_cached v \<and> 0 \<le> fin_offset v"

definition finalize_generation ::
  "final_values \<Rightarrow> time \<Rightarrow> uuid \<Rightarrow> database \<Rightarrow> error + generation_row \<times> database" where
  "finalize_generation v t i d =
     (let hit = (\<lambda>g. gen_id g = i \<and> active g);
          upd = (\<lambda>g. g\<lparr>gen_status := fin_status v, gen_retryable := fin_retryable v,
                      gen_finish_reason := Some (fin_reason v), gen_error_code := fin_code v,
                      gen_input_tokens := fin_input v, gen_output_tokens := fin_output v,
                      gen_cached_tokens := fin_cached v, gen_stream_offset := fin_offset v,
                      gen_provider_request_id := fin_request v, gen_completed_at := Some t, gen_updated_at := t\<rparr>)
      in if \<not> opt_all text_ok (fin_code v) \<or> \<not> opt_all text_ok (fin_request v) \<or> \<not> text_ok (fin_reason v)
         then Inl invalid_text
         else case find hit (generations d) of
           None \<Rightarrow> Inl NoRows
         | Some g \<Rightarrow>
             if \<not> final_ok v then Inl (check_violation ''generations'')
             else Inr (upd g, d\<lparr>generations := upd_rows hit upd (generations d)\<rparr>))"

definition get_generation :: "uuid \<Rightarrow> database \<Rightarrow> error + generation_row" where
  "get_generation i d = one_row (\<lambda>g. gen_id g = i) (generations d)"

definition get_generation_by_key :: "uuid \<Rightarrow> string \<Rightarrow> database \<Rightarrow> error + generation_row" where
  "get_generation_by_key c key d =
     (if \<not> text_ok key then Inl invalid_text
      else one_row (\<lambda>g. gen_conversation_id g = c \<and> gen_idempotency_key g = key) (generations d))"

definition get_latest_generation :: "uuid \<Rightarrow> database \<Rightarrow> error + generation_row" where
  "get_latest_generation c d =
     (case rev (sort_key (\<lambda>g. (gen_accepted_at g, gen_id g)) (filter (\<lambda>g. gen_conversation_id g = c) (generations d))) of
        [] \<Rightarrow> Inl NoRows | g # _ \<Rightarrow> Inr g)"

definition count_actor_active_generations :: "actor_type \<Rightarrow> uuid \<Rightarrow> database \<Rightarrow> error + int" where
  "count_actor_active_generations kind i d =
     Inr (int (length (concat (map (\<lambda>g. filter (\<lambda>c. conv_id c = gen_conversation_id g
        \<and> (kind = User \<and> conv_user_id c = Some i \<or> kind = Guest \<and> conv_guest_id c = Some i)) (conversations d))
        (filter active (generations d))))))"

section \<open>Summaries and the ledger\<close>

definition get_latest_summary :: "uuid \<Rightarrow> database \<Rightarrow> error + summary_row" where
  "get_latest_summary c d =
     (case rev (sort_key sum_version (filter (\<lambda>s. sum_conversation_id s = c) (summaries d))) of
        [] \<Rightarrow> Inl NoRows | s # _ \<Rightarrow> Inr s)"

definition create_conversation_summary ::
  "uuid \<Rightarrow> uuid \<Rightarrow> uuid \<Rightarrow> string \<Rightarrow> int \<Rightarrow> int \<Rightarrow> int \<Rightarrow> int \<Rightarrow> time \<Rightarrow> database \<Rightarrow> error + summary_row \<times> database" where
  "create_conversation_summary i c model content from_seq through version input t d =
     (let s = \<lparr>sum_id = i, sum_conversation_id = c, sum_model_id = model, sum_content = content, sum_from = from_seq,
               sum_through = through, sum_version = version, sum_input_tokens = input, sum_created_at = t\<rparr>
      in if \<not> text_ok content then Inl invalid_text
         else if content = [] \<or> \<not> content_ok content \<or> from_seq \<le> 0 \<or> through < from_seq \<or> version \<le> 0 \<or> input < 0
         then Inl (check_violation ''conversation_summaries'')
         else case find (\<lambda>r. sum_conversation_id r = c \<and> sum_version r = version) (summaries d) of
           Some r \<Rightarrow> Inr (r, d)
         | None \<Rightarrow>
             if list_ex (\<lambda>r. sum_id r = i \<or> sum_conversation_id r = c \<and> sum_from r = from_seq \<and> sum_through r = through)
                  (summaries d)
             then Inl (unique_violation ''conversation_summaries'')
             else if \<not> list_ex (\<lambda>r. conv_id r = c) (conversations d) \<or> \<not> list_ex (\<lambda>r. mdl_id r = model) (models d)
             then Inl (foreign_key_violation ''conversation_summaries'')
             else Inr (s, d\<lparr>summaries := summaries d @ [s]\<rparr>))"

definition create_usage_ledger_entry :: "ledger_row \<Rightarrow> database \<Rightarrow> error + unit \<times> database" where
  "create_usage_ledger_entry l d =
     (if led_input_tokens l < 0 \<or> led_output_tokens l < 0 \<or> led_cached_tokens l < 0
         \<or> led_actor_type l \<notin> {Guest, User}
      then Inl (check_violation ''usage_ledger'')
      else if list_ex (\<lambda>r. led_generation_id r = led_generation_id l) (usage_ledger d) then Inr ((), d)
      else if list_ex (\<lambda>r. led_id r = led_id l) (usage_ledger d) then Inl (unique_violation ''usage_ledger_pkey'')
      else if \<not> list_ex (\<lambda>r. gen_id r = led_generation_id l) (generations d)
           \<or> \<not> list_ex (\<lambda>r. prv_id r = led_provider_id l) (providers d)
           \<or> \<not> list_ex (\<lambda>r. mdl_id r = led_model_id l) (models d)
      then Inl (foreign_key_violation ''usage_ledger'')
      else Inr ((), d\<lparr>usage_ledger := usage_ledger d @ [l]\<rparr>))"

definition get_actor_usage :: "actor_type \<Rightarrow> uuid \<Rightarrow> time \<Rightarrow> database \<Rightarrow> error + int \<times> int \<times> int" where
  "get_actor_usage kind i from_at d =
     (let rows = filter (\<lambda>l. led_actor_type l = kind \<and> led_actor_id l = i \<and> from_at \<le> led_occurred_at l) (usage_ledger d)
      in Inr (sum_list (map led_input_tokens rows), sum_list (map led_output_tokens rows), int (length rows)))"

section \<open>The conversation of a generation\<close>

definition set_conversation_generation_state ::
  "generation_state \<Rightarrow> time \<Rightarrow> uuid \<Rightarrow> database \<Rightarrow> error + nat \<times> database" where
  "set_conversation_generation_state s t i d =
     (let hit = (\<lambda>c. conv_id c = i \<and> conv_deleted_at c = None)
      in Inr (count_rows hit (conversations d), d\<lparr>conversations := upd_rows hit
           (\<lambda>c. c\<lparr>conv_gen_state := s, conv_updated_at := t\<rparr>) (conversations d)\<rparr>))"

definition set_generated_conversation_title :: "string \<Rightarrow> time \<Rightarrow> uuid \<Rightarrow> database \<Rightarrow> error + nat \<times> database" where
  "set_generated_conversation_title title t i d =
     (let hit = (\<lambda>c. conv_id c = i \<and> conv_deleted_at c = None \<and> \<not> conv_renamed c
                  \<and> conv_title c = ''New conversation'')
      in if \<not> text_ok title then Inl invalid_text
         else if list_ex hit (conversations d) \<and> \<not> title_ok title
         then Inl (check_violation ''conversations_title_check'')
         else Inr (count_rows hit (conversations d), d\<lparr>conversations := upd_rows hit
           (\<lambda>c. c\<lparr>conv_title := title, conv_updated_at := t\<rparr>) (conversations d)\<rparr>))"

end
