(* ===== verification/Safety.thy ===== *)
theory Safety
  imports Chat
begin

text \<open>
  \<open>internal/chat/safety.go\<close>: the rules a text is searched with. The regular expressions are values of
  \<open>pattern\<close>, read as Go's \<open>regexp\<close> reads them: over runes, an invalid byte being U+FFFD, with \<open>(?i)\<close> as
  simple case folding (the long s, the Kelvin sign) and \<open>\b\<close> as the boundary of ASCII words. The
  matcher computes; \<open>spans\<close> says which parts of a text a pattern describes.
\<close>

section \<open>Patterns\<close>

datatype pattern =
    Eps | One "nat \<Rightarrow> bool" | Many "nat \<Rightarrow> bool" | Edge | Seq pattern pattern | Alt pattern pattern

definition word_rune :: "nat \<Rightarrow> bool" where
  "word_rune r \<longleftrightarrow> 48 \<le> r \<and> r \<le> 57 \<or> 65 \<le> r \<and> r \<le> 90 \<or> r = 95 \<or> 97 \<le> r \<and> r \<le> 122"

definition at_edge :: "nat option \<Rightarrow> nat list \<Rightarrow> bool" where
  "at_edge l s \<longleftrightarrow> (case l of None \<Rightarrow> False | Some x \<Rightarrow> word_rune x) \<noteq> (case s of [] \<Rightarrow> False | x # _ \<Rightarrow> word_rune x)"

fun runs :: "(nat \<Rightarrow> bool) \<Rightarrow> nat option \<Rightarrow> nat list \<Rightarrow> (nat option \<times> nat list) list" where
  "runs c l [] = [(l, [])]"
| "runs c l (x # xs) = (l, x # xs) # (if c x then runs c (Some x) xs else [])"

text \<open>What may be left of the text after the pattern, with the rune before it.\<close>

fun tails :: "pattern \<Rightarrow> nat option \<Rightarrow> nat list \<Rightarrow> (nat option \<times> nat list) list" where
  "tails Eps l s = [(l, s)]"
| "tails (One c) l s = (case s of [] \<Rightarrow> [] | x # xs \<Rightarrow> if c x then [(Some x, xs)] else [])"
| "tails (Many c) l s = runs c l s"
| "tails Edge l s = (if at_edge l s then [(l, s)] else [])"
| "tails (Seq p q) l s = concat (map (\<lambda>(l', s'). tails q l' s') (tails p l s))"
| "tails (Alt p q) l s = tails p l s @ tails q l s"

fun search :: "pattern \<Rightarrow> nat option \<Rightarrow> nat list \<Rightarrow> bool" where
  "search p l [] \<longleftrightarrow> tails p l [] \<noteq> []"
| "search p l (x # xs) \<longleftrightarrow> tails p l (x # xs) \<noteq> [] \<or> search p (Some x) xs"

definition match_string :: "pattern \<Rightarrow> string \<Rightarrow> bool" where
  "match_string p s = search p None (map fst (decode_runes s))"

section \<open>The rules\<close>

definition fold_case :: "nat \<Rightarrow> nat" where
  "fold_case r = (if r = 0xD3 then 0xF3 else fold_rune r)"

fun literal :: "nat list \<Rightarrow> pattern" where
  "literal [] = Eps"
| "literal (r # rs) = Seq (One (\<lambda>x. fold_case x = fold_case r)) (literal rs)"

definition text_of :: "string \<Rightarrow> nat list" where
  "text_of s = map byte s"

definition letter :: "nat \<Rightarrow> bool" where
  "letter x \<longleftrightarrow> 97 \<le> fold_rune x \<and> fold_rune x \<le> 122"

definition digit :: "nat \<Rightarrow> bool" where
  "digit x \<longleftrightarrow> 48 \<le> x \<and> x \<le> 57"

definition key_rune :: "nat \<Rightarrow> bool" where
  "key_rune x \<longleftrightarrow> letter x \<or> digit x \<or> x = 95 \<or> x = 45"

definition regex_space :: "nat \<Rightarrow> bool" where
  "regex_space x \<longleftrightarrow> x \<in> {9, 10, 12, 13, 32}"

definition at_least :: "nat \<Rightarrow> (nat \<Rightarrow> bool) \<Rightarrow> pattern" where
  "at_least n c = foldr Seq (replicate n (One c)) (Many c)"

definition any_of :: "nat list list \<Rightarrow> pattern" where
  "any_of ws = foldr (\<lambda>w p. Alt (literal w) p) (butlast ws) (literal (last ws))"

definition words :: "nat list list \<Rightarrow> pattern" where
  "words ws = Seq Edge (Seq (any_of ws) Edge)"

definition credentials_rule :: pattern where
  "credentials_rule = Alt
     (Seq (literal (text_of ''-----BEGIN '')) (Seq (Many (\<lambda>x. letter x \<or> x = 32)) (literal (text_of ''PRIVATE KEY-----''))))
     (Seq (Alt (Seq (literal (text_of ''api'')) (Seq (Alt (One (\<lambda>x. x = 95 \<or> x = 32 \<or> x = 45)) Eps) (literal (text_of ''key''))))
            (Alt (literal (text_of ''secret'')) (literal (text_of ''token''))))
       (Seq (Many regex_space) (Seq (One (\<lambda>x. x = 58 \<or> x = 61)) (Seq (Many regex_space) (at_least 12 key_rune)))))"

definition self_harm_rule :: pattern where
  "self_harm_rule = words [text_of ''kill myself'', text_of ''suicide method'',
     text_of ''c'' @ [0xF3] @ text_of ''mo suicidarme'', text_of ''como suicidarme'']"

definition sexual_minors_rule :: pattern where
  "sexual_minors_rule = words [text_of ''child sexual abuse'', text_of ''sexual content involving minors'',
     text_of ''contenido sexual de menores'']"

definition violent_threat_rule :: pattern where
  "violent_threat_rule = words [text_of ''how to murder'', text_of ''plan to kill'',
     text_of ''c'' @ [0xF3] @ text_of ''mo asesinar'', text_of ''como asesinar'']"

definition safety_rules :: "string \<Rightarrow> pattern option" where
  "safety_rules name =
     (if name = ''credentials'' then Some credentials_rule
      else if name = ''self_harm'' then Some self_harm_rule
      else if name = ''sexual_minors'' then Some sexual_minors_rule
      else if name = ''violent_threat'' then Some violent_threat_rule
      else None)"

text \<open>
  \<open>strings.TrimSpace(strings.ToLower(category))\<close>, compared with names of ASCII letters: besides A to Z
  only the dotted capital I and the Kelvin sign have ASCII lower case.
\<close>

definition lower_rune :: "nat \<Rightarrow> nat" where
  "lower_rune r = (if 65 \<le> r \<and> r \<le> 90 then r + 32 else if r = 0x130 then 105 else if r = 0x212A then 107 else r)"

definition category_name :: "string \<Rightarrow> string" where
  "category_name c = trim_space (concat (map (encode_rune \<circ> lower_rune \<circ> fst) (decode_runes c)))"

text \<open>\<open>Check\<close>; the error of a context that is done is the parameter \<open>ctx\<close>.\<close>

fun check_categories :: "string \<Rightarrow> string list \<Rightarrow> safety_decision" where
  "check_categories content [] = \<lparr>sd_blocked = False, sd_category = []\<rparr>"
| "check_categories content (c # cs) =
     (case safety_rules (category_name c) of
        Some rule \<Rightarrow> if match_string rule content then \<lparr>sd_blocked = True, sd_category = category_name c\<rparr>
                     else check_categories content cs
      | None \<Rightarrow> check_categories content cs)"

definition rule_safety_check :: "error option \<Rightarrow> safety_policy" where
  "rule_safety_check ctx stage content categories =
     (case ctx of Some e \<Rightarrow> Inl e | None \<Rightarrow> Inr (check_categories content categories))"

section \<open>What a pattern describes\<close>

text \<open>The part \<open>m\<close> of the text \<open>u @ m @ v\<close>.\<close>

inductive spans :: "pattern \<Rightarrow> nat list \<Rightarrow> nat list \<Rightarrow> nat list \<Rightarrow> bool" where
  eps: "spans Eps u [] v"
| one: "c x \<Longrightarrow> spans (One c) u [x] v"
| many: "list_all c m \<Longrightarrow> spans (Many c) u m v"
| edge: "at_edge (if u = [] then None else Some (last u)) v \<Longrightarrow> spans Edge u [] v"
| seq: "spans p u m (n @ v) \<Longrightarrow> spans q (u @ m) n v \<Longrightarrow> spans (Seq p q) u (m @ n) v"
| left: "spans p u m v \<Longrightarrow> spans (Alt p q) u m v"
| right: "spans q u m v \<Longrightarrow> spans (Alt p q) u m v"

inductive_simps spans_simps:
  "spans Eps u m v" "spans (One c) u m v" "spans (Many c) u m v" "spans Edge u m v" "spans (Alt p q) u m v"

inductive_cases spans_seqE: "spans (Seq p q) u m v"

definition before :: "nat list \<Rightarrow> nat option" where
  "before u = (if u = [] then None else Some (last u))"

lemma before_append: "before (u @ m) = (if m = [] then before u else Some (last m))"
  by (simp add: before_def)

lemma runs_spans: "(l, t) \<in> set (runs c (before u) s) \<longleftrightarrow> (\<exists>m. s = m @ t \<and> l = before (u @ m) \<and> list_all c m)"
proof (induction s arbitrary: u)
  case (Cons x xs)
  have later: "(l, t) \<in> set (runs c (Some x) xs) \<longleftrightarrow> (\<exists>m. xs = m @ t \<and> l = before (u @ x # m) \<and> list_all c m)"
    using Cons [of "u @ [x]"] by (simp add: before_append)
  show ?case
  proof
    assume "(l, t) \<in> set (runs c (before u) (x # xs))"
    then consider "l = before u" "t = x # xs" | m where "c x" "xs = m @ t" "l = before (u @ x # m)" "list_all c m"
      using later by (auto split: if_splits)
    then show "\<exists>m. x # xs = m @ t \<and> l = before (u @ m) \<and> list_all c m"
    proof cases
      case 1
      then show ?thesis by (intro exI [of _ "[]"]) simp
    next
      case (2 m)
      then show ?thesis by (intro exI [of _ "x # m"]) simp
    qed
  next
    assume "\<exists>m. x # xs = m @ t \<and> l = before (u @ m) \<and> list_all c m"
    then obtain m where m: "x # xs = m @ t" "l = before (u @ m)" "list_all c m" by blast
    then show "(l, t) \<in> set (runs c (before u) (x # xs))"
      using later by (cases m) auto
  qed
qed auto

lemma tails_spans: "(l, t) \<in> set (tails p (before u) s) \<longleftrightarrow> (\<exists>m. s = m @ t \<and> l = before (u @ m) \<and> spans p u m t)"
proof (induction p arbitrary: u s l t)
  case (One c)
  have "(\<exists>m. s = m @ t \<and> l = before (u @ m) \<and> spans (One c) u m t) \<longleftrightarrow> (\<exists>x. s = x # t \<and> l = Some x \<and> c x)"
    by (force simp: spans_simps(2) before_append)
  then show ?case by (cases s) (simp_all, blast)
next
  case (Many c)
  show ?case by (simp add: runs_spans spans_simps)
next
  case (Seq p q)
  show ?case
  proof
    assume "(l, t) \<in> set (tails (Seq p q) (before u) s)"
    then obtain l' s' where step: "(l', s') \<in> set (tails p (before u) s)" "(l, t) \<in> set (tails q l' s')" by auto
    from step(1) obtain m where m: "s = m @ s'" "l' = before (u @ m)" "spans p u m s'"
      using Seq.IH(1) by blast
    from step(2) obtain n where n: "s' = n @ t" "l = before ((u @ m) @ n)" "spans q (u @ m) n t"
      unfolding m(2) using Seq.IH(2) by blast
    then show "\<exists>m. s = m @ t \<and> l = before (u @ m) \<and> spans (Seq p q) u m t"
      using m by (intro exI [of _ "m @ n"]) (auto intro: spans.seq)
  next
    assume "\<exists>m. s = m @ t \<and> l = before (u @ m) \<and> spans (Seq p q) u m t"
    then obtain m n where m: "s = (m @ n) @ t" "l = before (u @ m @ n)" "spans p u m (n @ t)" "spans q (u @ m) n t"
      by (auto elim: spans_seqE)
    then have "(before (u @ m), n @ t) \<in> set (tails p (before u) s)" using Seq.IH(1) by auto
    moreover have "(l, t) \<in> set (tails q (before (u @ m)) (n @ t))" using Seq.IH(2) m by auto
    ultimately show "(l, t) \<in> set (tails (Seq p q) (before u) s)" by auto
  qed
qed (simp_all add: spans_simps, auto simp: before_def)

lemma search_spans: "search p (before u) s \<longleftrightarrow> (\<exists>w m v. s = w @ m @ v \<and> spans p (u @ w) m v)"
proof (induction s arbitrary: u)
  case Nil
  have "tails p (before u) [] \<noteq> [] \<longleftrightarrow> (\<exists>l t. (l, t) \<in> set (tails p (before u) []))"
    by (metis list.set_intros(1) neq_Nil_conv prod.collapse set_empty empty_iff)
  then show ?case by (auto simp: tails_spans)
next
  case (Cons x xs)
  have here: "tails p (before u) (x # xs) \<noteq> [] \<longleftrightarrow> (\<exists>l t. (l, t) \<in> set (tails p (before u) (x # xs)))"
    by (metis list.set_intros(1) neq_Nil_conv prod.collapse set_empty empty_iff)
  have later: "search p (Some x) xs \<longleftrightarrow> (\<exists>w m v. xs = w @ m @ v \<and> spans p (u @ x # w) m v)"
    using Cons [of "u @ [x]"] by (simp add: before_append)
  show ?case
    by (auto simp: here later tails_spans Cons_eq_append_conv) (metis append_Nil2 append_Nil)+
qed

lemma match_spans: "match_string p s \<longleftrightarrow> (\<exists>w m v. map fst (decode_runes s) = w @ m @ v \<and> spans p w m v)"
  using search_spans [of p "[]" "map fst (decode_runes s)"] by (simp add: match_string_def before_def)

section \<open>What is blocked\<close>

lemma check_blocked:
  "sd_blocked (check_categories content cats) \<longleftrightarrow>
     (\<exists>c rule. c \<in> set cats \<and> safety_rules (category_name c) = Some rule \<and> match_string rule content)"
proof (induction cats)
  case (Cons c cs)
  show ?case
    using Cons by (cases "safety_rules (category_name c)") auto
qed simp

text \<open>C27: The safety policy blocks a text exactly when one of the listed categories, read without its case and
  surrounding space, names a rule that describes some part of the text; the matcher is equivalent to the
  declarative reading of the rules.\<close>
theorem safety_blocks:
  "sd_blocked (check_categories content cats) \<longleftrightarrow>
     (\<exists>c rule w m v. c \<in> set cats \<and> safety_rules (category_name c) = Some rule
        \<and> map fst (decode_runes content) = w @ m @ v \<and> spans rule w m v)"
  unfolding check_blocked match_spans by blast

end
