(* ===== verification/ChatInv.thy ===== *)
theory ChatInv
  imports Safety
begin

text \<open>
  The environment of the chat service as a locale (what its sources, its quota and its catalog leave
  alone), the service \<open>cmd/api/main.go\<close> builds as its interpretation, and the invariant of the tables of
  messages, generations and the usage ledger, kept by every operation whatever fails.
\<close>

section \<open>Frames\<close>

text \<open>Predicates of the tables the chat service alone writes.\<close>

definition same_chat :: "database \<Rightarrow> database \<Rightarrow> bool" where
  "same_chat d d' \<longleftrightarrow> messages d' = messages d \<and> generations d' = generations d \<and> usage_ledger d' = usage_ledger d"

definition chat_view :: "(database \<Rightarrow> bool) \<Rightarrow> bool" where
  "chat_view P \<longleftrightarrow> (\<forall>d d'. same_chat d d' \<longrightarrow> P d' = P d)"

named_theorems chat_frames "queries that leave the tables of the chat service alone"

lemma quota_same_chat [chat_frames]:
  "increment_guest_allowance n t g a b d = Inr (x, d') \<Longrightarrow> same_chat d d'"
  "adjust_guest_output n t g d = Inr (y, d') \<Longrightarrow> same_chat d d'"
  "add_daily_usage k i dt n a b t d = Inr (z, d') \<Longrightarrow> same_chat d d'"
  "adjust_daily_output n t k i dt d = Inr (y, d') \<Longrightarrow> same_chat d d'"
  "create_quota_reservation i k c dt n d = Inr (y, d') \<Longrightarrow> same_chat d d'"
  "settle_quota_reservation i n st t d = Inr (v, d') \<Longrightarrow> same_chat d d'"
  by (auto simp: same_chat_def increment_guest_allowance_def adjust_guest_output_def add_daily_usage_def
      adjust_daily_output_def create_quota_reservation_def settle_quota_reservation_def Let_def
      split: if_splits option.splits)

lemma chat_view_exec:
  "chat_view P \<Longrightarrow> (\<And>d x d'. q d = Inr (x, d') \<Longrightarrow> same_chat d d') \<Longrightarrow> keeps (\<lambda>w. P (db w)) (db_exec q)"
  unfolding chat_view_def by (rule keeps_db_exec) metis

lemma keeps_chat_reserve_tx: "chat_view P \<Longrightarrow> keeps (\<lambda>w. P (db w)) (reserve_tx p a n t rid)"
  unfolding reserve_tx_def lock_global_admission_def
  by (intro keeps_intros chat_view_exec keeps_db_call) (auto simp: ok_def intro: chat_frames)

lemma keeps_chat_settle_tx: "chat_view P \<Longrightarrow> keeps (\<lambda>w. P (db w)) (settle_tx res n t)"
  unfolding settle_tx_def settle_found_def
  by (intro keeps_intros chat_view_exec) (auto intro: chat_frames)

lemma keeps_pred: "(\<And>d. keeps (\<lambda>w. db w = d) m) \<Longrightarrow> keeps (\<lambda>w. P (db w)) m"
  by (auto simp: keeps_def)

context quota_contract
begin

lemma keeps_chat_reserve:
  assumes "chat_view P"
  shows "keeps (\<lambda>w. P (db w)) (reserve S a n)"
  unfolding reserve_def apply_rate_limits_def
  by (intro keeps_intros keeps_chat_reserve_tx assms
      keeps_pred [OF acquire_db] keeps_pred [OF release_db] keeps_pred [OF rate_db] keeps_pred [OF policy_db])

lemma keeps_chat_settle: "chat_view P \<Longrightarrow> keeps (\<lambda>w. P (db w)) (settle S res n)"
  unfolding settle_def
  by (intro keeps_intros keeps_chat_settle_tx keeps_pred [OF release_db])

lemma keeps_db_max_output: "keeps (\<lambda>w. P (db w)) (max_output_tokens S a n)"
  unfolding max_output_tokens_def output_usage_def
  by (intro keeps_intros keeps_pred [OF policy_db])

end

lemma keeps_db_emit [keeps_intros]: "keeps (\<lambda>w. P (db w)) (emit a kind request j)"
  unfolding emit_def by (intro keeps_intros)

lemma keeps_db_get_conversation [keeps_intros]: "keeps (\<lambda>w. P (db w)) (get_conversation a i)"
  unfolding get_conversation_def owned_conversation_def by (intro keeps_intros)

section \<open>The environment of the service\<close>

locale chat_env =
  fixes S :: chat_service
  assumes quota: "quota_contract (chs_quota S)"
    and catalog: "catalog_laws (chs_models S)"
    and prompt_db: "chs_prompt S = Some m \<Longrightarrow> keeps (\<lambda>w. db w = d) m"
    and summary_db: "chs_summary_model S = Some s \<Longrightarrow> keeps (\<lambda>w. db w = d) s"
    and available_db: "chs_available S = Some v \<Longrightarrow> keeps (\<lambda>w. db w = d) v"
    and categories_db: "chs_categories S = Some c \<Longrightarrow> keeps (\<lambda>w. db w = d) c"
    and reporter_db: "chs_reporter S = Some r \<Longrightarrow> keeps (\<lambda>w. db w = d) (r x)"
    and lock_db: "keeps (\<lambda>w. db w = d) (chs_lock S key)"
begin

sublocale quota: quota_contract "chs_quota S"
  by (rule quota)

sublocale catalog: catalog_laws "chs_models S"
  by (rule catalog)

lemma keeps_db_select: "keeps (\<lambda>w. P (db w)) (mc_select (chs_models S) i a)"
  unfolding keeps_def by (metis catalog.select_db prod.collapse)

end


section \<open>The invariant\<close>

definition message_ok :: "message_row \<Rightarrow> bool" where
  "message_ok m \<longleftrightarrow> content_ok (msg_content m) \<and> 0 < msg_sequence m"

text \<open>The answer of a generation is an assistant's message of the same conversation.\<close>

definition answers_in :: "database \<Rightarrow> generation_row \<Rightarrow> bool" where
  "answers_in d g \<longleftrightarrow> list_ex (\<lambda>m. msg_id m = gen_assistant_message_id g
     \<and> msg_conversation_id m = gen_conversation_id g \<and> msg_role m = MsgAssistant) (messages d)"

definition generation_ok :: "generation_row \<Rightarrow> bool" where
  "generation_ok g \<longleftrightarrow> (gen_completed_at g = None \<longleftrightarrow> active g) \<and> (gen_finish_reason g = None \<longleftrightarrow> active g)
     \<and> gen_user_message_id g \<noteq> gen_assistant_message_id g
     \<and> 0 \<le> gen_input_tokens g \<and> 0 \<le> gen_output_tokens g \<and> 0 \<le> gen_cached_tokens g \<and> 0 \<le> gen_stream_offset g"

definition chat_ok :: "database \<Rightarrow> bool" where
  "chat_ok d \<longleftrightarrow>
     distinct (map msg_id (messages d))
     \<and> distinct (map (\<lambda>m. (msg_conversation_id m, msg_sequence m)) (messages d))
     \<and> list_all message_ok (messages d)
     \<and> distinct (map gen_id (generations d))
     \<and> distinct (map (\<lambda>g. (gen_conversation_id g, gen_idempotency_key g)) (generations d))
     \<and> distinct (map gen_assistant_message_id (generations d))
     \<and> distinct (map gen_conversation_id (filter active (generations d)))
     \<and> list_all generation_ok (generations d)
     \<and> list_all (answers_in d) (generations d)
     \<and> distinct (map led_generation_id (usage_ledger d))
     \<and> list_all (\<lambda>l. list_ex (\<lambda>g. gen_id g = led_generation_id l) (generations d)) (usage_ledger d)"

lemma chat_view_ok: "chat_view chat_ok"
  by (simp add: chat_view_def same_chat_def chat_ok_def answers_in_def [abs_def])

subsection \<open>Updates that keep the keys\<close>

lemma distinct_filter_upd:
  assumes "\<And>r. P r \<Longrightarrow> k (f r) = k r" and "\<And>r. P r \<Longrightarrow> Q (f r) \<Longrightarrow> Q r"
    and "distinct (map k (filter Q xs))"
  shows "distinct (map k (filter Q (upd_rows P f xs)))"
proof -
  have sub: "k ` set (filter Q (upd_rows P f ys)) \<subseteq> k ` set (filter Q ys)" for ys
    using assms(1,2) by (induction ys) auto
  show ?thesis
    using assms(3)
  proof (induction xs)
    case (Cons r rs)
    have IH: "distinct (map k (filter Q (upd_rows P f rs)))"
      using Cons by (auto split: if_splits)
    show ?case
    proof (cases "Q (if P r then f r else r)")
      case True
      then have "Q r" "k (if P r then f r else r) = k r" using assms(1,2) by (auto split: if_splits)
      moreover from this have "k r \<notin> k ` set (filter Q rs)" using Cons.prems by simp
      ultimately have "k (if P r then f r else r) \<notin> k ` set (filter Q (upd_rows P f rs))" using sub by auto
      with True IH show ?thesis by (simp only: upd_rows_Cons filter.simps if_True list.map distinct.simps set_map simp_thms)
    qed (use IH in simp)
  qed simp
qed

lemma list_all_upd: "(\<And>r. P r \<Longrightarrow> Q r \<Longrightarrow> Q (f r)) \<Longrightarrow> list_all Q xs \<Longrightarrow> list_all Q (upd_rows P f xs)"
  by (induction xs) auto

lemma list_ex_upd: "(\<And>r. P r \<Longrightarrow> Q (f r) = Q r) \<Longrightarrow> list_ex Q (upd_rows P f xs) = list_ex Q xs"
  by (induction xs) auto

text \<open>Rewriting a message's content or status, or a generation's progress.\<close>

lemma chat_ok_messages:
  assumes "chat_ok d"
    and "\<And>m. P m \<Longrightarrow> msg_id (f m) = msg_id m \<and> msg_conversation_id (f m) = msg_conversation_id m
      \<and> msg_sequence (f m) = msg_sequence m \<and> msg_role (f m) = msg_role m"
    and "\<And>m. P m \<Longrightarrow> m \<in> set (messages d) \<Longrightarrow> message_ok m \<Longrightarrow> message_ok (f m)"
  shows "chat_ok (d\<lparr>messages := upd_rows P f (messages d)\<rparr>)"
proof -
  have "answers_in (d\<lparr>messages := upd_rows P f (messages d)\<rparr>) = answers_in d"
    using assms(2) by (intro ext) (simp add: answers_in_def list_ex_upd)
  moreover have "list_all message_ok (upd_rows P f (messages d))"
    using assms(1,3) by (auto simp: chat_ok_def list_all_iff set_upd_rows)
  ultimately show ?thesis
    using assms(1,2) by (simp add: chat_ok_def map_upd_rows_same)
qed

lemma chat_ok_generations:
  assumes "chat_ok d"
    and same: "\<And>g. P g \<Longrightarrow> gen_id (f g) = gen_id g \<and> gen_conversation_id (f g) = gen_conversation_id g
      \<and> gen_idempotency_key (f g) = gen_idempotency_key g \<and> gen_assistant_message_id (f g) = gen_assistant_message_id g"
    and ok: "\<And>g. P g \<Longrightarrow> generation_ok g \<Longrightarrow> generation_ok (f g)" and act: "\<And>g. P g \<Longrightarrow> active (f g) \<Longrightarrow> active g"
  shows "chat_ok (d\<lparr>generations := upd_rows P f (generations d)\<rparr>)"
proof -
  have "answers_in (d\<lparr>generations := upd_rows P f (generations d)\<rparr>) = answers_in d"
    by (intro ext) (simp add: answers_in_def)
  moreover have "answers_in d (f g) = answers_in d g" if "P g" for g
    using same that by (simp add: answers_in_def)
  ultimately show ?thesis
    using assms(1) same ok act
    by (simp add: chat_ok_def map_upd_rows_same list_all_upd list_ex_upd distinct_filter_upd)
qed

subsection \<open>The queries\<close>

named_theorems chat_ok_intros "operations that keep the invariant"

lemma message_ok_append: "message_ok m \<Longrightarrow> content_ok (msg_content m') \<Longrightarrow> msg_sequence m' = msg_sequence m \<Longrightarrow> message_ok m'"
  by (simp add: message_ok_def)

lemma append_chat_ok:
  assumes "append_assistant_message delta t i d = Inr (x, d')" and "chat_ok d"
  shows "chat_ok d'"
proof -
  let ?hit = "\<lambda>m. msg_id m = i \<and> msg_role m = MsgAssistant \<and> msg_status m = Pending"
  let ?upd = "\<lambda>m. m\<lparr>msg_content := msg_content m @ delta, msg_status := Pending, msg_updated_at := t\<rparr>"
  obtain m where m: "find ?hit (messages d) = Some m" "content_ok (msg_content (?upd m))"
    and d': "d' = d\<lparr>messages := upd_rows ?hit ?upd (messages d)\<rparr>"
    using assms(1) by (auto simp: append_assistant_message_def Let_def split: if_splits option.splits)
  have "n = m" if "?hit n" "n \<in> set (messages d)" for n
    using that find_Some_iff_mem [OF m(1)] assms(2) by (auto simp: chat_ok_def distinct_map inj_on_def)
  then have "message_ok n \<Longrightarrow> message_ok (?upd n)" if "?hit n" "n \<in> set (messages d)" for n
    using that m(2) by (auto simp: message_ok_def)
  then show ?thesis
    unfolding d' by (intro chat_ok_messages assms(2)) auto
qed

lemma finalize_message_chat_ok:
  "finalize_message st t i d = Inr (x, d') \<Longrightarrow> chat_ok d \<Longrightarrow> chat_ok d'"
  by (auto simp: finalize_message_def Let_def message_ok_def intro!: chat_ok_messages)

lemma mark_chat_ok: "mark_generation_streaming t i d = Inr (x, d') \<Longrightarrow> chat_ok d \<Longrightarrow> chat_ok d'"
  by (auto simp: mark_generation_streaming_def Let_def generation_ok_def active_def
      split: option.splits intro!: chat_ok_generations)

lemma checkpoint_chat_ok: "checkpoint_generation n k t i d = Inr (x, d') \<Longrightarrow> chat_ok d \<Longrightarrow> chat_ok d'"
proof -
  assume run: "checkpoint_generation n k t i d = Inr (x, d')" and ok: "chat_ok d"
  let ?hit = "\<lambda>g. gen_id g = i \<and> gen_status g = Streaming \<and> gen_stream_offset g \<le> n"
  let ?upd = "\<lambda>g. g\<lparr>gen_stream_offset := n, gen_output_tokens := k, gen_updated_at := t\<rparr>"
  have d': "d' = d\<lparr>generations := upd_rows ?hit ?upd (generations d)\<rparr>" and pos: "list_ex ?hit (generations d) \<longrightarrow> 0 \<le> n \<and> 0 \<le> k"
    using run by (auto simp: checkpoint_generation_def Let_def split: if_splits)
  show "chat_ok d'"
  proof (cases "list_ex ?hit (generations d)")
    case True
    with pos show ?thesis unfolding d'
      by (intro chat_ok_generations ok) (auto simp: generation_ok_def active_def)
  next
    case False
    then have "upd_rows ?hit ?upd (generations d) = generations d"
      by (intro upd_rows_none) (auto simp: list_ex_iff)
    with ok d' show ?thesis by simp
  qed
qed

lemma finalize_generation_chat_ok:
  "finalize_generation v t i d = Inr (x, d') \<Longrightarrow> chat_ok d \<Longrightarrow> chat_ok d'"
  by (auto simp: finalize_generation_def Let_def generation_ok_def active_def final_ok_def
      split: option.splits if_splits intro!: chat_ok_generations)

lemma ledger_chat_ok: "create_usage_ledger_entry l d = Inr (x, d') \<Longrightarrow> chat_ok d \<Longrightarrow> chat_ok d'"
proof -
  assume run: "create_usage_ledger_entry l d = Inr (x, d')" and ok: "chat_ok d"
  consider "d' = d" | "d' = d\<lparr>usage_ledger := usage_ledger d @ [l]\<rparr>"
      "led_generation_id l \<notin> set (map led_generation_id (usage_ledger d))"
      "list_ex (\<lambda>g. gen_id g = led_generation_id l) (generations d)"
    using run by (fastforce simp: create_usage_ledger_entry_def list_ex_iff split: if_splits)
  then show "chat_ok d'"
    using ok by cases (simp_all add: chat_ok_def answers_in_def [abs_def])
qed

lemma conversation_same_chat [chat_frames]:
  "set_conversation_generation_state s t i d = Inr (x, d') \<Longrightarrow> same_chat d d'"
  "set_generated_conversation_title title t i d = Inr (x, d') \<Longrightarrow> same_chat d d'"
  "create_conversation_summary j c m content a b v n t d = Inr (y, d') \<Longrightarrow> same_chat d d'"
  by (auto simp: same_chat_def set_conversation_generation_state_def set_generated_conversation_title_def
      create_conversation_summary_def Let_def split: if_splits option.splits)

lemma create_message_chat_ok:
  assumes "create_message i c role content st n t d = Inr (m, d')" and "chat_ok d"
  shows "chat_ok d' \<and> i \<notin> set (map gen_assistant_message_id (generations d'))
    \<and> generations d' = generations d
    \<and> list_ex (\<lambda>m. msg_id m = i \<and> msg_conversation_id m = c \<and> msg_role m = role) (messages d')"
proof -
  have d': "d' = d\<lparr>messages := messages d @ [m]\<rparr>" and m: "msg_id m = i" "msg_conversation_id m = c" "msg_role m = role"
      "msg_sequence m = n" "message_ok m"
    and fresh: "i \<notin> msg_id ` set (messages d)" "(c, n) \<notin> (\<lambda>m. (msg_conversation_id m, msg_sequence m)) ` set (messages d)"
    using assms(1) by (auto simp: create_message_def message_ok_def list_ex_iff Let_def split: if_splits)
  have "list_all (answers_in d') (generations d)" "i \<notin> set (map gen_assistant_message_id (generations d))"
    using assms(2) fresh(1) by (auto simp: chat_ok_def list_all_iff answers_in_def list_ex_iff d' image_iff) (metis+)
  then show ?thesis
    using assms(2) m fresh by (simp add: d' chat_ok_def)
qed

lemma create_generation_chat_ok:
  assumes "create_generation i c u a parent model provider rsv key t d = Inr (g, d')" and "chat_ok d"
    and "a \<notin> set (map gen_assistant_message_id (generations d))"
    and "list_ex (\<lambda>m. msg_id m = a \<and> msg_conversation_id m = c \<and> msg_role m = MsgAssistant) (messages d)"
  shows "chat_ok d'"
proof -
  have d': "d' = d\<lparr>generations := generations d @ [g]\<rparr>"
    and g: "gen_id g = i" "gen_conversation_id g = c" "gen_assistant_message_id g = a" "gen_idempotency_key g = key"
      "generation_ok g" "active g"
    and fresh: "\<not> list_ex (\<lambda>r. gen_conversation_id r = c \<and> gen_idempotency_key r = key) (generations d)"
      "\<not> list_ex (\<lambda>r. gen_id r = i \<or> gen_conversation_id r = c \<and> active r) (generations d)"
    using assms(1) by (auto simp: create_generation_def generation_ok_def active_def Let_def split: if_splits)
  have "answers_in d' = answers_in d" by (intro ext) (simp add: answers_in_def d')
  moreover have "answers_in d g" using assms(4) g by (simp add: answers_in_def)
  ultimately show ?thesis
    using assms(2,3) g fresh by (auto simp: d' chat_ok_def list_ex_iff list_all_iff)
qed

subsection \<open>The operations\<close>

abbreviation keeps_chat :: "(world, 'a) op \<Rightarrow> bool" where
  "keeps_chat m \<equiv> keeps (\<lambda>w. chat_ok (db w)) m"

lemma keeps_chat_queries [chat_ok_intros]:
  "keeps_chat (db_exec (append_assistant_message delta t i))"
  "keeps_chat (db_exec (finalize_message st t i))"
  "keeps_chat (db_exec (mark_generation_streaming t i))"
  "keeps_chat (db_exec (checkpoint_generation n k t i))"
  "keeps_chat (db_exec (finalize_generation v t i))"
  "keeps_chat (db_exec (create_usage_ledger_entry l))"
  by (intro keeps_db_exec, erule (1) append_chat_ok finalize_message_chat_ok mark_chat_ok checkpoint_chat_ok
      finalize_generation_chat_ok ledger_chat_ok)+

lemma keeps_chat_frames [chat_ok_intros]:
  "keeps_chat (db_exec (set_conversation_generation_state s t i))"
  "keeps_chat (db_exec (set_generated_conversation_title title t i))"
  "keeps_chat (db_exec (create_conversation_summary j c m content a b v n t))"
  by (intro chat_view_exec chat_view_ok, erule chat_frames)+

lemma db_exec_spec:
  "(\<And>d x d'. P d \<Longrightarrow> q d = Inr (x, d') \<Longrightarrow> Q x d') \<Longrightarrow> (\<And>d. P d \<Longrightarrow> E d) \<Longrightarrow>
   spec (\<lambda>w. P (db w)) (db_exec q) (\<lambda>x w. Q x (db w)) (\<lambda>_ w. E (db w))"
  by (rule specI) (auto dest: db_exec_okD db_exec_errD)

lemma spec_keepsI: "spec I m (\<lambda>_. I) (\<lambda>_. I) \<Longrightarrow> keeps I m"
  by (auto simp: keeps_def spec_def split: sum.splits prod.splits) (metis obj_sumE prod.collapse)

text \<open>The end both transactions share: the generation of a message that was just stored.\<close>

lemma keeps_new_generation:
  "spec (\<lambda>w. chat_ok (db w) \<and> a \<notin> set (map gen_assistant_message_id (generations (db w)))
     \<and> list_ex (\<lambda>m. msg_id m = a \<and> msg_conversation_id m = c \<and> msg_role m = MsgAssistant) (messages (db w)))
   (bindE (db_exec (create_generation g c u a parent model provider rsv key t)) (\<lambda>generation.
    bindE (attempt (db_exec (set_conversation_generation_state StateAccepted t c))) (\<lambda>updated.
    if updated \<noteq> Inr 1 then fail ChatConflict else ok generation)))
   (\<lambda>_ w. chat_ok (db w)) (\<lambda>_ w. chat_ok (db w))"
  by (rule spec_bindE [where R = "\<lambda>_ w. chat_ok (db w)"], rule db_exec_spec, erule create_generation_chat_ok, simp_all)
    (intro spec_keeps keeps_intros chat_ok_intros)

lemma keeps_answer:
  "spec (\<lambda>w. chat_ok (db w))
   (bindE (db_exec (create_message a c MsgAssistant content st n t)) (\<lambda>_.
    bindE (db_exec (create_generation g c u a parent model provider rsv key t)) (\<lambda>generation.
    bindE (attempt (db_exec (set_conversation_generation_state StateAccepted t c))) (\<lambda>updated.
    if updated \<noteq> Inr 1 then fail ChatConflict else ok generation))))
   (\<lambda>_ w. chat_ok (db w)) (\<lambda>_ w. chat_ok (db w))"
  by (rule spec_bindE [OF db_exec_spec keeps_new_generation]) (auto dest!: create_message_chat_ok)

lemma keeps_accept_tx [chat_ok_intros]: "keeps_chat (accept_tx c content key selection r new t)"
proof -
  have user: "keeps_chat (db_exec (create_message u c role s st n t))" for u role s st n
    by (rule keeps_db_exec) (auto dest!: create_message_chat_ok)
  show ?thesis
    unfolding accept_tx_def
    by (rule keeps_prod, rule keeps_prod)
      (rule keeps_bindE [OF keeps_db_read], rule keeps_bindE [OF user], rule spec_keepsI [OF keeps_answer])
qed

lemma keeps_retry_tx [chat_ok_intros]: "keeps_chat (retry_tx c key previous selection r g a t)"
  unfolding retry_tx_def by (rule keeps_bindE [OF keeps_db_read], rule spec_keepsI [OF keeps_answer])

lemma keeps_record_usage [chat_ok_intros]: "keeps_chat (record_usage acc u t)"
  unfolding record_usage_def by (intro keeps_intros chat_ok_intros)

lemma keeps_generate_title [chat_ok_intros]: "keeps_chat (generate_title acc)"
  unfolding generate_title_def by (intro keeps_intros chat_ok_intros)

context chat_env
begin

lemma keeps_db_sources:
  "keeps (\<lambda>w. P (db w)) (current_system_prompt S)"
  "keeps (\<lambda>w. P (db w)) (check_available S)"
  "keeps (\<lambda>w. P (db w)) (check_safety S stage content)"
  "keeps (\<lambda>w. P (db w)) (report_safety S stage category request)"
  unfolding current_system_prompt_def check_available_def check_safety_def report_safety_def
  by (cases "chs_prompt S" "chs_available S" rule: option.exhaust [case_product option.exhaust];
      cases "chs_safety S" "chs_categories S" rule: option.exhaust [case_product option.exhaust];
      cases "chs_reporter S"; simp;
      intro keeps_intros keeps_pred [OF prompt_db] keeps_pred [OF available_db]
        keeps_pred [OF categories_db] keeps_pred [OF reporter_db]; simp)+

lemma keeps_write_summary: "keeps_chat (write_summary S c selection covered through)"
  unfolding write_summary_def
  by (cases "chs_summary_model S"; simp only: option.case;
      intro keeps_intros chat_ok_intros keeps_pred [OF summary_db]; simp)

lemma keeps_context: "keeps_chat (context_of S c content selection)"
  unfolding context_of_def ensure_summary_def with_advisory_lock_def
  by (intro keeps_intros keeps_db_sources keeps_write_summary keeps_pred [OF lock_db] keeps_db_call) (auto simp: ok_def)

lemma keeps_close: "keeps_chat (close_generation S acc v st u)"
  unfolding close_generation_def
  by (intro keeps_intros chat_ok_intros quota.keeps_chat_settle chat_view_ok)

lemma keeps_endings:
  "keeps_chat (finish_generation S acc st reason content u request)"
  "keeps_chat (fail_generation S acc cause request u)"
  "keeps_chat (block_safety S acc content u request)"
  unfolding finish_generation_def fail_generation_def block_safety_def
  by (intro keeps_intros chat_ok_intros keeps_close)+

lemma keeps_chunk:
  "keeps_chat (stream_text S acc s p)"
  "keeps_chat (complete_stream S acc p)"
  unfolding stream_text_def complete_stream_def
  by (intro keeps_intros chat_ok_intros keeps_endings keeps_db_sources)+

lemma keeps_stream_loop: "keeps_chat (stream_loop S acc answers p)"
proof (induction answers arbitrary: p)
  case (Cons x xs)
  obtain c e where [simp]: "x = (c, e)" by (cases x)
  show ?case
    by (simp only: \<open>x = (c, e)\<close> stream_loop.simps)
      (intro keeps_intros keeps_chunk keeps_endings Cons)
qed (simp add: keeps_endings)

lemma keeps_stream: "keeps_chat (stream_generation S acc cancelled)"
  unfolding stream_generation_def
  by (intro keeps_intros chat_ok_intros keeps_endings keeps_stream_loop)

lemma keeps_reserve_output: "keeps_chat (reserve_output S a selection)"
  unfolding reserve_output_def
  by (intro keeps_intros quota.keeps_db_max_output quota.keeps_chat_reserve chat_view_ok)

lemma keeps_refund: "keeps_chat (refund S r)"
  unfolding refund_def by (intro keeps_intros quota.keeps_chat_settle chat_view_ok)

lemma keeps_accept: "keeps_chat (accept S a e)"
  unfolding accept_def accept_decoded_def build_context_def new_chat_ids_def
  by (intro keeps_intros chat_ok_intros keeps_db_sources keeps_db_select keeps_reserve_output keeps_refund keeps_context)

lemma keeps_prepare: "keeps_chat (prepare S a e)"
  unfolding prepare_def prepare_cancel_def
  by (intro keeps_intros keeps_db_sources keeps_accept)

lemma keeps_retry: "keeps_chat (retry S a c key request)"
  unfolding retry_def retry_previous_def build_stored_context_def
  by (intro keeps_intros chat_ok_intros keeps_db_sources keeps_db_select keeps_reserve_output keeps_refund keeps_context)

end

section \<open>The service of the program\<close>

text \<open>
  As \<open>cmd/api/main.go\<close> builds it: prompt, summary model, categories and availability are read from the
  runtime settings, reports go to the log. The gateways, the parser of UUIDs, the text search, the answers
  of the advisory lock and the configured maintenance are parameters.
\<close>

record chat_config =
  cc_hmac :: "string \<Rightarrow> string \<Rightarrow> string"
  cc_signing_key :: string
  cc_uuid :: "string \<Rightarrow> uuid option"
  cc_search :: "string \<Rightarrow> string \<Rightarrow> bool"
  cc_gateways :: "string \<Rightarrow> gateway option"
  cc_maintenance :: bool
  cc_lock :: "string \<Rightarrow> bool"

definition runtime_settings :: "(world, snapshot) op" where
  "runtime_settings = load_settings (Some redis_cache)"

definition api_summary_model :: "(string \<Rightarrow> uuid option) \<Rightarrow> (world, model_selection) op" where
  "api_summary_model parse =
     bindE runtime_settings (\<lambda>s.
     case parse (snap_summary_model_id s) of
       None \<Rightarrow> fail (Wrap ''parse summary model ID'' (Msg ''invalid UUID''))
     | Some i \<Rightarrow> mc_select catalog_service i ''user'')"

definition api_chat :: "chat_config \<Rightarrow> chat_service" where
  "api_chat k = \<lparr>
     chs_conversations = \<lparr>cs_catalog = catalog_service, cs_uuid = cc_uuid k, cs_search = cc_search k\<rparr>,
     chs_models = catalog_service,
     chs_quota = api_quota (cc_hmac k) (cc_signing_key k),
     chs_uuid = cc_uuid k,
     chs_gateways = cc_gateways k,
     chs_prompt = Some (bindE runtime_settings (\<lambda>s. ok (snap_system_prompt s))),
     chs_summary_model = Some (api_summary_model (cc_uuid k)),
     chs_available = Some (bindE runtime_settings (\<lambda>s. ok (\<not> cc_maintenance k \<and> \<not> snap_maintenance s))),
     chs_safety = Some (rule_safety_check None),
     chs_categories = Some (bindE runtime_settings (\<lambda>s. ok (snap_input_categories s, snap_output_categories s))),
     chs_reporter = Some (\<lambda>_. ok ()),
     chs_lock = (\<lambda>key. call (ok (cc_lock k key)))\<rparr>"

lemma keeps_db_runtime [keeps_intros]: "keeps (\<lambda>w. P (db w)) runtime_settings"
  unfolding runtime_settings_def by (rule keeps_db_settings)

lemma keeps_db_catalog: "keeps (\<lambda>w. P (db w)) (mc_select catalog_service i a)"
  unfolding keeps_def by (metis cat.select_db prod.collapse)

interpretation ac: chat_env "api_chat k" for k
proof (rule chat_env.intro)
  show "quota_contract (chs_quota (api_chat k))"
    by (simp add: api_chat_def aq.quota_contract_axioms)
  show "catalog_laws (chs_models (api_chat k))"
    by (simp add: api_chat_def cat.catalog_laws_axioms)
  show "keeps (\<lambda>w. db w = d) (chs_lock (api_chat k) key)" for d key
    by (simp add: api_chat_def keeps_call keeps_ok)
qed (auto simp: api_chat_def api_summary_model_def intro!: keeps_intros keeps_db_catalog)

text \<open>
  The histories of the tables: operations of any actors with any faults in any order, and whatever the
  rest of the program does, which leaves these tables alone.
\<close>

inductive chat_runs :: "chat_service \<Rightarrow> world \<Rightarrow> world \<Rightarrow> bool" for S w where
  start: "chat_runs S w w"
| prepared: "chat_runs S w w1 \<Longrightarrow> prepare S a e w1 = (r, w2) \<Longrightarrow> chat_runs S w w2"
| retried: "chat_runs S w w1 \<Longrightarrow> retry S a c key request w1 = (r', w2) \<Longrightarrow> chat_runs S w w2"
| streamed: "chat_runs S w w1 \<Longrightarrow> run_stream S acc m w1 = (r'', w2) \<Longrightarrow> chat_runs S w w2"
| elsewhere: "chat_runs S w w1 \<Longrightarrow> same_chat (db w1) (db w2) \<Longrightarrow> chat_runs S w w2"

context chat_env
begin

lemma keeps_run_stream: "keeps_chat (run_stream S acc m)"
  unfolding run_stream_def by (intro keeps_intros keeps_stream)

lemma runs_chat_ok: "chat_runs S w w' \<Longrightarrow> chat_ok (db w) \<Longrightarrow> chat_ok (db w')"
proof (induction rule: chat_runs.induct)
  case (elsewhere w1 w2)
  then show ?case using chat_view_ok by (auto simp: chat_view_def)
qed (auto intro: keepsD_eq [OF keeps_prepare] keepsD_eq [OF keeps_retry] keepsD_eq [OF keeps_run_stream])

end

section \<open>Properties\<close>

definition demo_conversation :: conversation_row where
  "demo_conversation = \<lparr>conv_id = 7, conv_user_id = Some 5, conv_guest_id = None, conv_title = ''New conversation'',
     conv_status = ConvActive, conv_created_at = 0, conv_updated_at = 0, conv_model_id = 3,
     conv_gen_state = StateAccepted, conv_renamed = False, conv_deleted_at = None, conv_creation_key = None,
     conv_deletion_key = None\<rparr>"

definition demo_message :: "uuid \<Rightarrow> message_role \<Rightarrow> string \<Rightarrow> message_status \<Rightarrow> int \<Rightarrow> message_row" where
  "demo_message i role s st n = \<lparr>msg_id = i, msg_conversation_id = 7, msg_role = role, msg_content = s,
     msg_status = st, msg_sequence = n, msg_created_at = 0, msg_updated_at = 0\<rparr>"

definition demo_generation :: generation_row where
  "demo_generation = \<lparr>gen_id = 9, gen_conversation_id = 7, gen_user_message_id = 11, gen_assistant_message_id = 12,
     gen_parent_id = None, gen_model_id = 3, gen_provider_id = 4, gen_reservation_id = Some 8,
     gen_idempotency_key = ''0123456789abcdef'', gen_status = Accepted, gen_retryable = False,
     gen_finish_reason = None, gen_error_code = None, gen_input_tokens = 0, gen_output_tokens = 0,
     gen_cached_tokens = 0, gen_stream_offset = 0, gen_provider_request_id = None, gen_accepted_at = 0,
     gen_started_at = None, gen_completed_at = None, gen_updated_at = 0\<rparr>"

definition chat_db :: database where
  "chat_db = empty_db\<lparr>conversations := [demo_conversation],
     messages := [demo_message 11 MsgUser ''hi'' Complete 1, demo_message 12 MsgAssistant [] Pending 2],
     generations := [demo_generation],
     providers := [\<lparr>prv_id = 4, prv_code = ''fake'', prv_display_name = ''Fake'', prv_adapter = ''fake'',
       prv_enabled = True, prv_health = ''unknown'', prv_version = 1\<rparr>],
     reservations := [\<lparr>rsv_id = 8, rsv_actor_type = User, rsv_actor_id = 5, rsv_date = 0, rsv_reserved = 100,
       rsv_actual = None, rsv_status = Reserved, rsv_settled_at = None\<rparr>]\<rparr>"

definition demo_selection :: model_selection where
  "demo_selection = \<lparr>sel_model = \<lparr>mv_id = 3, mv_name = ''Fake'', mv_description = [], mv_context_window = 8000,
     mv_max_output = 100, mv_capabilities = \<lparr>cap_chat = True, cap_markdown = True, cap_code = True\<rparr>\<rparr>,
     sel_provider_id = 4, sel_provider_code = ''fake'', sel_adapter = ''fake'', sel_provider_model_id = ''fake-1''\<rparr>"

definition demo_accepted :: accepted_generation where
  "demo_accepted = \<lparr>acc_actor = \<lparr>ca_type = User, ca_id = 5\<rparr>, acc_selection = demo_selection,
     acc_reservation = \<lparr>res_id = 8, res_actor = \<lparr>act_type = User, act_id = 5, act_ip = None\<rparr>, res_owner = ''owner'',
       res_date = 0, res_reserved = 100, res_reset_at = 0\<rparr>,
     acc_generation = demo_generation,
     acc_messages = [\<lparr>cm_role = ''user'', cm_content = ''hi''\<rparr>], acc_request = ''req_1''\<rparr>"

definition demo_gateway :: gateway where
  "demo_gateway q = Inr
     [(\<lparr>ch_text = ''hel'', ch_usage = None, ch_finish = NoFinish, ch_request_id = ''up_1'', ch_model = []\<rparr>, None),
      (\<lparr>ch_text = ''lo'', ch_usage = Some \<lparr>tu_input = 8, tu_output = 2, tu_cached = 0\<rparr>, ch_finish = FinishStop,
        ch_request_id = [], ch_model = []\<rparr>, Some EndOfFile)]"

definition demo_config :: chat_config where
  "demo_config = \<lparr>cc_hmac = (\<lambda>k x. x), cc_signing_key = replicate 32 CHR ''k'', cc_uuid = (\<lambda>_. Some 7),
     cc_search = (\<lambda>_ _. True), cc_gateways = (\<lambda>_. Some demo_gateway), cc_maintenance = False, cc_lock = (\<lambda>_. True)\<rparr>"

lemmas demo_rows = chat_db_def empty_db_def demo_conversation_def demo_message_def demo_generation_def

lemma chat_db_ok: "chat_ok chat_db"
  by (simp add: chat_ok_def demo_rows active_def generation_ok_def message_ok_def answers_in_def content_ok_def
      rune_count_def decode_runes_ascii)

text \<open>C3: Messages, generations and the usage ledger stay consistent in every history of commands, retries and
  streams, whatever fails: sequence numbers and idempotency keys are unique in a conversation, at most one
  generation of a conversation is active, a generation is completed exactly when it is not active, every
  generation answers into its own assistant message, and it is entered in the ledger at most once.\<close>
theorem chat_invariant:
  "chat_runs (api_chat k) w w' \<Longrightarrow> chat_ok (db w) \<Longrightarrow> chat_ok (db w')"
  by (rule ac.runs_chat_ok)

theorem chat_invariant_witness:
  "chat_ok (db (snd (run_stream (api_chat demo_config) demo_accepted \<lparr>mem_streaming = [], mem_pending = [9]\<rparr>
     (world_of chat_db 60 [20, 21, 22] []))))"
  by (rule chat_invariant [OF chat_runs.streamed [OF chat_runs.start [where w = "world_of chat_db 60 [20, 21, 22] []"] prod.collapse [symmetric]]])
    (simp add: world_of_def chat_db_ok)

end
