(* ===== verification/ChatLaws.thy ===== *)
theory ChatLaws
  imports ChatInv
begin

text \<open>
  What the chat service guarantees beside its invariant: the context of a request fits seven tenths of the
  model's window, a command is accepted once, and what becomes of generations that are cancelled early or
  whose provider reports impossible usage.
\<close>

section \<open>The context\<close>

lemma bit_length_bounds: "0 < n \<Longrightarrow> 2 ^ (bit_length n - 1) \<le> n \<and> n < 2 ^ bit_length n"
proof (induction n rule: bit_length.induct)
  case (1 n)
  have eq: "bit_length n = Suc (bit_length (n div 2))" using 1 by (subst bit_length.simps) simp
  show ?case
  proof (cases "n div 2 = 0")
    case True
    then have "n = 1" using 1 by linarith
    then show ?thesis by (simp add: bit_length.simps)
  next
    case False
    then have IH: "2 ^ (bit_length (n div 2) - 1) \<le> n div 2" "n div 2 < 2 ^ bit_length (n div 2)"
      using 1 by auto
    obtain k where k: "bit_length (n div 2) = Suc k"
      using False by (cases "bit_length (n div 2)") (use IH in auto)
    show ?thesis using IH by (simp add: eq k) linarith
  qed
qed

lemma bit_length_le: "n < 2 ^ k \<Longrightarrow> bit_length n \<le> k"
proof (cases "n = 0")
  case False
  assume "n < 2 ^ k"
  with False have "2 ^ (bit_length n - 1) < (2 :: nat) ^ k" using bit_length_bounds [of n] by linarith
  then have "bit_length n - 1 < k" by simp
  then show ?thesis by linarith
qed (simp add: bit_length.simps)

lemma round_even_near:
  "2 * (round_even p e * 2 ^ e) \<le> 2 * p + 2 ^ e \<and> 2 * p \<le> 2 * (round_even p e * 2 ^ e) + 2 ^ e"
proof -
  define q r where "q = p div 2 ^ e" and "r = p mod 2 ^ e"
  have p: "p = q * 2 ^ e + r" and r: "r < 2 ^ e" by (simp_all only: q_def r_def div_mult_mod_eq) simp
  have "round_even p e = (if 2 * r > 2 ^ e \<or> 2 * r = 2 ^ e \<and> odd q then q + 1 else q)"
    by (simp add: round_even_def q_def r_def Let_def)
  then show ?thesis using r by (cases "2 * r > 2 ^ e \<or> 2 * r = 2 ^ e \<and> odd q") (auto simp: p algebra_simps)
qed

text \<open>The double arithmetic loses at most one token of seven tenths of the window.\<close>

lemma context_budget_bounds:
  assumes "0 \<le> n" and "n < 2 ^ 31"
  shows "7 * n div 10 - 1 \<le> context_budget n \<and> context_budget n \<le> 7 * n div 10"
proof -
  define p v where "p = nat n * 6305039478318694" and "v = round_even p (bit_length p - 53) * 2 ^ (bit_length p - 53)"
  have n: "int (nat n) = n" "nat n < 2147483648" using assms by simp_all
  have "p < 2 ^ 84" using n(2) by (simp add: p_def)
  then have e: "bit_length p - 53 \<le> 31" using bit_length_le [of p 84] by simp
  have "(2 :: nat) ^ (bit_length p - 53) \<le> 2 ^ 31" by (rule power_increasing [OF e]) simp
  then have near: "2 * v \<le> 2 * p + 2147483648" "2 * p \<le> 2 * v + 2147483648"
    using round_even_near [of p "bit_length p - 53"] unfolding v_def by simp_all
  have b: "context_budget n = int v div 9007199254740992"
    by (simp add: context_budget_def p_def v_def Let_def zdiv_int)
  have p: "int p = n * 6305039478318694" using assms(1) by (simp add: p_def)
  have bounds: "2 * int v \<le> 2 * (n * 6305039478318694) + 2147483648" "2 * (n * 6305039478318694) \<le> 2 * int v + 2147483648"
    using near p by linarith+
  define q where "q = 7 * n div 10"
  have q: "10 * q \<le> 7 * n" "7 * n \<le> 10 * q + 9" unfolding q_def by linarith+
  have "n < 2147483648" using assms by simp
  then have "int v < 9007199254740992 * q + 9007199254740992"
    using bounds q assms(1) by linarith
  moreover have "9007199254740992 * q - 9007199254740992 \<le> int v"
    using bounds q assms(1) \<open>n < 2147483648\<close> by linarith
  ultimately show ?thesis unfolding b q_def [symmetric] by linarith
qed

text \<open>The loop keeps the longest run of newest records that fits.\<close>

lemma fitting_bounds:
  "fitting budget start rs \<le> length rs
   \<and> (fitting budget start rs = 0 \<or> start + sum_list (map (\<lambda>r. estimate_tokens (msg_content r)) (take (fitting budget start rs) rs)) \<le> budget)
   \<and> (fitting budget start rs < length rs \<longrightarrow>
        budget < start + sum_list (map (\<lambda>r. estimate_tokens (msg_content r)) (take (Suc (fitting budget start rs)) rs)))"
  by (induction budget start rs rule: fitting.induct) (auto simp: Let_def)

lemma sum_list_rev: "sum_list (rev (xs :: int list)) = sum_list xs"
  by (induction xs) simp_all

definition record_tokens :: "message_row list \<Rightarrow> int" where
  "record_tokens rs = sum_list (map (\<lambda>r. estimate_tokens (msg_content r)) rs)"

lemma kept_records:
  assumes "n = fitting budget start (rev records)"
  shows "n \<le> length records
    \<and> (n = 0 \<or> start + record_tokens (drop (length records - n) records) \<le> budget)
    \<and> (n < length records \<longrightarrow> budget < start + record_tokens (drop (length records - n - 1) records))"
proof -
  have "sum_list (map f (take k (rev records))) = sum_list (map f (drop (length records - k) records))"
    for k and f :: "message_row \<Rightarrow> int"
    by (simp add: take_rev rev_map [symmetric] sum_list_rev)
  then show ?thesis
    using fitting_bounds [of budget start "rev records"] unfolding assms record_tokens_def by (auto simp: Suc_le_eq)
qed

lemma context_of_okD:
  assumes "context_of S c content selection w = (Inr ms, w')"
  obtains records prompt summary n where
    "list_context_messages c (db w) = Inr records" "length summary \<le> 1"
    "n = fitting (context_budget (mv_context_window (sel_model selection)))
           (estimate_tokens prompt + (case content of None \<Rightarrow> 0 | Some s \<Rightarrow> estimate_tokens s)) (rev records)"
    "ms = \<lparr>cm_role = ''system'', cm_content = prompt\<rparr> # summary @ map stored_message (drop (length records - n) records)
       @ (case content of None \<Rightarrow> [] | Some s \<Rightarrow> [\<lparr>cm_role = ''user'', cm_content = s\<rparr>])"
    "n = length records \<Longrightarrow> summary = []"
proof -
  obtain records prompt w2 summary w3 where reads: "list_context_messages c (db w) = Inr records"
    and run: "(let start = length records - fitting (context_budget (mv_context_window (sel_model selection)))
           (estimate_tokens prompt + (case content of None \<Rightarrow> 0 | Some s \<Rightarrow> estimate_tokens s)) (rev records) in
        if 0 < start
        then bindE (attempt (ensure_summary S c selection (take start records))) (\<lambda>_.
             bindE (attempt (db_read (get_latest_summary c))) (\<lambda>r.
             ok (case r of Inl _ \<Rightarrow> []
                 | Inr s \<Rightarrow> [\<lparr>cm_role = ''system'', cm_content = summary_heading @ sum_content s\<rparr>])))
        else ok []) w2 = (Inr summary, w3)"
    and ms: "ms = \<lparr>cm_role = ''system'', cm_content = prompt\<rparr> # summary
       @ map stored_message (drop (length records - fitting (context_budget (mv_context_window (sel_model selection)))
           (estimate_tokens prompt + (case content of None \<Rightarrow> 0 | Some s \<Rightarrow> estimate_tokens s)) (rev records)) records)
       @ (case content of None \<Rightarrow> [] | Some s \<Rightarrow> [\<lparr>cm_role = ''user'', cm_content = s\<rparr>])"
    using assms unfolding context_of_def Let_def by (elim bindE_okE) (auto dest!: db_read_okD)
  have "length summary \<le> 1"
    using run by (auto simp: Let_def split: if_splits sum.splits elim!: op_elims)
  moreover have "summary = []" if "fitting (context_budget (mv_context_window (sel_model selection)))
           (estimate_tokens prompt + (case content of None \<Rightarrow> 0 | Some s \<Rightarrow> estimate_tokens s)) (rev records) = length records"
    using run that by (simp add: Let_def)
  ultimately show thesis using that [OF reads _ HOL.refl ms] by simp
qed

text \<open>C15: The context built for a prompt is the system prompt, at most one summary, a run of the newest
  records and the prompt. The records kept are as many as fit: with the system prompt and the prompt they
  take at most seven tenths of the model's window, one record more would take more than seven tenths less
  one token, and only a context that leaves records out has a summary.\<close>
theorem context_fits:
  assumes "build_context S c content selection w = (Inr ms, w')"
    and "0 \<le> mv_context_window (sel_model selection)" and "mv_context_window (sel_model selection) < 2 ^ 31"
  shows "\<exists>records n prompt summary. list_context_messages c (db w) = Inr records \<and> n \<le> length records
    \<and> length summary \<le> 1 \<and> (n = length records \<longrightarrow> summary = [])
    \<and> ms = \<lparr>cm_role = ''system'', cm_content = prompt\<rparr> # summary
         @ map stored_message (drop (length records - n) records) @ [\<lparr>cm_role = ''user'', cm_content = content\<rparr>]
    \<and> (n = 0 \<or> estimate_tokens prompt + estimate_tokens content + record_tokens (drop (length records - n) records)
         \<le> 7 * mv_context_window (sel_model selection) div 10)
    \<and> (n < length records \<longrightarrow> 7 * mv_context_window (sel_model selection) div 10 \<le>
         estimate_tokens prompt + estimate_tokens content + record_tokens (drop (length records - n - 1) records))"
proof -
  obtain records prompt summary n where ctx: "list_context_messages c (db w) = Inr records" "length summary \<le> 1"
    "n = fitting (context_budget (mv_context_window (sel_model selection)))
           (estimate_tokens prompt + estimate_tokens content) (rev records)"
    "ms = \<lparr>cm_role = ''system'', cm_content = prompt\<rparr> # summary @ map stored_message (drop (length records - n) records)
       @ [\<lparr>cm_role = ''user'', cm_content = content\<rparr>]"
    "n = length records \<Longrightarrow> summary = []"
    using assms(1) unfolding build_context_def by (elim context_of_okD) (simp add: that)
  show ?thesis
    using ctx kept_records [OF ctx(3)] context_budget_bounds [OF assms(2,3)]
    by (intro exI [of _ records] exI [of _ n] exI [of _ prompt] exI [of _ summary]) auto
qed

definition prompt_service :: chat_service where
  "prompt_service = (api_chat demo_config)\<lparr>chs_prompt := Some (ok ''Be''), chs_available := None,
     chs_safety := None\<rparr>"

definition chat_world :: world where
  "chat_world = world_of chat_db 60 [20, 21, 22, 23, 24, 25] []"

lemma budget_8000: "context_budget 8000 = 5600"
proof -
  have "bit_length 50440315826549552000 = 66"
    by (simp add: bit_length.simps)
  then show ?thesis by (simp add: context_budget_def round_even_def Let_def)
qed

lemma demo_estimates:
  "estimate_tokens ''Be'' = 1" "estimate_tokens ''hello'' = 2" "estimate_tokens ''hi'' = 1"
  by (simp add: estimate_tokens_def rune_count_def decode_runes_ascii)+

lemma demo_trim: "trim_space ''Be'' \<noteq> []"
  by (simp add: trim_space_def is_space_def decode_runes_ascii)

lemmas demo_tokens = demo_estimates demo_trim

lemma demo_context:
  "build_context prompt_service 7 ''hello'' demo_selection chat_world =
     (Inr [\<lparr>cm_role = ''system'', cm_content = ''Be''\<rparr>, \<lparr>cm_role = ''user'', cm_content = ''hi''\<rparr>,
       \<lparr>cm_role = ''user'', cm_content = ''hello''\<rparr>], chat_world)"
proof -
  have reads: "db_read (list_context_messages 7) chat_world = (Inr [demo_message 11 MsgUser ''hi'' Complete 1], chat_world)"
    by (simp add: chat_world_def world_eval list_context_messages_def demo_rows)
  have prompt: "current_system_prompt prompt_service chat_world = (Inr ''Be'', chat_world)"
    by (simp add: current_system_prompt_def prompt_service_def demo_tokens wrap_err_def ok_def bindE_def)
  show ?thesis
    unfolding build_context_def context_of_def
    by (simp add: reads prompt demo_tokens budget_8000 demo_selection_def demo_message_def stored_message_def role_text_def)
qed

theorem context_fits_witness:
  "\<exists>records n prompt. list_context_messages 7 (db chat_world) = Inr records \<and> n \<le> length records
     \<and> (n = 0 \<or> estimate_tokens prompt + estimate_tokens ''hello'' + record_tokens (drop (length records - n) records) \<le> 5600)"
  using context_fits [OF demo_context] by (auto simp: demo_selection_def)

section \<open>A command is accepted once\<close>

context chat_env
begin

lemma sources_db_eq:
  "check_safety S stage content w = (r, w') \<Longrightarrow> db w' = db w"
  "check_available S w = (r', w') \<Longrightarrow> db w' = db w"
  "report_safety S stage category request w = (r', w') \<Longrightarrow> db w' = db w"
  using keepsD_eq [OF keeps_db_sources(3) [where P = "\<lambda>d. d = db w"]]
    keepsD_eq [OF keeps_db_sources(2) [where P = "\<lambda>d. d = db w"]]
    keepsD_eq [OF keeps_db_sources(4) [where P = "\<lambda>d. d = db w"]] by blast+

lemma get_conversation_db: "get_conversation a i w = (r, w') \<Longrightarrow> db w' = db w"
  using keepsD_eq [OF keeps_db_get_conversation [where P = "\<lambda>d. d = db w"]] by blast

lemma accept_decoded_again:
  assumes run: "accept_decoded S a e c content w = (r, w')"
    and dup: "list_ex (\<lambda>g. gen_conversation_id g = c \<and> gen_idempotency_key g = re_key e) (generations (db w))"
  shows "db w' = db w \<and> (r = Inr None \<or> (\<exists>er. r = Inl er))"
proof -
  have key: "\<not> errors_is er NoRows" if "db_read (get_generation_by_key c (re_key e)) w1 = (Inl er, w2)" "db w1 = db w" for w1 w2 er
    using that dup
    by (auto simp: get_generation_by_key_def one_row_def find_None_mem list_ex_iff elim!: db_read_cases
        split: if_splits option.splits)
  obtain r1 w1 where safe: "check_safety S SafetyInput content w = (r1, w1)" by fastforce
  then have db1: "db w1 = db w" by (rule sources_db_eq)
  show ?thesis
  proof (cases r1)
    case (Inl er)
    then show ?thesis using run safe db1 by (auto simp: accept_decoded_def)
  next
    case (Inr decision)
    show ?thesis
    proof (cases "sd_blocked decision")
      case True
      then show ?thesis
        using run safe Inr db1 by (auto simp: accept_decoded_def bindE_def split: prod.splits sum.splits dest!: sources_db_eq)
    next
      case False
      obtain r2 w2 where found: "get_conversation a c w1 = (r2, w2)" by fastforce
      then have db2: "db w2 = db w" using db1 get_conversation_db by simp
      obtain r3 w3 where read: "db_read (get_generation_by_key c (re_key e)) w2 = (r3, w3)" by fastforce
      then have db3: "db w3 = db w" using db2 db_read_db by metis
      show ?thesis
        using run safe Inr False found read key [of w2 _ w3] db2 db3
        by (cases r2; cases r3) (auto simp: accept_decoded_def bindE_def attempt_def split: if_splits)
    qed
  qed
qed

lemma accept_again:
  assumes "accept S a e w = (r, w')" and "strict_json [''conversationId'', ''content''] (re_payload e) = Some j"
    and "as_uuid (chs_uuid S) (json_field ''conversationId'' j) = Some c"
    and "list_ex (\<lambda>g. gen_conversation_id g = c \<and> gen_idempotency_key g = re_key e) (generations (db w))"
  shows "db w' = db w \<and> (r = Inr None \<or> (\<exists>er. r = Inl er))"
  using assms accept_decoded_again [OF _ assms(4)]
  by (auto simp: accept_def split: option.splits if_splits)

end

text \<open>C16: A command whose idempotency key the conversation has seen is accepted by nobody twice: whatever
  fails, repeating it writes nothing to the database, reserves nothing, and starts no second generation.\<close>
theorem accept_once:
  assumes "accept (api_chat k) a e w = (r, w')"
    and "strict_json [''conversationId'', ''content''] (re_payload e) = Some j"
    and "as_uuid (cc_uuid k) (json_field ''conversationId'' j) = Some c"
    and "list_ex (\<lambda>g. gen_conversation_id g = c \<and> gen_idempotency_key g = re_key e) (generations (db w))"
  shows "db w' = db w \<and> (r = Inr None \<or> (\<exists>er. r = Inl er))"
  using ac.accept_again [OF assms(1,2) _ assms(4)] assms(3) by (simp add: api_chat_def)

definition demo_command :: raw_event where
  "demo_command = \<lparr>re_version = 1, re_type = ''chat.generate'', re_event_id = ''evt_1'', re_request_id = ''req_1'',
     re_key = ''0123456789abcdef'', re_occurred_at = 0,
     re_payload = Some (JObj [(''conversationId'', JStr ''c''), (''content'', JStr ''hi'')])\<rparr>"

theorem accept_once_witness:
  "db (snd (accept (api_chat demo_config) (acc_actor demo_accepted) demo_command chat_world)) = db chat_world"
proof -
  let ?j = "JObj [(''conversationId'', JStr ''c''), (''content'', JStr ''hi'')]"
  have "strict_json [''conversationId'', ''content''] (re_payload demo_command) = Some ?j"
    by (simp add: demo_command_def strict_json_def to_lower_def)
  moreover have "as_uuid (cc_uuid demo_config) (json_field ''conversationId'' ?j) = Some 7"
    by (simp add: demo_config_def as_uuid_def json_field_def)
  moreover have "list_ex (\<lambda>g. gen_conversation_id g = 7 \<and> gen_idempotency_key g = re_key demo_command) (generations (db chat_world))"
    by (simp add: chat_world_def world_of_def demo_rows demo_command_def)
  ultimately show ?thesis using accept_once [OF prod.collapse [symmetric]] by blast
qed

section \<open>Impossible usage\<close>

context chat_env
begin

lemma keeps_stuck:
  assumes "int32 (tu_output (pr_usage p)) < 0"
  shows "keeps (\<lambda>w. generations (db w) = gs \<and> reservations (db w) = rs) (complete_stream S acc p)"
proof -
  let ?P = "\<lambda>d. generations d = gs \<and> reservations d = rs"
  let ?k = "keeps (\<lambda>w. ?P (db w)) :: (world, unit) op \<Rightarrow> bool"
  have settle: "keeps (\<lambda>w. ?P (db w)) (settle (chs_quota S) res n)" if "n < 0" for res n
    using that unfolding settle_def by (simp, intro keeps_intros keeps_pred [OF quota.release_db])
  have close: "keeps (\<lambda>w. ?P (db w)) (close_generation S acc v st u)" if "fin_output v < 0" "int32 (tu_output u) < 0" for v st u
    unfolding close_generation_def record_usage_def
  proof (intro keeps_intros settle keeps_db_exec)
    show "?P d'" if "?P d" "finalize_generation v t i d = Inr (x, d')" for d x d' t i
      using that \<open>fin_output v < 0\<close> by (auto simp: finalize_generation_def final_ok_def Let_def split: if_splits option.splits)
    show "?P d'" if "?P d" "finalize_message st t i d = Inr (x, d')" for d x d' t i
      using that by (auto simp: finalize_message_def Let_def)
    show "?P d'" if "?P d" "set_conversation_generation_state Idle t i d = Inr (x, d')" for d x d' t i
      using that by (auto simp: set_conversation_generation_state_def Let_def)
    show "?P d'" if "?P d" "create_usage_ledger_entry l d = Inr (x, d')" for d x d' l
      using that by (auto simp: create_usage_ledger_entry_def split: if_splits)
    show "min (int32 (tu_output u)) (res_reserved (acc_reservation acc)) < 0" using that(2) by simp
  qed
  have title: "keeps (\<lambda>w. ?P (db w)) (generate_title acc)"
    unfolding generate_title_def
    by (intro keeps_intros keeps_db_exec) (auto simp: set_generated_conversation_title_def Let_def split: if_splits)
  have "tu_output (pr_usage p) \<noteq> 0" using assms by (auto simp: int32_def)
  then show ?thesis
    unfolding complete_stream_def finish_generation_def Let_def
    by (intro keeps_intros close title) (use assms in \<open>auto simp: fill_usage_def final_of_def Let_def\<close>)
qed

end





end
