(* ===== verification/Streams.thy ===== *)
theory Streams
  imports ChatLaws
begin

text \<open>
  A stream comes to an end: on a database and a Redis that answer, \<open>stream\<close> leaves its generation closed,
  its message final, its conversation idle and its reservation settled, whatever the gateway sends, as long
  as the usage it reports fits 31 bits. The proof carries \<open>stream_open\<close> over the chunks of the transcript.
\<close>

section \<open>Sizes\<close>

lemma length_rune_count: "length s \<le> 4 * rune_count s"
proof (induction s rule: decode_runes.induct)
  case (1 s)
  show ?case
  proof (cases "s = []")
    case False
    obtain r n where rn: "decode_rune s = (r, n)" by fastforce
    have "n \<le> 4"
      using rn False by (auto simp: decode_rune_def Let_def split: list.splits if_splits)
    moreover have "length (drop n s) \<le> 4 * rune_count (drop n s)"
      using 1 [OF False rn [symmetric]] by simp
    ultimately show ?thesis
      using False rn by (simp add: rune_count_def decode_runes.simps [of s])
  qed simp
qed

lemma rune_count_length: "rune_count s \<le> length s"
  by (simp add: rune_count_def length_decode_runes)

lemma content_sizes:
  assumes "content_ok s"
  shows "int32 (int (length s)) = int (length s)" "int32 (estimate_tokens s) = estimate_tokens s" "0 < estimate_tokens s"
    "estimate_tokens s < 2 ^ 31"
proof -
  have "int (rune_count s) \<le> 200000" "int (length s) \<le> 800000"
    using assms length_rune_count [of s] by (auto simp: content_ok_def)
  then show "int32 (int (length s)) = int (length s)" "int32 (estimate_tokens s) = estimate_tokens s" "0 < estimate_tokens s"
    "estimate_tokens s < 2 ^ 31"
    by (auto simp: int32_def estimate_tokens_def)
qed

lemma int32_small: "0 \<le> n \<Longrightarrow> n < 2 ^ 31 \<Longrightarrow> int32 n = n"
  by (simp add: int32_def)

section \<open>Settling without faults\<close>

lemma find_conj: "find P xs = Some x \<Longrightarrow> Q x \<Longrightarrow> find (\<lambda>y. P y \<and> Q y) xs = Some x"
  by (induction xs) (auto split: if_splits)

text \<open>A reservation that can be settled.\<close>

definition settleable :: "reservation \<Rightarrow> database \<Rightarrow> bool" where
  "settleable res d \<longleftrightarrow> distinct (map rsv_id (reservations d)) \<and> list_all guest_counters_ok (guest_sessions d)
     \<and> 0 \<le> res_reserved res
     \<and> (\<exists>r. find (\<lambda>r. rsv_id r = res_id res) (reservations d) = Some r \<and> rsv_status r = Reserved
          \<and> rsv_actor_type r = act_type (res_actor res) \<and> rsv_actor_id r = act_id (res_actor res)
          \<and> rsv_reserved r = res_reserved res)"

definition settled_in :: "reservation \<Rightarrow> database \<Rightarrow> bool" where
  "settled_in res d \<longleftrightarrow>
     (\<exists>r. find (\<lambda>r. rsv_id r = res_id res) (reservations d) = Some r \<and> rsv_status r \<noteq> Reserved)"

lemma adjust_guest_runs:
  "list_all guest_counters_ok (guest_sessions d) \<Longrightarrow> n \<le> 0 \<Longrightarrow> \<exists>gs. adjust_guest_output n t i d = Inr ((), d\<lparr>guest_sessions := gs\<rparr>)"
  by (auto simp: adjust_guest_output_def guest_counters_ok_def list_ex_iff list_all_iff Let_def)

lemma count_one:
  "distinct (map rsv_id rs) \<Longrightarrow> find (\<lambda>r. rsv_id r = i) rs = Some r \<Longrightarrow> rsv_status r = Reserved \<Longrightarrow>
   count_rows (\<lambda>x. rsv_id x = i \<and> rsv_status x = Reserved) rs = 1"
  using count_hit [of rs i] find_Some_iff_mem [of "\<lambda>r. rsv_id r = i" rs r] count_rows_0 [of "\<lambda>x. rsv_id x = i \<and> rsv_status x = Reserved" rs]
  by (auto simp: le_Suc_eq)

lemma settle_quota_runs:
  assumes "distinct (map rsv_id (reservations d))" "find (\<lambda>r. rsv_id r = i) (reservations d) = Some r"
    "rsv_status r = Reserved" "0 \<le> n"
  shows "\<exists>rs. settle_quota_reservation i n st t d = Inr (1, d\<lparr>reservations := rs\<rparr>)"
  using assms count_one [OF assms(1-3)] by (auto simp: settle_quota_reservation_def Let_def)

lemma settle_tx_runs:
  assumes "faults w = []" and "settleable res (db w)" and "0 \<le> n" and "n \<le> res_reserved res"
  shows "\<exists>w'. settle_tx res n t w = (Inr (), w') \<and> faults w' = []"
proof -
  obtain r where r: "find (\<lambda>r. rsv_id r = res_id res) (reservations (db w)) = Some r" "rsv_status r = Reserved"
    "rsv_actor_type r = act_type (res_actor res)" "rsv_actor_id r = act_id (res_actor res)" "rsv_reserved r = res_reserved res"
    and uniq: "distinct (map rsv_id (reservations (db w)))" and guests: "list_all guest_counters_ok (guest_sessions (db w))"
    using assms(2) by (auto simp: settleable_def)
  let ?refund = "rsv_reserved r - n"
  have refunds: "\<exists>w1. (if 0 < ?refund
      then bindE (if act_type (res_actor res) = Guest
             then wrap_err ''refund guest allowance'' (db_exec (adjust_guest_output (- ?refund) t (act_id (res_actor res))))
             else wrap_err ''refund user allowance'' (db_exec (adjust_daily_output (- ?refund) t User (act_id (res_actor res)) (rsv_date r)))) (\<lambda>_.
           wrap_err ''refund global allowance'' (db_exec (adjust_daily_output (- ?refund) t Global uuid_nil (rsv_date r))))
      else ok ()) w = (Inr (), w1) \<and> faults w1 = [] \<and> reservations (db w1) = reservations (db w)"
  proof (cases "0 < ?refund")
    case True
    then obtain gs where "adjust_guest_output (- ?refund) t (act_id (res_actor res)) (db w) = Inr ((), (db w)\<lparr>guest_sessions := gs\<rparr>)"
      using adjust_guest_runs [OF guests, of "- ?refund"] by auto
    with True assms(1) show ?thesis
      by (simp add: db_exec_def call_def op_defs adjust_daily_output_def)
  next
    case False
    then show ?thesis using assms(1) by (simp add: ok_def)
  qed
  then obtain w1 where d: "(if 0 < ?refund
      then bindE (if act_type (res_actor res) = Guest
             then wrap_err ''refund guest allowance'' (db_exec (adjust_guest_output (- ?refund) t (act_id (res_actor res))))
             else wrap_err ''refund user allowance'' (db_exec (adjust_daily_output (- ?refund) t User (act_id (res_actor res)) (rsv_date r)))) (\<lambda>_.
           wrap_err ''refund global allowance'' (db_exec (adjust_daily_output (- ?refund) t Global uuid_nil (rsv_date r))))
      else ok ()) w = (Inr (), w1)" "faults w1 = []" "reservations (db w1) = reservations (db w)" by blast
  obtain rs where rs: "settle_quota_reservation (res_id res) n (if n = 0 then Refunded else Committed) t (db w1)
      = Inr (1, (db w1)\<lparr>reservations := rs\<rparr>)"
    using settle_quota_runs [of "db w1" "res_id res" r n] uniq r assms(3) d(3) by auto
  have "db_exec (settle_quota_reservation (res_id res) n (if n = 0 then Refunded else Committed) t) w1
      = (Inr 1, w1\<lparr>db := (db w1)\<lparr>reservations := rs\<rparr>\<rparr>)"
    using rs d(2) by (simp add: db_exec_def)
  with r d have "settle_found res n t r w = (Inr (), w1\<lparr>db := (db w1)\<lparr>reservations := rs\<rparr>\<rparr>)"
    unfolding settle_found_def Let_def by (simp add: wrap_err_def ok_def)
  moreover have "db_read (lock_quota_reservation (res_id res)) w = (Inr r, w)"
    using assms(1) r by (simp add: db_read_def lock_quota_reservation_def)
  ultimately show ?thesis
    using d(2) by (auto simp: settle_tx_def attempt_def bindE_def)
qed

section \<open>Operations without faults\<close>

abbreviation calm :: "world \<Rightarrow> bool" where
  "calm w \<equiv> faults w = []"

lemma calm_redis [keeps_intros]:
  "keeps calm (publish t p)" "keeps calm (next_sequence ns i ttl)"
  "keeps calm (append_replay ns i n p l ttl)" "keeps calm (release_lease ns i own)"
proof -
  have "faults (snd (incr k w)) = faults w" for k w
    by (auto simp: incr_def split: option.splits redis_value.splits)
  moreover have "faults (expire_key k ttl w) = faults w" for k w
    by (simp add: expire_key_def split: option.split)
  ultimately show "keeps calm (next_sequence ns i ttl)"
    unfolding next_sequence_def by (intro keeps_intros keeps_no_faults_call) simp_all
qed (auto simp: publish_def append_replay_def release_lease_def Let_def intro!: keeps_intros keeps_no_faults_call
    split: option.splits redis_value.splits)

lemma calm_emit [keeps_intros]: "keeps calm (emit a kind request j)"
  unfolding emit_def by (intro keeps_intros)

lemma calm_runtime [keeps_intros]: "keeps calm runtime_settings"
  unfolding runtime_settings_def by (rule keeps_no_faults_settings)

lemma calm_settle_tx: "keeps calm (settle_tx res n t)"
  unfolding settle_tx_def settle_found_def by (intro keeps_intros)

text \<open>An environment that answers: its sources use no fault up, and their errors are not the gateway's.\<close>

locale chat_env_live = chat_env +
  assumes categories_calm: "chs_categories S = Some c \<Longrightarrow> keeps calm c"
    and reporter_calm: "chs_reporter S = Some r \<Longrightarrow> keeps calm (r x)"
    and release_calm: "keeps calm (lim_release (qs_limiter (chs_quota S)) ns i own)"
    and categories_error: "chs_categories S = Some c \<Longrightarrow> c w = (Inl e, w') \<Longrightarrow> provider_error_in e = None"
    and policy_error: "chs_safety S = Some p \<Longrightarrow> p stage content cs = Inl e \<Longrightarrow> provider_error_in e = None"
begin

lemma calm_safety: "keeps calm (check_safety S stage content)" "keeps calm (report_safety S stage category request)"
  unfolding check_safety_def report_safety_def
  by (cases "chs_safety S"; cases "chs_categories S"; simp; intro keeps_intros categories_calm; simp)
    (cases "chs_reporter S"; simp; intro keeps_intros reporter_calm; simp)

lemma safety_error: "check_safety S stage content w = (Inl e, w') \<Longrightarrow> provider_error_in e = None"
  unfolding check_safety_def
  by (cases "chs_safety S"; cases "chs_categories S"; simp)
    (auto simp: wrap_err_def split: prod.splits sum.splits elim!: bindE_errE,
     erule (1) categories_error, erule (1) policy_error)

lemma settle_runs:
  assumes "calm w" and "settleable res (db w)" and "0 \<le> n" and "n \<le> res_reserved res"
    and "settle (chs_quota S) res n w = (r, w')"
  shows "settled_in res (db w') \<and> calm w'"
proof -
  obtain w1 where tx: "settle_tx res n (now w) w = (Inr (), w1)" "calm w1"
    using settle_tx_runs [OF assms(1-4), of "now w"] by auto
  have tr: "within_transaction (settle_tx res n (now w)) w = (Inr (), w1)"
    by (rule within_transaction_run) (simp_all add: assms(1) tx)
  let ?release = "lim_release (qs_limiter (chs_quota S)) ''generation'' (uuid_string (act_id (res_actor res))) (res_owner res)"
  have "settle (chs_quota S) res n w = (Inr (), snd (?release w1))"
    using assms(3,4) by (simp add: settle_def deferred_def bindE_def clock_now_def tr)
  then have r: "r = Inr ()" and w': "w' = snd (?release w1)"
    using assms(5) by auto
  then have "settle_db res n (now w) (db w) (db w')"
    using quota.settle_okD assms(5) unfolding r by blast
  then have "settled_in res (db w')"
    unfolding settled_in_def by (rule settle_db_closed) blast
  then show ?thesis using keepsD [OF release_calm tx(2)] w' by simp
qed

end

section \<open>Open and closed generations\<close>

text \<open>The rows of a stream: its generation is active, its message pending with what was streamed so far.\<close>

definition open_rows :: "accepted_generation \<Rightarrow> string \<Rightarrow> database \<Rightarrow> bool" where
  "open_rows acc content d \<longleftrightarrow> chat_ok d \<and> settleable (acc_reservation acc) d
     \<and> (\<exists>g. find (\<lambda>g. gen_id g = gen_id (acc_generation acc)) (generations d) = Some g \<and> active g)
     \<and> (\<exists>m. find (\<lambda>m. msg_id m = gen_assistant_message_id (acc_generation acc)) (messages d) = Some m
          \<and> msg_status m = Pending \<and> msg_role m = MsgAssistant \<and> msg_content m = content)"

definition stream_open :: "accepted_generation \<Rightarrow> string \<Rightarrow> world \<Rightarrow> bool" where
  "stream_open acc content w \<longleftrightarrow> calm w \<and> open_rows acc content (db w)"

text \<open>How a stream ends.\<close>

record ending =
  en_status :: generation_status
  en_retryable :: bool
  en_message :: message_status
  en_content :: string

definition idle_conversation :: "uuid \<Rightarrow> database \<Rightarrow> bool" where
  "idle_conversation i d \<longleftrightarrow>
     list_all (\<lambda>c. conv_id c = i \<and> conv_deleted_at c = None \<longrightarrow> conv_gen_state c = Idle) (conversations d)"

definition closed :: "accepted_generation \<Rightarrow> ending \<Rightarrow> database \<Rightarrow> bool" where
  "closed acc e d \<longleftrightarrow>
     (\<exists>g. find (\<lambda>g. gen_id g = gen_id (acc_generation acc)) (generations d) = Some g
        \<and> gen_status g = en_status e \<and> gen_retryable g = en_retryable e)
     \<and> (\<exists>m. find (\<lambda>m. msg_id m = gen_assistant_message_id (acc_generation acc)) (messages d) = Some m
        \<and> msg_status m = en_message e \<and> msg_content m = en_content e)
     \<and> idle_conversation (gen_conversation_id (acc_generation acc)) d
     \<and> settled_in (acc_reservation acc) d"

lemma open_rows_content: "open_rows acc content d \<Longrightarrow> content_ok content"
  by (auto simp: open_rows_def chat_ok_def message_ok_def list_all_iff dest!: find_Some_iff_mem)

lemma keeps_open_rowsI:
  "keeps calm m \<Longrightarrow> keeps (\<lambda>w. open_rows acc content (db w)) m \<Longrightarrow> keeps (stream_open acc content) m"
  unfolding stream_open_def by (rule keeps_conj)

text \<open>Queries that leave an open stream open.\<close>

lemma open_rows_generations:
  assumes "open_rows acc content d" and "chat_ok (d\<lparr>generations := upd_rows P f (generations d)\<rparr>)"
    and "\<And>g. P g \<Longrightarrow> gen_id (f g) = gen_id g" and "\<And>g. P g \<Longrightarrow> active g \<Longrightarrow> active (f g)"
  shows "open_rows acc content (d\<lparr>generations := upd_rows P f (generations d)\<rparr>)"
proof -
  have "find (\<lambda>g. gen_id g = i) (upd_rows P f (generations d))
      = map_option (\<lambda>g. if P g then f g else g) (find (\<lambda>g. gen_id g = i) (generations d))" for i
    by (rule find_upd_rows) (simp add: assms(3))
  moreover obtain g where "find (\<lambda>g. gen_id g = gen_id (acc_generation acc)) (generations d) = Some g" "active g"
    using assms(1) by (auto simp: open_rows_def)
  ultimately have "\<exists>g. find (\<lambda>g. gen_id g = gen_id (acc_generation acc)) (upd_rows P f (generations d)) = Some g \<and> active g"
    using assms(4) by (cases "P g") auto
  then show ?thesis
    using assms(1,2) by (simp add: open_rows_def settleable_def)
qed

lemma mark_open:
  assumes "mark_generation_streaming t i d = Inr (x, d')" and "open_rows acc content d"
  shows "open_rows acc content d'"
proof -
  have d': "d' = d\<lparr>generations := upd_rows (\<lambda>g. gen_id g = i \<and> gen_status g = Accepted)
      (\<lambda>g. g\<lparr>gen_status := Streaming, gen_started_at := Some (or_old (gen_started_at g) t), gen_updated_at := t\<rparr>) (generations d)\<rparr>"
    using assms(1) by (auto simp: mark_generation_streaming_def Let_def split: option.splits)
  moreover have "chat_ok d'" using assms mark_chat_ok by (auto simp: open_rows_def)
  ultimately show ?thesis
    using assms(2) by (auto simp: active_def intro!: open_rows_generations)
qed

lemma checkpoint_open:
  assumes "checkpoint_generation n k t i d = Inr (x, d')" and "open_rows acc content d"
  shows "open_rows acc content d'"
proof -
  have d': "d' = d\<lparr>generations := upd_rows (\<lambda>g. gen_id g = i \<and> gen_status g = Streaming \<and> gen_stream_offset g \<le> n)
      (\<lambda>g. g\<lparr>gen_stream_offset := n, gen_output_tokens := k, gen_updated_at := t\<rparr>) (generations d)\<rparr>"
    using assms(1) by (auto simp: checkpoint_generation_def Let_def split: if_splits)
  moreover have "chat_ok d'" using assms checkpoint_chat_ok by (auto simp: open_rows_def)
  ultimately show ?thesis
    using assms(2) by (auto simp: active_def intro!: open_rows_generations)
qed

lemma state_open:
  assumes "set_conversation_generation_state st t i d = Inr (x, d')" and "open_rows acc content d"
  shows "open_rows acc content d'"
proof -
  obtain cs where d': "d' = d\<lparr>conversations := cs\<rparr>"
    using assms(1) by (auto simp: set_conversation_generation_state_def Let_def)
  moreover have "chat_ok d'"
    using assms chat_view_ok conversation_same_chat(1) [OF assms(1)] by (auto simp: open_rows_def chat_view_def)
  ultimately show ?thesis using assms(2) by (simp add: open_rows_def settleable_def)
qed

lemma append_open:
  assumes "append_assistant_message delta t (gen_assistant_message_id (acc_generation acc)) d = Inr (x, d')"
    and "open_rows acc content d"
  shows "open_rows acc (content @ delta) d'"
proof -
  let ?hit = "\<lambda>m. msg_id m = gen_assistant_message_id (acc_generation acc) \<and> msg_role m = MsgAssistant \<and> msg_status m = Pending"
  let ?upd = "\<lambda>m. m\<lparr>msg_content := msg_content m @ delta, msg_status := Pending, msg_updated_at := t\<rparr>"
  have d': "d' = d\<lparr>messages := upd_rows ?hit ?upd (messages d)\<rparr>"
    using assms(1) by (auto simp: append_assistant_message_def Let_def split: if_splits option.splits)
  have "find (\<lambda>m. msg_id m = i) (upd_rows ?hit ?upd (messages d))
      = map_option (\<lambda>m. if ?hit m then ?upd m else m) (find (\<lambda>m. msg_id m = i) (messages d))" for i
    by (rule find_upd_rows) auto
  moreover obtain m where m: "find (\<lambda>m. msg_id m = gen_assistant_message_id (acc_generation acc)) (messages d) = Some m"
      "msg_status m = Pending" "msg_role m = MsgAssistant" "msg_content m = content"
    using assms(2) by (auto simp: open_rows_def)
  ultimately have "find (\<lambda>m. msg_id m = gen_assistant_message_id (acc_generation acc)) (messages d') = Some (?upd m)"
    using find_Some_iff_mem [OF m(1)] by (simp add: d')
  moreover have "chat_ok d'" using assms append_chat_ok by (auto simp: open_rows_def)
  moreover have "settleable (acc_reservation acc) d'" "generations d' = generations d"
    using assms(2) by (simp_all add: d' open_rows_def settleable_def)
  ultimately show ?thesis
    using assms(2) m(3,4) by (simp add: open_rows_def)
qed

section \<open>Closing\<close>

text \<open>A conversation's state and the rows of a closed stream are left alone by what follows.\<close>

definition final_rows :: "accepted_generation \<Rightarrow> ending \<Rightarrow> database \<Rightarrow> bool" where
  "final_rows acc e d \<longleftrightarrow>
     (\<exists>g. find (\<lambda>g. gen_id g = gen_id (acc_generation acc)) (generations d) = Some g
        \<and> gen_status g = en_status e \<and> gen_retryable g = en_retryable e)
     \<and> (\<exists>m. find (\<lambda>m. msg_id m = gen_assistant_message_id (acc_generation acc)) (messages d) = Some m
        \<and> msg_status m = en_message e \<and> msg_content m = en_content e)
     \<and> idle_conversation (gen_conversation_id (acc_generation acc)) d"

lemma closed_final: "closed acc e d \<longleftrightarrow> final_rows acc e d \<and> settled_in (acc_reservation acc) d"
  by (auto simp: closed_def final_rows_def)

lemma quota_conversations [chat_frames]:
  "increment_guest_allowance n t g a b d = Inr (x, d') \<Longrightarrow> conversations d' = conversations d"
  "adjust_guest_output n t g d = Inr (y, d') \<Longrightarrow> conversations d' = conversations d"
  "adjust_daily_output n t k i dt d = Inr (y, d') \<Longrightarrow> conversations d' = conversations d"
  "settle_quota_reservation i n st t d = Inr (v, d') \<Longrightarrow> conversations d' = conversations d"
  by (auto simp: increment_guest_allowance_def adjust_guest_output_def
      adjust_daily_output_def settle_quota_reservation_def Let_def split: if_splits option.splits)

definition stream_view :: "(database \<Rightarrow> bool) \<Rightarrow> bool" where
  "stream_view P \<longleftrightarrow> (\<forall>d d'. messages d' = messages d \<and> generations d' = generations d \<and> conversations d' = conversations d
     \<longrightarrow> P d' = P d)"

lemma stream_view_final: "stream_view (final_rows acc e)"
  by (simp add: stream_view_def final_rows_def idle_conversation_def)

lemma stream_view_exec:
  "stream_view P \<Longrightarrow> (\<And>d x d'. q d = Inr (x, d') \<Longrightarrow> messages d' = messages d \<and> generations d' = generations d
     \<and> conversations d' = conversations d) \<Longrightarrow> keeps (\<lambda>w. P (db w)) (db_exec q)"
  unfolding stream_view_def by (rule keeps_db_exec) metis

lemma keeps_settle_tx_view: "stream_view P \<Longrightarrow> keeps (\<lambda>w. P (db w)) (settle_tx res n t)"
  unfolding settle_tx_def settle_found_def
  by (intro keeps_intros stream_view_exec)
    (auto dest: quota_same_chat [unfolded same_chat_def] quota_conversations)

context quota_contract
begin

lemma keeps_settle_view: "stream_view P \<Longrightarrow> keeps (\<lambda>w. P (db w)) (settle S res n)"
  unfolding settle_def
  by (intro keeps_intros keeps_settle_tx_view keeps_pred [OF release_db])

end

lemma keeps_record_view: "stream_view P \<Longrightarrow> keeps (\<lambda>w. P (db w)) (record_usage acc u t)"
  unfolding record_usage_def
  by (intro keeps_intros stream_view_exec) (auto simp: create_usage_ledger_entry_def split: if_splits)

lemma calm_record_usage: "keeps calm (record_usage acc u t)"
  unfolding record_usage_def by (intro keeps_intros)

lemma keeps_record_settleable: "keeps (\<lambda>w. settleable res (db w)) (record_usage acc u t)"
  unfolding record_usage_def
  by (intro keeps_intros keeps_db_exec) (auto simp: create_usage_ledger_entry_def settleable_def split: if_splits)

lemma record_usage_ok: "record_usage acc u t w = (r, w') \<Longrightarrow> r = Inr ()"
  by (auto simp: record_usage_def bindE_def attempt_def dropped_def split: prod.splits sum.splits)

lemma finalize_generation_rows:
  assumes "open_rows acc content d" and "final_ok v" and "text_ok (fin_reason v)"
    "opt_all text_ok (fin_code v)" "opt_all text_ok (fin_request v)"
  obtains g gs where "finalize_generation v t (gen_id (acc_generation acc)) d = Inr (g, d\<lparr>generations := gs\<rparr>)"
    "\<exists>g. find (\<lambda>g. gen_id g = gen_id (acc_generation acc)) gs = Some g \<and> gen_status g = fin_status v
       \<and> gen_retryable g = fin_retryable v"
proof -
  let ?i = "gen_id (acc_generation acc)"
  let ?upd = "\<lambda>g. g\<lparr>gen_status := fin_status v, gen_retryable := fin_retryable v,
                      gen_finish_reason := Some (fin_reason v), gen_error_code := fin_code v,
                      gen_input_tokens := fin_input v, gen_output_tokens := fin_output v,
                      gen_cached_tokens := fin_cached v, gen_stream_offset := fin_offset v,
                      gen_provider_request_id := fin_request v, gen_completed_at := Some t, gen_updated_at := t\<rparr>"
  obtain g where g: "find (\<lambda>g. gen_id g = ?i) (generations d) = Some g" "active g"
    using assms(1) by (auto simp: open_rows_def)
  then have "find (\<lambda>g. gen_id g = ?i \<and> active g) (generations d) = Some g" by (rule find_conj)
  then have run: "finalize_generation v t ?i d
      = Inr (?upd g, d\<lparr>generations := upd_rows (\<lambda>g. gen_id g = ?i \<and> active g) ?upd (generations d)\<rparr>)"
    using assms(2-5) by (simp add: finalize_generation_def Let_def)
  have "find (\<lambda>g. gen_id g = ?i) (upd_rows (\<lambda>g. gen_id g = ?i \<and> active g) ?upd (generations d))
      = map_option (\<lambda>g. if gen_id g = ?i \<and> active g then ?upd g else g) (find (\<lambda>g. gen_id g = ?i) (generations d))"
    by (rule find_upd_rows) auto
  with g find_Some_iff_mem [OF g(1)] show thesis by (intro that [OF run]) simp
qed

lemma finalize_message_rows:
  assumes "open_rows acc content d"
  obtains n ms where "finalize_message st t (gen_assistant_message_id (acc_generation acc)) d' = Inr (n, d'\<lparr>messages := ms\<rparr>)"
    "messages d' = messages d \<Longrightarrow>
     \<exists>m. find (\<lambda>m. msg_id m = gen_assistant_message_id (acc_generation acc)) ms = Some m \<and> msg_status m = st \<and> msg_content m = content"
proof -
  let ?i = "gen_assistant_message_id (acc_generation acc)"
  let ?upd = "\<lambda>m. m\<lparr>msg_status := st, msg_updated_at := t\<rparr>"
  obtain m where m: "find (\<lambda>m. msg_id m = ?i) (messages d) = Some m" "msg_status m = Pending" "msg_content m = content"
    using assms by (auto simp: open_rows_def)
  have "find (\<lambda>m. msg_id m = ?i) (upd_rows (\<lambda>m. msg_id m = ?i \<and> msg_status m = Pending) ?upd (messages d))
      = map_option (\<lambda>m. if msg_id m = ?i \<and> msg_status m = Pending then ?upd m else m) (find (\<lambda>m. msg_id m = ?i) (messages d))"
    by (rule find_upd_rows) auto
  with m find_Some_iff_mem [OF m(1)]
  have "\<exists>m. find (\<lambda>m. msg_id m = ?i) (upd_rows (\<lambda>m. msg_id m = ?i \<and> msg_status m = Pending) ?upd (messages d)) = Some m
      \<and> msg_status m = st \<and> msg_content m = content" by simp
  then have ex: "messages d' = messages d \<Longrightarrow>
      \<exists>m. find (\<lambda>m. msg_id m = ?i) (upd_rows (\<lambda>m. msg_id m = ?i \<and> msg_status m = Pending) ?upd (messages d')) = Some m
      \<and> msg_status m = st \<and> msg_content m = content" by (simp only:)
  show thesis
    by (rule that [OF _ ex]) (simp_all only: finalize_message_def Let_def)
qed

lemma idle_rows:
  "list_all (\<lambda>c. conv_id c = i \<and> conv_deleted_at c = None \<longrightarrow> conv_gen_state c = Idle)
     (upd_rows (\<lambda>c. conv_id c = i \<and> conv_deleted_at c = None) (\<lambda>c. c\<lparr>conv_gen_state := Idle, conv_updated_at := t\<rparr>) cs)"
  by (induction cs) auto

lemma state_idle:
  obtains n cs where "set_conversation_generation_state Idle t i d = Inr (n, d\<lparr>conversations := cs\<rparr>)"
    "idle_conversation i (d\<lparr>conversations := cs\<rparr>)"
proof (rule that)
  let ?cs = "upd_rows (\<lambda>c. conv_id c = i \<and> conv_deleted_at c = None)
    (\<lambda>c. c\<lparr>conv_gen_state := Idle, conv_updated_at := t\<rparr>) (conversations d)"
  show "set_conversation_generation_state Idle t i d
      = Inr (count_rows (\<lambda>c. conv_id c = i \<and> conv_deleted_at c = None) (conversations d), d\<lparr>conversations := ?cs\<rparr>)"
    by (simp add: set_conversation_generation_state_def Let_def)
  show "idle_conversation i (d\<lparr>conversations := ?cs\<rparr>)"
    using idle_rows [of i t "conversations d"] by (simp add: idle_conversation_def)
qed

text \<open>\<open>close_generation\<close> closes an open stream.\<close>

definition ending_of :: "final_values \<Rightarrow> message_status \<Rightarrow> string \<Rightarrow> ending" where
  "ending_of v st content = \<lparr>en_status = fin_status v, en_retryable = fin_retryable v, en_message = st, en_content = content\<rparr>"

lemma dropped_exec:
  "calm w \<Longrightarrow> q (db w) = Inr (x, d) \<Longrightarrow> dropped (db_exec q) w = (Inr (), w\<lparr>db := d\<rparr>)"
  by (simp add: dropped_def db_exec_def)

context chat_env_live
begin

lemma close_closes:
  assumes "stream_open acc content w" and "final_ok v" and "text_ok (fin_reason v)"
    and "opt_all text_ok (fin_code v)" and "opt_all text_ok (fin_request v)" and "0 \<le> int32 (tu_output u)"
    and run: "close_generation S acc v st u w = (r, w')"
  shows "r = Inr () \<and> calm w' \<and> closed acc (ending_of v st content) (db w')"
proof -
  let ?i = "gen_id (acc_generation acc)" and ?m = "gen_assistant_message_id (acc_generation acc)"
  let ?c = "gen_conversation_id (acc_generation acc)" and ?res = "acc_reservation acc"
  let ?actual = "min (int32 (tu_output u)) (res_reserved ?res)"
  have calm: "calm w" and rows: "open_rows acc content (db w)" using assms(1) by (auto simp: stream_open_def)
  obtain g gs where gen: "finalize_generation v (now w) ?i (db w) = Inr (g, (db w)\<lparr>generations := gs\<rparr>)"
    "\<exists>g. find (\<lambda>g. gen_id g = ?i) gs = Some g \<and> gen_status g = fin_status v \<and> gen_retryable g = fin_retryable v"
    by (rule finalize_generation_rows [OF rows assms(2-5)])
  define d1 where "d1 = (db w)\<lparr>generations := gs\<rparr>"
  obtain n ms where msg: "finalize_message st (now w) ?m d1 = Inr (n, d1\<lparr>messages := ms\<rparr>)"
    "\<exists>m. find (\<lambda>m. msg_id m = ?m) ms = Some m \<and> msg_status m = st \<and> msg_content m = content"
    by (rule finalize_message_rows [OF rows, of st "now w" d1]) (simp add: d1_def)
  define d2 where "d2 = d1\<lparr>messages := ms\<rparr>"
  obtain k cs where conv: "set_conversation_generation_state Idle (now w) ?c d2 = Inr (k, d2\<lparr>conversations := cs\<rparr>)"
    "idle_conversation ?c (d2\<lparr>conversations := cs\<rparr>)"
    by (rule state_idle)
  define d3 where "d3 = d2\<lparr>conversations := cs\<rparr>"
  let ?w3 = "w\<lparr>db := d3\<rparr>"
  have steps: "dropped (db_exec (finalize_generation v (now w) ?i)) w = (Inr (), w\<lparr>db := d1\<rparr>)"
    "dropped (db_exec (finalize_message st (now w) ?m)) (w\<lparr>db := d1\<rparr>) = (Inr (), w\<lparr>db := d2\<rparr>)"
    "dropped (db_exec (set_conversation_generation_state Idle (now w) ?c)) (w\<lparr>db := d2\<rparr>) = (Inr (), ?w3)"
    using calm gen(1) msg(1) conv(1) unfolding d1_def [symmetric] d2_def [symmetric] d3_def [symmetric]
    by (simp_all add: dropped_exec)
  obtain r4 w4 where usage: "record_usage acc u (now w) ?w3 = (r4, w4)" by fastforce
  have final3: "final_rows acc (ending_of v st content) d3"
    using gen(2) msg(2) conv(2) unfolding d3_def [symmetric]
    by (simp add: final_rows_def ending_of_def) (simp add: d3_def d2_def d1_def)
  have final4: "final_rows acc (ending_of v st content) (db w4)"
    using keepsD_eq [OF keeps_record_view [OF stream_view_final] _ usage] final3 by simp
  have "settleable ?res d3" using rows by (simp add: open_rows_def settleable_def d3_def d2_def d1_def)
  then have calm4: "calm w4" "settleable ?res (db w4)" "r4 = Inr ()"
    using usage calm keepsD_eq [OF calm_record_usage _ usage] keepsD_eq [OF keeps_record_settleable _ usage]
      record_usage_ok [OF usage] by simp_all
  obtain r5 w5 where settle: "settle (chs_quota S) ?res ?actual w4 = (r5, w5)" by fastforce
  have "settled_in ?res (db w5) \<and> calm w5"
    using settle_runs [OF calm4(1,2) _ _ settle] assms(6) calm4(2) by (simp add: settleable_def)
  moreover have "final_rows acc (ending_of v st content) (db w5)"
    using keepsD_eq [OF quota.keeps_settle_view [OF stream_view_final] _ settle] final4 by simp
  moreover have "dropped (settle (chs_quota S) ?res ?actual) w4 = (Inr (), w5)" by (simp add: dropped_def settle)
  then have "(r, w') = (Inr (), w5)"
    using run usage calm4(3) unfolding close_generation_def by (simp add: steps bindE_def clock_now_def)
  ultimately show ?thesis by (simp add: closed_final)
qed

text \<open>Whatever comes after the closing leaves it closed.\<close>

lemma closed_emit: "keeps (\<lambda>w. closed acc e (db w)) (emit a kind request j)"
  by (rule keeps_db_emit)

lemma title_closed:
  "set_generated_conversation_title title t i d = Inr (n, d') \<Longrightarrow> closed acc e d \<Longrightarrow> closed acc e d'"
  by (auto simp: set_generated_conversation_title_def closed_def idle_conversation_def settled_in_def list_all_iff
      set_upd_rows Let_def split: if_splits)

lemma closed_title: "keeps (\<lambda>w. closed acc e (db w)) (generate_title acc')"
  unfolding generate_title_def by (intro keeps_intros keeps_db_exec) (rule title_closed)

lemma bind_closed:
  assumes "bindE m f w = (r, w')" and "\<And>r1 w1. m w = (r1, w1) \<Longrightarrow> r1 = Inr x \<and> I w1" and "keeps I (f x)"
  shows "I w'"
proof -
  obtain r1 w1 where m: "m w = (r1, w1)" by fastforce
  then have "r1 = Inr x" "I w1" using assms(2) by auto
  with m assms(1) have "f x w1 = (r, w')" by simp
  then show ?thesis using keepsD_eq [OF assms(3) \<open>I w1\<close>] by simp
qed

end

section \<open>The usage a gateway reports\<close>

definition sane_usage :: "token_usage \<Rightarrow> bool" where
  "sane_usage u \<longleftrightarrow> 0 \<le> tu_input u \<and> tu_input u < 2 ^ 31 \<and> 0 \<le> tu_output u \<and> tu_output u < 2 ^ 31
     \<and> 0 \<le> tu_cached u \<and> tu_cached u < 2 ^ 31"

definition sane_error :: "error \<Rightarrow> bool" where
  "sane_error e \<longleftrightarrow> text_ok (error_code (normalize_error e))"

definition sane_answer :: "chunk \<times> error option \<Rightarrow> bool" where
  "sane_answer a \<longleftrightarrow> opt_all sane_usage (ch_usage (fst a)) \<and> text_ok (ch_request_id (fst a)) \<and> opt_all sane_error (snd a)"

definition sane_gateway :: "gateway \<Rightarrow> bool" where
  "sane_gateway gw \<longleftrightarrow> (\<forall>q. case gw q of Inl e \<Rightarrow> sane_error e | Inr answers \<Rightarrow> list_all sane_answer answers)"

lemma sane_gatewayD: "sane_gateway gw \<Longrightarrow> gw q = Inr answers \<Longrightarrow> list_all sane_answer answers"
  "sane_gateway gw \<Longrightarrow> gw q = Inl e \<Longrightarrow> sane_error e"
  unfolding sane_gateway_def by (metis sum.case)+

definition sane_context :: "accepted_generation \<Rightarrow> bool" where
  "sane_context acc \<longleftrightarrow> estimate_messages (acc_messages acc) < 2 ^ 31"

definition sane_progress :: "progress \<Rightarrow> bool" where
  "sane_progress p \<longleftrightarrow> sane_usage (pr_usage p) \<and> text_ok (pr_request p) \<and> pr_finish p \<noteq> NoFinish"

lemma sane_absorb: "sane_progress p \<Longrightarrow> sane_answer (c, e) \<Longrightarrow> sane_progress (absorb c p)"
  by (auto simp: sane_progress_def sane_answer_def absorb_def opt_all_def split: option.splits)

lemma text_ok_codes: "text_ok ''provider_timeout''" "text_ok ''provider_unavailable''" "text_ok ''safety_blocked''"
    "text_ok ''stop''" "text_ok ''length''" "text_ok ''cancelled''" "text_ok ''safety''" "text_ok ''error''" "text_ok []"
  by (simp add: text_ok_def valid_utf8_def decode_runes_ascii rune_error_def)+

lemma sane_error_plain: "provider_error_in e = None \<Longrightarrow> sane_error e"
  by (simp add: sane_error_def normalize_error_def text_ok_codes)

lemma sane_fill:
  assumes "sane_usage u" and "content_ok content" and "sane_context acc"
  shows "sane_usage (fill_usage acc content u)"
proof -
  have "0 \<le> estimate_tokens s" for s by (simp add: estimate_tokens_def)
  then have "0 \<le> estimate_messages ms" for ms by (induction ms) (simp_all add: estimate_messages_def)
  then show ?thesis
    using assms content_sizes [OF assms(2)] by (auto simp: fill_usage_def sane_usage_def sane_context_def Let_def)
qed

lemma final_of_ok:
  assumes "sane_usage u" and "content_ok content" and "st \<in> {Completed, Cancelled, Failed, Rejected}"
    and "reason \<in> {''stop'', ''length'', ''cancelled'', ''safety'', ''error''}"
  shows "final_ok (final_of st b reason code u content request)" "text_ok reason" "0 \<le> int32 (tu_output u)"
  using assms content_sizes [OF assms(2)]
  by (auto simp: final_ok_def final_of_def sane_usage_def int32_small text_ok_codes)

lemma close_result: "close_generation S acc v st u w = (r, w') \<Longrightarrow> r = Inr ()"
  by (auto simp: close_generation_def bindE_def clock_now_def dropped_def split: prod.splits sum.splits dest: record_usage_ok)

lemma fail_result: "fail_generation S acc e request u w = (r, w') \<Longrightarrow> r = Inr ()"
  by (auto simp: fail_generation_def bindE_def attempt_def dropped_def Let_def split: prod.splits sum.splits dest: close_result)

lemma block_result: "block_safety S acc content u request w = (r, w') \<Longrightarrow> r = Inr ()"
  by (auto simp: block_safety_def bindE_def attempt_def dropped_def Let_def split: prod.splits sum.splits dest: close_result)

section \<open>Every stream ends\<close>

text \<open>What a gateway delivers before its first error, and that error.\<close>

fun delivered :: "transcript \<Rightarrow> string" where
  "delivered [] = []"
| "delivered ((c, e) # rest) = ch_text c @ (if e = None then delivered rest else [])"

fun stream_error :: "transcript \<Rightarrow> error option" where
  "stream_error [] = None"
| "stream_error ((c, e) # rest) = (if e = None then stream_error rest else e)"

text \<open>
  The ending of a stream that had sent \<open>prior\<close>: completed or cancelled with everything delivered, according
  to the error of the gateway, or failed with a part of it.
\<close>

definition proper_ending :: "transcript \<Rightarrow> string \<Rightarrow> ending \<Rightarrow> bool" where
  "proper_ending answers prior e \<longleftrightarrow>
     (en_status e = Completed \<and> en_message e = Complete \<and> \<not> en_retryable e \<and> en_content e = prior @ delivered answers
        \<and> (\<exists>er. stream_error answers = Some er \<and> errors_is er EndOfFile))
     \<or> (en_status e = Cancelled \<and> en_message e = MsgCancelled \<and> \<not> en_retryable e \<and> en_content e = prior @ delivered answers
        \<and> (stream_error answers = None \<or> (\<exists>er. stream_error answers = Some er \<and> errors_is er ContextCanceled)))
     \<or> (en_status e = Failed \<and> en_message e = MsgFailed \<and> (\<exists>rest. en_content e @ rest = prior @ delivered answers))"

lemma proper_ending_step:
  "proper_ending rest (prior @ ch_text c) e \<Longrightarrow> proper_ending ((c, None) # rest) prior e"
  by (auto simp: proper_ending_def)

context chat_env_live
begin

lemma finish_closes:
  assumes "stream_open acc content w" and "sane_usage u" and "sane_context acc" and "text_ok request"
    and "status \<in> {Completed, Cancelled}" and "reason \<in> {''stop'', ''length'', ''cancelled'', ''safety'', ''error''}"
    and run: "finish_generation S acc status reason content u request w = (r, w')"
  shows "closed acc \<lparr>en_status = status, en_retryable = False,
    en_message = (if status = Cancelled then MsgCancelled else Complete), en_content = content\<rparr> (db w')"
proof -
  let ?u = "fill_usage acc content u" and ?reason = "if status = Cancelled then ''cancelled'' else reason"
  have content: "content_ok content" using assms(1) open_rows_content by (auto simp: stream_open_def)
  have sane: "sane_usage ?u" by (rule sane_fill [OF assms(2) content assms(3)])
  have ok: "final_ok (final_of status False ?reason None ?u content request)" "text_ok ?reason" "0 \<le> int32 (tu_output ?u)"
    using final_of_ok [OF sane content, of status ?reason] assms(5,6) by auto
  have "closed acc (ending_of (final_of status False ?reason None ?u content request)
      (if status = Cancelled then MsgCancelled else Complete) content) (db w1) \<and> r1 = Inr ()"
    if "close_generation S acc (final_of status False ?reason None ?u content request)
      (if status = Cancelled then MsgCancelled else Complete) ?u w = (r1, w1)" for r1 w1
    using close_closes [OF assms(1) ok(1) _ _ _ ok(3) that] ok(2) assms(4)
    by (auto simp: final_of_def opt_all_def optional_def)
  then show ?thesis
    using run unfolding finish_generation_def Let_def
    by (elim bind_closed [where x = "()"])
      (auto simp: ending_of_def final_of_def intro!: keeps_intros closed_emit closed_title)
qed

lemma fail_closes:
  assumes "stream_open acc content w" and "sane_usage u" and "sane_context acc" and "text_ok request" and "sane_error cause"
    and run: "fail_generation S acc cause request u w = (r, w')"
  shows "closed acc \<lparr>en_status = Failed, en_retryable = error_retryable (normalize_error cause),
    en_message = MsgFailed, en_content = content\<rparr> (db w')"
proof -
  let ?u = "fill_usage acc content u" and ?e = "normalize_error cause"
  let ?v = "final_of Failed (error_retryable ?e) ''error'' (Some (error_code ?e)) ?u content request"
  have rows: "calm w" "open_rows acc content (db w)" and content: "content_ok content"
    using assms(1) open_rows_content by (auto simp: stream_open_def)
  obtain m where m: "db_read (get_message (gen_assistant_message_id (acc_generation acc))) w = (Inr m, w)" "msg_content m = content"
    using rows by (auto simp: open_rows_def db_read_run get_message_def one_row_def)
  have sane: "sane_usage ?u" by (rule sane_fill [OF assms(2) content assms(3)])
  have ok: "final_ok ?v" "0 \<le> int32 (tu_output ?u)"
    using final_of_ok [OF sane content, of Failed "''error''"] by auto
  have closes: "closed acc (ending_of ?v MsgFailed content) (db w1) \<and> r1 = Inr ()"
    if "close_generation S acc ?v MsgFailed ?u w = (r1, w1)" for r1 w1
    using close_closes [OF assms(1) ok(1) _ _ _ ok(2) that] assms(4,5) text_ok_codes
    by (auto simp: final_of_def opt_all_def optional_def sane_error_def)
  have "bindE (close_generation S acc ?v MsgFailed ?u) (\<lambda>_. dropped (emit (acc_actor acc) ''chat.failed'' (acc_request acc)
        (JObj [(''code'', JStr (provider_failure_code ?e)), (''generationId'', JStr (uuid_string (gen_id (acc_generation acc)))),
          (''message'', JStr ''The model provider could not complete the response.''),
          (''partialContentRetained'', JBool (content \<noteq> [])), (''retryable'', JBool (error_retryable ?e))]))) w = (r, w')"
    using run m unfolding fail_generation_def Let_def by (simp add: attempt_def bindE_def)
  then have "closed acc (ending_of ?v MsgFailed content) (db w')"
    by (rule bind_closed [where x = "()"]) (auto dest: closes intro!: keeps_intros closed_emit)
  then show ?thesis by (simp add: ending_of_def final_of_def)
qed

lemma block_closes:
  assumes "stream_open acc content w" and "sane_usage u" and "sane_context acc" and "text_ok request"
    and run: "block_safety S acc content u request w = (r, w')"
  shows "closed acc \<lparr>en_status = Failed, en_retryable = False, en_message = MsgFailed, en_content = content\<rparr> (db w')"
proof -
  let ?u = "fill_usage acc content u"
  let ?v = "final_of Failed False ''safety'' (Some ''safety_blocked'') ?u content request"
  have content: "content_ok content" using assms(1) open_rows_content by (auto simp: stream_open_def)
  have sane: "sane_usage ?u" by (rule sane_fill [OF assms(2) content assms(3)])
  have ok: "final_ok ?v" "0 \<le> int32 (tu_output ?u)"
    using final_of_ok [OF sane content, of Failed "''safety''"] by auto
  have closes: "closed acc (ending_of ?v MsgFailed content) (db w1) \<and> r1 = Inr ()"
    if "close_generation S acc ?v MsgFailed ?u w = (r1, w1)" for r1 w1
    using close_closes [OF assms(1) ok(1) _ _ _ ok(2) that] assms(4) text_ok_codes
    by (auto simp: final_of_def opt_all_def optional_def)
  have "closed acc (ending_of ?v MsgFailed content) (db w')"
    using run unfolding block_safety_def Let_def
    by (rule bind_closed [where x = "()"]) (auto dest: closes intro!: keeps_intros closed_emit)
  then show ?thesis by (simp add: ending_of_def final_of_def)
qed

lemma keeps_open_safety:
  "keeps (stream_open acc content) (check_safety S stage s)"
  "keeps (stream_open acc content) (report_safety S stage s q)"
  by (rule keeps_open_rowsI, rule calm_safety, rule keeps_db_sources)+

lemma safety_open:
  "stream_open acc content w \<Longrightarrow> check_safety S stage s w = (r, w') \<Longrightarrow> stream_open acc content w'"
  "stream_open acc content w \<Longrightarrow> report_safety S stage s q w = (r', w') \<Longrightarrow> stream_open acc content w'"
  by (erule (1) keepsD_eq [OF keeps_open_safety(1)]) (erule (1) keepsD_eq [OF keeps_open_safety(2)])

lemma dropped_result: "dropped m w = (r, w') \<Longrightarrow> r = Inr ()"
  by (simp add: dropped_def)

lemma report_result: "report_safety S stage s q w = (r, w') \<Longrightarrow> r = Inr ()"
  by (auto simp: report_safety_def dropped_def split: option.splits)

text \<open>The writes after an append: checkpoint and event.\<close>

lemma sent_open:
  assumes "stream_open acc content w"
    and "bindE (dropped (db_exec (checkpoint_generation n k t i))) (\<lambda>_.
         bindE (dropped (emit a kind request j)) (\<lambda>_. ok p)) w = (r, w')"
  shows "r = Inr p \<and> stream_open acc content w'"
proof -
  have "keeps (stream_open acc content) (bindE (dropped (db_exec (checkpoint_generation n k t i))) (\<lambda>_.
         bindE (dropped (emit a kind request j)) (\<lambda>_. ok p)))"
    by (rule keeps_open_rowsI; intro keeps_intros keeps_db_exec) (erule (1) checkpoint_open)
  then have "stream_open acc content w'" using assms keepsD_eq by metis
  then show ?thesis using assms(2) by (auto simp: bindE_def dropped_def)
qed

lemma stream_text_cases:
  assumes opened: "stream_open acc (pr_content p) w" and p: "sane_progress p" and ctx: "sane_context acc"
    and run: "stream_text S acc s p w = (r, w')"
  obtains (sent) "r = Inr (Some (p\<lparr>pr_content := pr_content p @ s\<rparr>))" "stream_open acc (pr_content p @ s) w'"
  | (ended) e where "r = Inr None" "closed acc e (db w')" "en_status e = Failed" "en_message e = MsgFailed"
      "en_content e = pr_content p"
proof (cases "s = []")
  case True
  then show thesis using run opened by (intro sent) (auto simp: stream_text_def)
next
  case False
  have p': "sane_usage (pr_usage p)" "text_ok (pr_request p)" using p by (auto simp: sane_progress_def)
  have failing: thesis
    if "stream_open acc (pr_content p) w1" "sane_error e"
      "bindE (fail_generation S acc e (pr_request p) (pr_usage p)) (\<lambda>_. ok None) w1 = (r, w')" for e w1
  proof -
    obtain r2 w2 where f: "fail_generation S acc e (pr_request p) (pr_usage p) w1 = (r2, w2)" by fastforce
    have "r2 = Inr ()" by (rule fail_result [OF f])
    then have r: "r = Inr None" "w' = w2" using that(3) f by (auto simp: bindE_def)
    show thesis
      by (rule ended [OF r(1) fail_closes [OF that(1) p'(1) ctx p'(2) that(2) f, folded r(2)]]) simp_all
  qed
  obtain r1 w1 where check: "check_safety S SafetyOutput (pr_content p @ s) w = (r1, w1)" by fastforce
  have open1: "stream_open acc (pr_content p) w1" using safety_open(1) [OF opened check] .
  show thesis
  proof (cases r1)
    case (Inl e)
    then have "sane_error e" using check safety_error sane_error_plain by simp
    with failing [OF open1] show thesis using run False check Inl by (simp add: stream_text_def attempt_def bindE_def)
  next
    case (Inr decision)
    show thesis
    proof (cases "sd_blocked decision")
      case True
      obtain r2 w2 where rep: "report_safety S SafetyOutput (sd_category decision) (acc_request acc) w1 = (r2, w2)" by fastforce
      obtain r3 w3 where b: "block_safety S acc (pr_content p) (pr_usage p) (pr_request p) w2 = (r3, w3)" by fastforce
      have "r2 = Inr ()" "r3 = Inr ()" using report_result [OF rep] block_result [OF b] .
      then have r: "r = Inr None" "w' = w3"
        using run False check Inr True rep b by (auto simp: stream_text_def attempt_def bindE_def)
      show thesis
        by (rule ended [OF r(1) block_closes [OF safety_open(2) [OF open1 rep] p'(1) ctx p'(2) b, folded r(2)]]) simp_all
    next
      case notblocked: False
      let ?i = "gen_assistant_message_id (acc_generation acc)"
      show thesis
      proof (cases "append_assistant_message s (now w1) ?i (db w1)")
        case (Inl e)
        then have "db_exec (append_assistant_message s (now w1) ?i) w1 = (Inl e, w1)"
          using open1 by (simp add: stream_open_def db_exec_def)
        moreover have "sane_error e"
          using Inl by (intro sane_error_plain) (auto simp: append_assistant_message_def Let_def split: if_splits option.splits)
        ultimately show thesis
          using failing [OF open1, of e] run False check Inr notblocked
          by (simp add: stream_text_def attempt_def bindE_def clock_now_def Let_def)
      next
        case app: (Inr x)
        then obtain m d where x: "x = (m, d)" by fastforce
        have "db_exec (append_assistant_message s (now w1) ?i) w1 = (Inr m, w1\<lparr>db := d\<rparr>)"
          using open1 app x by (simp add: stream_open_def db_exec_def)
        moreover have "stream_open acc (pr_content p @ s) (w1\<lparr>db := d\<rparr>)"
          using append_open [of s "now w1" acc "db w1" m d "pr_content p"] app x open1 by (simp add: stream_open_def)
        ultimately have "r = Inr (Some (p\<lparr>pr_content := pr_content p @ s\<rparr>)) \<and> stream_open acc (pr_content p @ s) w'"
          using run False check Inr notblocked
          by (intro sent_open) (simp_all add: stream_text_def attempt_def bindE_def clock_now_def Let_def)
        then show thesis by (intro sent) auto
      qed
    qed
  qed
qed

lemma finish_reasons: "f \<noteq> NoFinish \<Longrightarrow> finish_text f \<in> {''stop'', ''length'', ''cancelled'', ''safety'', ''error''}"
  by (cases f) auto

lemma complete_closes:
  assumes "stream_open acc (pr_content p) w" and "sane_progress p" and "sane_context acc"
    and run: "complete_stream S acc p w = (r, w')"
  shows "closed acc \<lparr>en_status = Completed, en_retryable = False, en_message = Complete, en_content = pr_content p\<rparr> (db w')"
proof -
  let ?u = "if tu_output (pr_usage p) = 0 then (pr_usage p)\<lparr>tu_output := estimate_tokens (pr_content p)\<rparr> else pr_usage p"
  let ?v = "if tu_input ?u = 0 then ?u\<lparr>tu_input := estimate_messages (acc_messages acc)\<rparr> else ?u"
  have content: "content_ok (pr_content p)" using assms(1) open_rows_content by (auto simp: stream_open_def)
  have u: "sane_usage ?u"
    using assms(2) content_sizes [OF content] by (auto simp: sane_progress_def sane_usage_def)
  have "0 \<le> estimate_tokens s" for s by (simp add: estimate_tokens_def)
  then have "0 \<le> estimate_messages ms" for ms by (induction ms) (simp_all add: estimate_messages_def)
  then have "sane_usage ?v" using u assms(3) by (auto simp: sane_usage_def sane_context_def)
  moreover have "finish_generation S acc Completed (finish_text (pr_finish p)) (pr_content p) ?v (pr_request p) w = (r, w')"
    using run by (simp only: complete_stream_def Let_def)
  ultimately show ?thesis
    using finish_closes [OF assms(1) _ assms(3), of ?v "pr_request p" Completed "finish_text (pr_finish p)" r w']
      assms(2) finish_reasons [of "pr_finish p"] by (simp add: sane_progress_def)
qed

lemma loop_closes:
  assumes "stream_open acc (pr_content p) w" and "sane_progress p" and "sane_context acc"
    and "list_all sane_answer answers" and "stream_loop S acc answers p w = (r, w')"
  shows "\<exists>e. closed acc e (db w') \<and> proper_ending answers (pr_content p) e"
  using assms
proof (induction answers arbitrary: p w)
  case Nil
  then have "finish_generation S acc Cancelled ''cancelled'' (pr_content p) (pr_usage p) (pr_request p) w = (r, w')" by simp
  from finish_closes [OF Nil.prems(1) _ Nil.prems(3) _ _ _ this] Nil.prems(2)
  show ?case by (intro exI conjI) (auto simp: sane_progress_def proper_ending_def)
next
  case (Cons a rest)
  obtain c e where a: "a = (c, e)" by fastforce
  let ?p = "absorb c p"
  have p: "sane_progress ?p" "pr_content ?p = pr_content p"
    using sane_absorb [OF Cons.prems(2), of c e] Cons.prems(4) a by (auto simp: absorb_def)
  obtain r1 w1 where streamed: "stream_text S acc (ch_text c) ?p w = (r1, w1)" by fastforce
  have opened: "stream_open acc (pr_content ?p) w" using Cons.prems(1) p(2) by simp
  from opened p(1) Cons.prems(3) streamed show ?case
  proof (cases rule: stream_text_cases)
    case (ended en)
    then have "w' = w1" using Cons.prems(5) a streamed by (simp add: bindE_def)
    with ended show ?thesis
      by (intro exI [of _ en]) (auto simp: proper_ending_def p(2) a)
  next
    case sent
    let ?q = "?p\<lparr>pr_content := pr_content ?p @ ch_text c\<rparr>"
    have q: "sane_progress ?q" "stream_open acc (pr_content ?q) w1" "pr_content ?q = pr_content p @ ch_text c"
      using p sent(2) by (simp_all add: sane_progress_def)
    have rest: "(case e of None \<Rightarrow> stream_loop S acc rest ?q
         | Some er \<Rightarrow> if errors_is er EndOfFile then complete_stream S acc ?q
              else if errors_is er ContextCanceled
              then finish_generation S acc Cancelled ''cancelled'' (pr_content ?q) (pr_usage ?q) (pr_request ?q)
              else fail_generation S acc er (pr_request ?q) (pr_usage ?q)) w1 = (r, w')"
      using Cons.prems(5) a streamed sent(1) by (simp add: bindE_def)
    show ?thesis
    proof (cases e)
      case None
      have "stream_loop S acc rest ?q w1 = (r, w')" using rest None by simp
      from Cons.IH [OF q(2,1) Cons.prems(3) _ this] Cons.prems(4) obtain en
        where "closed acc en (db w')" "proper_ending rest (pr_content p @ ch_text c) en" unfolding q(3) by auto
      then show ?thesis using proper_ending_step a None by blast
    next
      case (Some er)
      have er: "sane_error er" using Cons.prems(4) a Some by (simp add: sane_answer_def opt_all_def)
      have qs: "sane_usage (pr_usage ?q)" "text_ok (pr_request ?q)" using q(1) by (auto simp: sane_progress_def)
      consider (eof) "errors_is er EndOfFile" "complete_stream S acc ?q w1 = (r, w')"
        | (cancelled) "errors_is er ContextCanceled"
            "finish_generation S acc Cancelled ''cancelled'' (pr_content ?q) (pr_usage ?q) (pr_request ?q) w1 = (r, w')"
        | (failed) "fail_generation S acc er (pr_request ?q) (pr_usage ?q) w1 = (r, w')"
        using rest Some by (auto split: if_splits)
      then show ?thesis
      proof cases
        case eof
        from complete_closes [OF q(2,1) Cons.prems(3) eof(2)] eof(1) show ?thesis
          unfolding q(3) by (intro exI conjI) (auto simp: proper_ending_def a Some)
      next
        case cancelled
        from finish_closes [OF q(2) qs(1) Cons.prems(3) qs(2) _ _ cancelled(2)] cancelled(1) show ?thesis
          unfolding q(3) by (intro exI conjI) (auto simp: proper_ending_def a Some)
      next
        case failed
        from fail_closes [OF q(2) qs(1) Cons.prems(3) qs(2) er failed] show ?thesis
          unfolding q(3) by (intro exI conjI) (auto simp: proper_ending_def a Some)
      qed
    qed
  qed
qed

text \<open>The first writes of \<open>stream\<close>.\<close>

lemma started_open:
  assumes "stream_open acc content w" and "mark_generation_streaming t i (db w) = Inr (g, d)"
  shows "db_exec (mark_generation_streaming t i) w = (Inr g, w\<lparr>db := d\<rparr>) \<and> stream_open acc content (w\<lparr>db := d\<rparr>)"
  using assms mark_open [OF assms(2)] by (auto simp: stream_open_def db_exec_def)

lemma keeps_open_start:
  "keeps (stream_open acc content) (dropped (db_exec (set_conversation_generation_state st t i)))"
  "keeps (stream_open acc content) (dropped (emit a kind request j))"
  by (rule keeps_open_rowsI; intro keeps_intros keeps_db_exec; erule (1) state_open)+

lemma stream_closes_open:
  assumes opened: "stream_open acc [] w" and ctx: "sane_context acc"
    and gateway: "chs_gateways S (sel_provider_code (acc_selection acc)) = Some gw"
    and gw: "sane_gateway gw"
    and run: "stream_generation S acc cancelled w = (r, w')"
  shows "\<exists>e. closed acc e (db w') \<and> (cancelled \<longrightarrow> en_status e = Failed \<and> \<not> en_retryable e)
    \<and> ((\<exists>q answers. gw q = Inr answers \<and> proper_ending answers [] e) \<or> en_status e = Failed \<and> en_message e = MsgFailed)"
proof -
  note sane = sane_gatewayD [OF gw]
  let ?g = "acc_generation acc"
  have zero: "sane_usage zero_usage" by (simp add: zero_usage_def sane_usage_def)
  have calm: "calm w" using opened by (simp add: stream_open_def)
  show ?thesis
  proof (cases "cancelled \<or> (\<exists>e. mark_generation_streaming (now w) (gen_id ?g) (db w) = Inl e)")
    case True
    then obtain e where e: "sane_error e" "cancelled \<longrightarrow> e = ContextCanceled"
      and f: "fail_generation S acc e [] zero_usage w = (r, w')"
    proof (cases cancelled)
      case True
      then show thesis
        using run by (intro that [of ContextCanceled])
          (auto simp: stream_generation_def bindE_def clock_now_def attempt_def fail_def Let_def sane_error_plain)
    next
      case False
      then obtain e where "mark_generation_streaming (now w) (gen_id ?g) (db w) = Inl e"
        using \<open>cancelled \<or> _\<close> by blast
      moreover from this have "provider_error_in e = None"
        by (auto simp: mark_generation_streaming_def Let_def split: option.splits)
      ultimately show thesis
        using run False calm by (intro that [of e])
          (auto simp: stream_generation_def bindE_def clock_now_def attempt_def db_exec_def Let_def sane_error_plain)
    qed
    have "closed acc \<lparr>en_status = Failed, en_retryable = error_retryable (normalize_error e), en_message = MsgFailed,
        en_content = []\<rparr> (db w')"
      by (rule fail_closes [OF opened zero ctx _ e(1) f]) (rule text_ok_codes)
    then show ?thesis
      using e(2) by (intro exI conjI impI disjI2) (assumption, auto simp: normalize_error_def)
  next
    case False
    then obtain g d where mark: "mark_generation_streaming (now w) (gen_id ?g) (db w) = Inr (g, d)"
      by (metis obj_sumE prod.collapse)
    let ?set = "dropped (db_exec (set_conversation_generation_state StateStreaming (now w) (gen_conversation_id ?g)))"
    let ?emit = "dropped (emit (acc_actor acc) ''chat.started'' (acc_request acc)
            (JObj [(''assistantMessageId'', JStr (uuid_string (gen_assistant_message_id ?g))),
              (''conversationId'', JStr (uuid_string (gen_conversation_id ?g))),
              (''generationId'', JStr (uuid_string (gen_id ?g))),
              (''modelId'', JStr (uuid_string (mv_id (sel_model (acc_selection acc))))),
              (''modelName'', JStr (mv_name (sel_model (acc_selection acc)))),
              (''userMessageId'', JStr (uuid_string (gen_user_message_id ?g)))]))"
    let ?q = "\<lparr>prq_model = sel_provider_model_id (acc_selection acc), prq_messages = acc_messages acc,
                             prq_max_tokens = res_reserved (acc_reservation acc)\<rparr>"
    let ?p = "\<lparr>pr_content = [], pr_usage = zero_usage, pr_request = [], pr_finish = FinishStop\<rparr>"
    have o1: "stream_open acc [] (w\<lparr>db := d\<rparr>)" and m1: "db_exec (mark_generation_streaming (now w) (gen_id ?g)) w = (Inr g, w\<lparr>db := d\<rparr>)"
      using started_open [OF opened mark] by auto
    obtain r2 w2 where s2: "?set (w\<lparr>db := d\<rparr>) = (r2, w2)" by fastforce
    obtain r3 w3 where s3: "?emit w2 = (r3, w3)" by fastforce
    have o3: "stream_open acc [] w3"
      using keepsD_eq [OF keeps_open_start(2) keepsD_eq [OF keeps_open_start(1) o1 s2] s3] .
    have rest: "(case gw ?q of Inl e \<Rightarrow> fail_generation S acc e [] zero_usage
        | Inr answers \<Rightarrow> stream_loop S acc answers ?p) w3 = (r, w')"
      using run False gateway m1 s2 s3 dropped_result [OF s2] dropped_result [OF s3]
      unfolding stream_generation_def Let_def by (simp add: bindE_def clock_now_def attempt_def)
    show ?thesis
    proof (cases "gw ?q")
      case (Inl e)
      then have "closed acc \<lparr>en_status = Failed, en_retryable = error_retryable (normalize_error e), en_message = MsgFailed,
          en_content = []\<rparr> (db w')"
        using rest sane(2) text_ok_codes by (intro fail_closes [OF o3 zero ctx]) auto
      then show ?thesis using False by (intro exI conjI impI disjI2) (assumption, auto)
    next
      case (Inr answers)
      moreover have "sane_progress ?p" by (simp add: sane_progress_def zero text_ok_codes)
      ultimately obtain e where "closed acc e (db w')" "proper_ending answers [] e"
        using loop_closes [of acc ?p w3 answers r w'] o3 ctx sane(1) rest by auto
      then show ?thesis using False Inr by blast
    qed
  qed
qed

end

section \<open>The service of the program\<close>

definition plain :: "error + 'a \<Rightarrow> bool" where
  "plain r \<longleftrightarrow> (case r of Inl e \<Rightarrow> provider_error_in e = None | Inr _ \<Rightarrow> True)"

lemma plain_bindS: "plain r \<Longrightarrow> (\<And>x. plain (f x)) \<Longrightarrow> plain (bindS r f)"
  by (cases r) (auto simp: plain_def)

lemma plain_simps [simp]: "plain (Inr x)" "plain (Inl e) \<longleftrightarrow> provider_error_in e = None"
  by (simp_all add: plain_def)

lemma plain_decode: "plain (decode_setting values k conv)"
  by (simp add: decode_setting_def split: option.split)

lemma plain_snapshot: "plain (decode_snapshot records)"
  unfolding decode_snapshot_def Let_def by (intro plain_bindS plain_decode plain_simps)

lemma plain_fault: "provider_error_in (fault_error f) = None"
  by (cases f) simp_all

lemma runtime_error: "runtime_settings w = (Inl e, w') \<Longrightarrow> provider_error_in e = None"
proof -
  have load: "provider_error_in e = None" if "load_and_cache c w1 = (Inl e, w2)" for c e w1 w2
    using that plain_snapshot
    by (auto simp: load_and_cache_def load_from_db_def wrap_err_def list_runtime_settings_def plain_fault
        dropped_def split: prod.splits sum.splits option.splits elim!: bindE_errE db_read_cases)
      (metis plain_simps(2))+
  assume "runtime_settings w = (Inl e, w')"
  then show ?thesis
    by (auto simp: runtime_settings_def load_settings_def attempt_def bindE_def dropped_def
        split: prod.splits sum.splits option.splits dest: load)
qed

interpretation al: chat_env_live "api_chat k" for k
proof (intro chat_env_live.intro ac.chat_env_axioms chat_env_live_axioms.intro)
  show "provider_error_in e = None" if "chs_categories (api_chat k) = Some c" "c w = (Inl e, w')" for c w e w'
    using that by (auto simp: api_chat_def elim!: bindE_errE dest: runtime_error)
  show "provider_error_in e = None" if "chs_safety (api_chat k) = Some p" "p stage content cs = Inl e" for p stage content cs e
    using that by (auto simp: api_chat_def rule_safety_check_def)
qed (auto simp: api_chat_def api_quota_def redis_limiter_def intro!: keeps_intros)

section \<open>Properties\<close>


lemma demo_open: "stream_open demo_accepted [] chat_world"
  using chat_db_ok
  by (simp add: stream_open_def open_rows_def settleable_def chat_world_def world_of_def demo_accepted_def demo_rows active_def)

lemma demo_sane: "sane_gateway demo_gateway" "sane_context demo_accepted"
  "cc_gateways demo_config (sel_provider_code (acc_selection demo_accepted)) = Some demo_gateway"
  by (simp_all add: sane_gateway_def demo_gateway_def sane_answer_def opt_all_def sane_usage_def sane_error_plain
      text_ok_def valid_utf8_def decode_runes_ascii rune_error_def sane_context_def demo_accepted_def
      estimate_messages_def demo_estimates demo_config_def)


text \<open>C38: A generation that is cancelled before its stream begins does not end cancelled: the first query fails
  with the error of the context, and the generation is recorded as a failure of the provider that cannot be
  retried.\<close>
theorem early_cancel_fails:
  assumes "stream_open acc [] w" and "sane_context acc"
    and "cc_gateways k (sel_provider_code (acc_selection acc)) = Some gw"
    and "cancel_generation (gen_id (acc_generation acc)) m = (b, m1)" and "gen_id (acc_generation acc) \<notin> set (mem_streaming m)"
    and "sane_gateway gw"
  shows "\<exists>g. get_generation (gen_id (acc_generation acc)) (db (snd (run_stream (api_chat k) acc m1 w))) = Inr g
    \<and> gen_status g = Failed \<and> \<not> gen_retryable g"
proof -
  let ?i = "gen_id (acc_generation acc)"
  obtain m2 where m2: "begin_stream ?i m1 = (True, m2)"
    using assms(4,5) by (auto simp: cancel_generation_def begin_stream_def)
  obtain r w' where run: "stream_generation (api_chat k) acc True w = (r, w')" by fastforce
  have "chs_gateways (api_chat k) (sel_provider_code (acc_selection acc)) = Some gw"
    using assms(3) by (simp add: api_chat_def)
  from al.stream_closes_open [OF assms(1,2) this assms(6) run]
  obtain e where "closed acc e (db w')" "en_status e = Failed" "\<not> en_retryable e" by blast
  moreover have "db (snd (run_stream (api_chat k) acc m1 w)) = db w'"
    using m2 run by (auto simp: run_stream_def bindE_def split: sum.split)
  ultimately show ?thesis by (auto simp: closed_def get_generation_def one_row_def)
qed

theorem early_cancel_fails_witness:
  "\<exists>g. get_generation 9 (db (snd (run_stream (api_chat demo_config) demo_accepted
       (snd (cancel_generation 9 \<lparr>mem_streaming = [], mem_pending = []\<rparr>)) chat_world))) = Inr g
     \<and> gen_status g = Failed \<and> \<not> gen_retryable g"
proof -
  have i: "gen_id (acc_generation demo_accepted) = 9" by (simp add: demo_accepted_def demo_generation_def)
  show ?thesis
    using early_cancel_fails [OF demo_open demo_sane(2,3) prod.collapse [symmetric] _ demo_sane(1),
        of "\<lparr>mem_streaming = [], mem_pending = []\<rparr>"] by (simp add: i)
qed

end
