(* ===== verification/Privacy.thy ===== *)
theory Privacy
  imports Users
begin

text \<open>
  \<open>internal/privacy/service.go\<close> and the queries of \<open>store/privacy.sql.go\<close>: an account is marked for
  deletion and its sessions revoked, a worker claims the jobs that are due and deletes each user in
  a transaction of its own, and expired guests are removed. A \<open>DELETE\<close> is modelled with the
  \<open>ON DELETE CASCADE\<close> and \<open>ON DELETE SET NULL\<close> actions the migrations declare, and with the CHECK
  of \<open>guest_sessions\<close> that a \<open>SET NULL\<close> can violate. \<open>fmt.Sprintf("%T", cause)\<close>, the Go type of an
  error, is the parameter \<open>type_of\<close>.
\<close>

section \<open>Deleting rows\<close>

definition delete_conversations :: "(conversation_row \<Rightarrow> bool) \<Rightarrow> database \<Rightarrow> database" where
  "delete_conversations P d =
     (let convs = map conv_id (filter P (conversations d));
          msgs = map msg_id (filter (\<lambda>m. msg_conversation_id m \<in> set convs) (messages d));
          lost = (\<lambda>g. gen_conversation_id g \<in> set convs \<or> gen_user_message_id g \<in> set msgs
                       \<or> gen_assistant_message_id g \<in> set msgs);
          gens = map gen_id (filter lost (generations d))
      in d\<lparr>conversations := filter (\<lambda>c. \<not> P c) (conversations d),
           messages := filter (\<lambda>m. msg_conversation_id m \<notin> set convs) (messages d),
           generations := upd_rows (\<lambda>g. gen_parent_id g \<in> Some ` set gens)
             (\<lambda>g. g\<lparr>gen_parent_id := None\<rparr>) (filter (\<lambda>g. \<not> lost g) (generations d)),
           summaries := filter (\<lambda>s. sum_conversation_id s \<notin> set convs) (summaries d),
           usage_ledger := filter (\<lambda>l. led_generation_id l \<notin> set gens) (usage_ledger d)\<rparr>)"

text \<open>
  What the deletion of a user takes with it: identities, sessions with their refresh tokens, consents
  and conversations go; the audit log, the settings and the deletion job lose their reference.
\<close>

definition cascade_user :: "uuid \<Rightarrow> database \<Rightarrow> database" where
  "cascade_user u d =
     (let gone = map ses_id (filter (\<lambda>s. ses_user_id s = u) (auth_sessions d));
          d1 = delete_conversations (\<lambda>c. conv_user_id c = Some u) d
      in d1\<lparr>identities := filter (\<lambda>i. idn_user_id i \<noteq> u) (identities d1),
            auth_sessions := filter (\<lambda>s. ses_user_id s \<noteq> u) (auth_sessions d1),
            refresh_tokens := filter (\<lambda>t. rt_session_id t \<notin> set gone) (refresh_tokens d1),
            terms := filter (\<lambda>t. ta_user_id t \<noteq> u) (terms d1),
            guest_sessions := upd_rows (\<lambda>g. gst_migrated_user_id g = Some u)
              (\<lambda>g. g\<lparr>gst_migrated_user_id := None\<rparr>) (guest_sessions d1),
            audit_log := upd_rows (\<lambda>a. aud_actor a = Some u) (\<lambda>a. a\<lparr>aud_actor := None\<rparr>) (audit_log d1),
            settings := upd_rows (\<lambda>s. set_updated_by_user s = Some u)
              (\<lambda>s. s\<lparr>set_updated_by_user := None\<rparr>) (settings d1),
            deletion_jobs := upd_rows (\<lambda>j. job_user_id j = Some u)
              (\<lambda>j. j\<lparr>job_user_id := None\<rparr>) (deletion_jobs d1)\<rparr>)"

text \<open>\<open>CHECK ((migrated_user_id IS NULL) = (migrated_at IS NULL))\<close> of \<open>guest_sessions\<close>.\<close>

definition guest_check :: "guest_row \<Rightarrow> bool" where
  "guest_check g \<longleftrightarrow> (gst_migrated_user_id g = None) = (gst_migrated_at g = None)"

definition delete_user_for_purge :: "uuid \<Rightarrow> database \<Rightarrow> error + int \<times> database" where
  "delete_user_for_purge u d =
     (let hit = (\<lambda>r. usr_id r = u \<and> usr_status r = DeletionPending)
      in if \<not> list_ex hit (users d) then Inr (0, d)
         else if list_ex (\<lambda>g. gst_migrated_user_id g = Some u \<and>
                   \<not> guest_check (g\<lparr>gst_migrated_user_id := None\<rparr>)) (guest_sessions d)
         then Inl (check_violation ''guest_sessions_check'')
         else Inr (int (count_rows hit (users d)), (cascade_user u d)\<lparr>users := filter (\<lambda>r. \<not> hit r) (users d)\<rparr>))"

definition guest_expired :: "time \<Rightarrow> database \<Rightarrow> guest_row \<Rightarrow> bool" where
  "guest_expired t d g \<longleftrightarrow>
     gst_expires_at g < t \<and> gst_migrated_user_id g = None \<and>
     \<not> list_ex (\<lambda>c. conv_guest_id c = Some (gst_id g) \<and>
          list_ex (\<lambda>n. gen_conversation_id n = conv_id c \<and> gen_status n \<in> {Accepted, Streaming})
            (generations d)) (conversations d)"

definition delete_expired_guest_sessions :: "time \<Rightarrow> database \<Rightarrow> error + int \<times> database" where
  "delete_expired_guest_sessions t d =
     (let gone = map gst_id (filter (guest_expired t d) (guest_sessions d));
          d1 = delete_conversations (\<lambda>c. conv_guest_id c \<in> Some ` set gone) d
      in Inr (int (length gone), d1\<lparr>guest_sessions := filter (\<lambda>g. \<not> guest_expired t d g) (guest_sessions d)\<rparr>))"

section \<open>The other queries\<close>

text \<open>\<open>user_id\<close> is unique in \<open>account_deletion_jobs\<close>: the latest job of a user is the only one.\<close>

definition get_account_deletion_job_by_user :: "uuid \<Rightarrow> database \<Rightarrow> error + job_row" where
  "get_account_deletion_job_by_user u d =
     (case find (\<lambda>j. job_user_id j = Some u) (deletion_jobs d) of None \<Rightarrow> Inl NoRows | Some j \<Rightarrow> Inr j)"

definition get_admin_user :: "uuid \<Rightarrow> database \<Rightarrow> error + user_row" where
  "get_admin_user u d = (case find (\<lambda>r. usr_id r = u) (users d) of None \<Rightarrow> Inl NoRows | Some r \<Rightarrow> Inr r)"

definition mark_user_deletion_pending :: "time \<Rightarrow> uuid \<Rightarrow> database \<Rightarrow> error + int \<times> database" where
  "mark_user_deletion_pending t u d =
     (let hit = (\<lambda>r. usr_id r = u \<and> usr_status r = Active)
      in if list_ex (\<lambda>r. hit r \<and> (usr_token_version r + 1 \<ge> 2 ^ 31 \<or> usr_version r + 1 \<ge> 2 ^ 31)) (users d)
         then Inl out_of_range
         else Inr (int (count_rows hit (users d)), d\<lparr>users := upd_rows hit (\<lambda>r. r\<lparr>usr_status := DeletionPending,
           usr_token_version := usr_token_version r + 1, usr_version := usr_version r + 1,
           usr_updated_at := t\<rparr>) (users d)\<rparr>))"

definition revoke_all_user_sessions :: "time \<Rightarrow> uuid \<Rightarrow> database \<Rightarrow> error + unit \<times> database" where
  "revoke_all_user_sessions t u d =
     (let hit = (\<lambda>s. ses_user_id s = u \<and> ses_revoked_at s = None)
      in if list_ex (\<lambda>s. hit s \<and> ses_token_version s + 1 \<ge> 2 ^ 31) (auth_sessions d) then Inl out_of_range
         else Inr ((), d\<lparr>auth_sessions := upd_rows hit (\<lambda>s. s\<lparr>ses_revoked_at := Some t,
           ses_token_version := ses_token_version s + 1\<rparr>) (auth_sessions d)\<rparr>))"

definition create_account_deletion_job ::
  "uuid \<Rightarrow> uuid \<Rightarrow> time \<Rightarrow> time \<Rightarrow> database \<Rightarrow> error + job_row \<times> database" where
  "create_account_deletion_job i u requested due d =
     (let j = \<lparr>job_id = i, job_user_id = Some u, job_status = JobPending, job_requested_at = requested,
               job_due_at = due, job_started_at = None, job_completed_at = None, job_attempts = 0,
               job_error_class = None\<rparr>
      in if due > requested + 24 * hour then Inl (check_violation ''account_deletion_jobs_check'')
         else if list_ex (\<lambda>k. job_id k = i) (deletion_jobs d)
         then Inl (unique_violation ''account_deletion_jobs_pkey'')
         else case find (\<lambda>k. job_user_id k = Some u) (deletion_jobs d) of
           Some k \<Rightarrow> Inr (k, d)
         | None \<Rightarrow>
             if \<not> list_ex (\<lambda>r. usr_id r = u) (users d)
             then Inl (foreign_key_violation ''account_deletion_jobs_user_id_fkey'')
             else Inr (j, d\<lparr>deletion_jobs := deletion_jobs d @ [j]\<rparr>))"

text \<open>
  \<open>ClaimAccountDeletionJobs\<close>: the oldest jobs that wait, failed, or have been processed for more
  than 15 minutes. The rows come back in the order of the candidates.
\<close>

definition job_claimable :: "time \<Rightarrow> time \<Rightarrow> job_row \<Rightarrow> bool" where
  "job_claimable t before j \<longleftrightarrow>
     (job_status j \<in> {JobPending, JobFailed} \<or>
      (job_status j = JobProcessing \<and> (\<exists>s \<in> set_option (job_started_at j). s < t - 15 * minute))) \<and>
     job_requested_at j \<le> before"

definition claim_job :: "time \<Rightarrow> job_row \<Rightarrow> job_row" where
  "claim_job t j = j\<lparr>job_status := JobProcessing, job_started_at := Some t,
     job_attempts := job_attempts j + 1, job_error_class := None\<rparr>"

definition claim_candidates :: "time \<Rightarrow> time \<Rightarrow> nat \<Rightarrow> database \<Rightarrow> job_row list" where
  "claim_candidates t before n d =
     take n (sort_key job_requested_at (sort_key job_id (filter (job_claimable t before) (deletion_jobs d))))"

definition claim_account_deletion_jobs ::
  "time \<Rightarrow> time \<Rightarrow> nat \<Rightarrow> database \<Rightarrow> error + job_row list \<times> database" where
  "claim_account_deletion_jobs t before n d =
     (let js = claim_candidates t before n d;
          hit = (\<lambda>j. job_id j \<in> job_id ` set js)
      in if list_ex (\<lambda>j. job_attempts j + 1 \<ge> 2 ^ 31) js then Inl out_of_range
         else Inr (map (claim_job t) js,
                   d\<lparr>deletion_jobs := upd_rows hit (claim_job t) (deletion_jobs d)\<rparr>))"

definition complete_account_deletion_job :: "time \<Rightarrow> uuid \<Rightarrow> database \<Rightarrow> error + int \<times> database" where
  "complete_account_deletion_job t i d =
     (let hit = (\<lambda>j. job_id j = i \<and> job_status j = JobProcessing)
      in Inr (int (count_rows hit (deletion_jobs d)),
              d\<lparr>deletion_jobs := upd_rows hit (\<lambda>j. j\<lparr>job_status := JobCompleted, job_user_id := None,
                  job_completed_at := Some t, job_error_class := None\<rparr>) (deletion_jobs d)\<rparr>))"

definition fail_account_deletion_job :: "string \<Rightarrow> uuid \<Rightarrow> database \<Rightarrow> error + int \<times> database" where
  "fail_account_deletion_job c i d =
     (let hit = (\<lambda>j. job_id j = i \<and> job_status j = JobProcessing)
      in Inr (int (count_rows hit (deletion_jobs d)),
              d\<lparr>deletion_jobs := upd_rows hit (\<lambda>j. j\<lparr>job_status := JobFailed, job_error_class := Some c\<rparr>)
                 (deletion_jobs d)\<rparr>))"

section \<open>The service\<close>

record deletion =
  del_id :: uuid
  del_status :: job_status
  del_requested_at :: time
  del_due_at :: time
  del_completed_at :: "time option"

definition map_deletion :: "job_row \<Rightarrow> deletion" where
  "map_deletion j = \<lparr>del_id = job_id j, del_status = job_status j, del_requested_at = job_requested_at j,
     del_due_at = job_due_at j, del_completed_at = job_completed_at j\<rparr>"

definition new_deletion :: "uuid \<Rightarrow> time \<Rightarrow> (world, job_row) op" where
  "new_deletion u t =
     bindE (attempt (db_read (get_admin_user u))) (\<lambda>r.
     case r of
       Inl e \<Rightarrow> fail (if errors_is e NoRows then PrivacyNotFound else e)
     | Inr row \<Rightarrow>
         if usr_status row \<noteq> Active then fail PrivacyConflict
         else
           bindE (db_exec (mark_user_deletion_pending t u)) (\<lambda>changed.
           if changed \<noteq> 1 then fail PrivacyConflict
           else
             bindE (db_exec (revoke_all_user_sessions t u)) (\<lambda>_.
             bindE ids_new (\<lambda>i.
             db_exec (create_account_deletion_job i u t (t + 24 * hour))))))"

definition request_deletion :: "uuid \<Rightarrow> (world, deletion) op" where
  "request_deletion u =
     (if u = uuid_nil then fail PrivacyNotFound
      else
        bindE clock_now (\<lambda>t.
        bindE (wrap_err ''request account deletion'' (within_transaction
          (bindE (attempt (db_read (get_account_deletion_job_by_user u))) (\<lambda>r.
           case r of
             Inr j \<Rightarrow> ok j
           | Inl e \<Rightarrow> if \<not> errors_is e NoRows then fail e else new_deletion u t)))) (\<lambda>j.
        ok (map_deletion j))))"

definition get_deletion :: "uuid \<Rightarrow> (world, deletion) op" where
  "get_deletion u =
     bindE (attempt (db_read (get_account_deletion_job_by_user u))) (\<lambda>r.
     case r of
       Inl e \<Rightarrow> fail (if errors_is e NoRows then PrivacyNotFound else Wrap ''get account deletion'' e)
     | Inr j \<Rightarrow> ok (map_deletion j))"

text \<open>\<open>fail\<close>: the job's failure is recorded; the cause, and the error of recording it, are joined.\<close>

definition fail_job :: "(error \<Rightarrow> string) \<Rightarrow> uuid \<Rightarrow> error \<Rightarrow> (world, error list) op" where
  "fail_job type_of i cause =
     bindE (attempt (db_exec (fail_account_deletion_job (type_of cause) i))) (\<lambda>r.
     ok (case r of Inl e \<Rightarrow> [cause, e] | Inr _ \<Rightarrow> [cause]))"

definition purge_tx :: "time \<Rightarrow> uuid \<Rightarrow> uuid \<Rightarrow> (world, unit) op" where
  "purge_tx t i u =
     bindE (db_exec (delete_user_for_purge u)) (\<lambda>deleted.
     if deleted \<noteq> 1 then fail PrivacyConflict
     else
       bindE (db_exec (complete_account_deletion_job t i)) (\<lambda>updated.
       if updated \<noteq> 1 then fail PrivacyConflict else ok ()))"

definition purge_job :: "(error \<Rightarrow> string) \<Rightarrow> time \<Rightarrow> job_row \<Rightarrow> (world, error list) op" where
  "purge_job type_of t j =
     (case job_user_id j of
        None \<Rightarrow> fail_job type_of (job_id j) (Msg ''job user is missing'')
      | Some u \<Rightarrow>
          bindE (attempt (within_transaction (purge_tx t (job_id j) u))) (\<lambda>r.
          case r of Inl e \<Rightarrow> fail_job type_of (job_id j) e | Inr _ \<Rightarrow> ok []))"

fun purge_jobs :: "(error \<Rightarrow> string) \<Rightarrow> time \<Rightarrow> job_row list \<Rightarrow> (world, int \<times> error list) op" where
  "purge_jobs type_of t [] = ok (0, [])"
| "purge_jobs type_of t (j # js) =
     bindE (purge_job type_of t j) (\<lambda>es.
     bindE (purge_jobs type_of t js) (\<lambda>(n, fs).
     ok (if es = [] then n + 1 else n, es @ fs)))"

text \<open>The count is returned beside the joined errors of the jobs that failed.\<close>

definition purge_due :: "(error \<Rightarrow> string) \<Rightarrow> time \<Rightarrow> int \<Rightarrow> (world, int \<times> error list) op" where
  "purge_due type_of grace batch =
     (if grace < 0 \<or> batch \<le> 0 \<or> batch > 100 then fail (Msg ''purge options are invalid'')
      else
        bindE clock_now (\<lambda>t.
        bindE (wrap_err ''claim deletion jobs''
          (db_exec (claim_account_deletion_jobs t (t - grace) (nat batch)))) (purge_jobs type_of t)))"

definition cleanup_guests :: "(world, int) op" where
  "cleanup_guests =
     bindE clock_now (\<lambda>t. wrap_err ''delete expired guests'' (db_exec (delete_expired_guest_sessions t)))"

section \<open>Referential integrity\<close>

text \<open>Every foreign key of the schema points at a row.\<close>

definition account_refs :: "database \<Rightarrow> bool" where
  "account_refs d \<longleftrightarrow>
     (\<forall>i \<in> set (identities d). idn_user_id i \<in> usr_id ` set (users d)) \<and>
     (\<forall>s \<in> set (auth_sessions d). ses_user_id s \<in> usr_id ` set (users d)) \<and>
     (\<forall>t \<in> set (refresh_tokens d). rt_session_id t \<in> ses_id ` set (auth_sessions d)) \<and>
     (\<forall>t \<in> set (terms d). ta_user_id t \<in> usr_id ` set (users d)) \<and>
     (\<forall>g \<in> set (guest_sessions d). set_option (gst_migrated_user_id g) \<subseteq> usr_id ` set (users d)) \<and>
     (\<forall>a \<in> set (audit_log d). set_option (aud_actor a) \<subseteq> usr_id ` set (users d)) \<and>
     (\<forall>s \<in> set (settings d). set_option (set_updated_by_user s) \<subseteq> usr_id ` set (users d)) \<and>
     (\<forall>j \<in> set (deletion_jobs d). set_option (job_user_id j) \<subseteq> usr_id ` set (users d))"

definition chat_refs :: "database \<Rightarrow> bool" where
  "chat_refs d \<longleftrightarrow>
     (\<forall>m \<in> set (messages d). msg_conversation_id m \<in> conv_id ` set (conversations d)) \<and>
     (\<forall>g \<in> set (generations d). gen_conversation_id g \<in> conv_id ` set (conversations d) \<and>
        gen_user_message_id g \<in> msg_id ` set (messages d) \<and>
        gen_assistant_message_id g \<in> msg_id ` set (messages d) \<and>
        set_option (gen_parent_id g) \<subseteq> gen_id ` set (generations d) \<and>
        set_option (gen_reservation_id g) \<subseteq> rsv_id ` set (reservations d)) \<and>
     (\<forall>s \<in> set (summaries d). sum_conversation_id s \<in> conv_id ` set (conversations d)) \<and>
     (\<forall>l \<in> set (usage_ledger d). led_generation_id l \<in> gen_id ` set (generations d))"

definition owner_refs :: "database \<Rightarrow> bool" where
  "owner_refs d \<longleftrightarrow>
     (\<forall>c \<in> set (conversations d). set_option (conv_user_id c) \<subseteq> usr_id ` set (users d) \<and>
        set_option (conv_guest_id c) \<subseteq> gst_id ` set (guest_sessions d))"

definition catalog_refs :: "database \<Rightarrow> bool" where
  "catalog_refs d \<longleftrightarrow>
     (\<forall>c \<in> set (conversations d). conv_model_id c \<in> mdl_id ` set (models d)) \<and>
     (\<forall>g \<in> set (generations d). gen_model_id g \<in> mdl_id ` set (models d) \<and>
        gen_provider_id g \<in> prv_id ` set (providers d)) \<and>
     (\<forall>s \<in> set (summaries d). sum_model_id s \<in> mdl_id ` set (models d)) \<and>
     (\<forall>l \<in> set (usage_ledger d). led_model_id l \<in> mdl_id ` set (models d) \<and>
        led_provider_id l \<in> prv_id ` set (providers d)) \<and>
     (\<forall>m \<in> set (provider_models d). pm_model_id m \<in> mdl_id ` set (models d) \<and>
        pm_provider_id m \<in> prv_id ` set (providers d)) \<and>
     (\<forall>r \<in> set (outbox_receipts d). fst r \<in> obx_id ` set (outbox_events d))"

definition foreign_keys :: "database \<Rightarrow> bool" where
  "foreign_keys d \<longleftrightarrow> account_refs d \<and> chat_refs d \<and> owner_refs d \<and> catalog_refs d"

lemma delete_conversations_frame [simp]:
  "users (delete_conversations P d) = users d"
  "identities (delete_conversations P d) = identities d"
  "auth_sessions (delete_conversations P d) = auth_sessions d"
  "refresh_tokens (delete_conversations P d) = refresh_tokens d"
  "terms (delete_conversations P d) = terms d"
  "guest_sessions (delete_conversations P d) = guest_sessions d"
  "conversations (delete_conversations P d) = filter (\<lambda>c. \<not> P c) (conversations d)"
  "daily_usage (delete_conversations P d) = daily_usage d"
  "reservations (delete_conversations P d) = reservations d"
  "outbox_events (delete_conversations P d) = outbox_events d"
  "outbox_receipts (delete_conversations P d) = outbox_receipts d"
  "audit_log (delete_conversations P d) = audit_log d"
  "providers (delete_conversations P d) = providers d"
  "models (delete_conversations P d) = models d"
  "provider_models (delete_conversations P d) = provider_models d"
  "settings (delete_conversations P d) = settings d"
  "deletion_jobs (delete_conversations P d) = deletion_jobs d"
  by (simp_all add: delete_conversations_def Let_def)

lemma survivors:
  "x \<in> f ` set xs \<Longrightarrow> x \<notin> set (map f (filter P xs)) \<Longrightarrow> x \<in> f ` set (filter (\<lambda>x. \<not> P x) xs)"
  by auto

lemma upd_rows_image: "(\<And>r. k (f r) = k r) \<Longrightarrow> k ` set (upd_rows Q f xs) = k ` set xs"
  by (metis list.set_map map_upd_rows_same)

lemma delete_conversations_chat_refs:
  assumes "chat_refs d"
  shows "chat_refs (delete_conversations P d)"
proof -
  define convs where "convs = map conv_id (filter P (conversations d))"
  define lost_msg where "lost_msg = (\<lambda>m :: message_row. msg_conversation_id m \<in> set convs)"
  define msgs where "msgs = map msg_id (filter lost_msg (messages d))"
  define lost where "lost = (\<lambda>g :: generation_row. gen_conversation_id g \<in> set convs \<or> gen_user_message_id g \<in> set msgs
    \<or> gen_assistant_message_id g \<in> set msgs)"
  define gens where "gens = map gen_id (filter lost (generations d))"
  let ?gs = "upd_rows (\<lambda>g. gen_parent_id g \<in> Some ` set gens) (\<lambda>g. g\<lparr>gen_parent_id := None\<rparr>)
    (filter (\<lambda>g. \<not> lost g) (generations d))"
  have d': "delete_conversations P d = d\<lparr>conversations := filter (\<lambda>c. \<not> P c) (conversations d),
      messages := filter (\<lambda>m. \<not> lost_msg m) (messages d), generations := ?gs,
      summaries := filter (\<lambda>s. sum_conversation_id s \<notin> set convs) (summaries d),
      usage_ledger := filter (\<lambda>l. led_generation_id l \<notin> set gens) (usage_ledger d)\<rparr>"
    unfolding delete_conversations_def Let_def convs_def msgs_def lost_def gens_def lost_msg_def ..
  have conv: "x \<in> conv_id ` set (filter (\<lambda>c. \<not> P c) (conversations d))"
    if "x \<in> conv_id ` set (conversations d)" "x \<notin> set convs" for x
    using survivors [OF that(1), of P] that(2) by (simp add: convs_def)
  have msg: "x \<in> msg_id ` set (filter (\<lambda>m. \<not> lost_msg m) (messages d))"
    if "x \<in> msg_id ` set (messages d)" "x \<notin> set msgs" for x
    using survivors [OF that(1), of lost_msg] that(2) by (simp add: msgs_def)
  have gen: "x \<in> gen_id ` set (filter (\<lambda>g. \<not> lost g) (generations d))"
    if "x \<in> gen_id ` set (generations d)" "x \<notin> set gens" for x
    using survivors [OF that(1), of lost] that(2) by (simp add: gens_def)
  have ids: "gen_id ` set ?gs = gen_id ` set (filter (\<lambda>g. \<not> lost g) (generations d))"
    by (rule upd_rows_image) simp
  have gs: "gen_conversation_id g \<in> conv_id ` set (filter (\<lambda>c. \<not> P c) (conversations d)) \<and>
      gen_user_message_id g \<in> msg_id ` set (filter (\<lambda>m. \<not> lost_msg m) (messages d)) \<and>
      gen_assistant_message_id g \<in> msg_id ` set (filter (\<lambda>m. \<not> lost_msg m) (messages d)) \<and>
      set_option (gen_parent_id g) \<subseteq> gen_id ` set (filter (\<lambda>g. \<not> lost g) (generations d)) \<and>
      set_option (gen_reservation_id g) \<subseteq> rsv_id ` set (reservations d)" if g: "g \<in> set ?gs" for g
  proof -
    obtain h where h: "h \<in> set (generations d)" "\<not> lost h"
      and gh: "g = (if gen_parent_id h \<in> Some ` set gens then h\<lparr>gen_parent_id := None\<rparr> else h)"
      using g by (auto simp: set_upd_rows)
    have refs: "gen_conversation_id h \<in> conv_id ` set (conversations d)"
      "gen_user_message_id h \<in> msg_id ` set (messages d)"
      "gen_assistant_message_id h \<in> msg_id ` set (messages d)"
      "set_option (gen_parent_id h) \<subseteq> gen_id ` set (generations d)"
      "set_option (gen_reservation_id h) \<subseteq> rsv_id ` set (reservations d)"
      using assms h unfolding chat_refs_def by blast+
    have kept: "gen_conversation_id h \<notin> set convs" "gen_user_message_id h \<notin> set msgs"
      "gen_assistant_message_id h \<notin> set msgs"
      using h(2) unfolding lost_def by blast+
    have "set_option (gen_parent_id g) \<subseteq> gen_id ` set (filter (\<lambda>g. \<not> lost g) (generations d))"
      using gh refs(4) gen by (cases "gen_parent_id h") (auto simp del: set_filter split: if_splits)
    moreover have "gen_conversation_id g = gen_conversation_id h"
      "gen_user_message_id g = gen_user_message_id h"
      "gen_assistant_message_id g = gen_assistant_message_id h"
      "gen_reservation_id g = gen_reservation_id h"
      using gh by simp_all
    ultimately show ?thesis
      using conv [OF refs(1) kept(1)] msg [OF refs(2) kept(2)] msg [OF refs(3) kept(3)] refs(5)
      by simp
  qed
  have "\<forall>m \<in> set (filter (\<lambda>m. \<not> lost_msg m) (messages d)).
      msg_conversation_id m \<in> conv_id ` set (filter (\<lambda>c. \<not> P c) (conversations d))"
    using assms conv unfolding chat_refs_def lost_msg_def by (simp del: set_map)
  moreover have "\<forall>s \<in> set (filter (\<lambda>s. sum_conversation_id s \<notin> set convs) (summaries d)).
      sum_conversation_id s \<in> conv_id ` set (filter (\<lambda>c. \<not> P c) (conversations d))"
    using assms conv unfolding chat_refs_def by simp
  moreover have "\<forall>l \<in> set (filter (\<lambda>l. led_generation_id l \<notin> set gens) (usage_ledger d)).
      led_generation_id l \<in> gen_id ` set ?gs"
    using assms gen unfolding chat_refs_def ids by simp
  ultimately show ?thesis
    using gs unfolding chat_refs_def d' by (simp add: ids del: set_filter)
qed

lemma cascade_user_frame [simp]:
  "users (cascade_user u d) = users d"
  "conversations (cascade_user u d) = filter (\<lambda>c. conv_user_id c \<noteq> Some u) (conversations d)"
  "daily_usage (cascade_user u d) = daily_usage d"
  "reservations (cascade_user u d) = reservations d"
  "identities (cascade_user u d) = filter (\<lambda>i. idn_user_id i \<noteq> u) (identities d)"
  "auth_sessions (cascade_user u d) = filter (\<lambda>s. ses_user_id s \<noteq> u) (auth_sessions d)"
  "terms (cascade_user u d) = filter (\<lambda>t. ta_user_id t \<noteq> u) (terms d)"
  "deletion_jobs (cascade_user u d) = upd_rows (\<lambda>j. job_user_id j = Some u)
     (\<lambda>j. j\<lparr>job_user_id := None\<rparr>) (deletion_jobs d)"
  "guest_sessions (cascade_user u d) = upd_rows (\<lambda>g. gst_migrated_user_id g = Some u)
     (\<lambda>g. g\<lparr>gst_migrated_user_id := None\<rparr>) (guest_sessions d)"
  "audit_log (cascade_user u d) = upd_rows (\<lambda>a. aud_actor a = Some u) (\<lambda>a. a\<lparr>aud_actor := None\<rparr>) (audit_log d)"
  "settings (cascade_user u d) = upd_rows (\<lambda>s. set_updated_by_user s = Some u)
     (\<lambda>s. s\<lparr>set_updated_by_user := None\<rparr>) (settings d)"
  by (simp_all add: cascade_user_def Let_def)

lemma cascade_user_conversations:
  "messages (cascade_user u d) = messages (delete_conversations (\<lambda>c. conv_user_id c = Some u) d)"
  "generations (cascade_user u d) = generations (delete_conversations (\<lambda>c. conv_user_id c = Some u) d)"
  "summaries (cascade_user u d) = summaries (delete_conversations (\<lambda>c. conv_user_id c = Some u) d)"
  "usage_ledger (cascade_user u d) = usage_ledger (delete_conversations (\<lambda>c. conv_user_id c = Some u) d)"
  "models (cascade_user u d) = models d" "providers (cascade_user u d) = providers d"
  "provider_models (cascade_user u d) = provider_models d"
  "outbox_events (cascade_user u d) = outbox_events d"
  "outbox_receipts (cascade_user u d) = outbox_receipts d"
  by (simp_all add: cascade_user_def Let_def)

lemma chat_refs_view:
  "chat_refs d' = chat_refs d"
  if "conversations d' = conversations d" "messages d' = messages d" "generations d' = generations d"
    "summaries d' = summaries d" "usage_ledger d' = usage_ledger d" "reservations d' = reservations d"
  using that by (simp add: chat_refs_def)

lemma delete_conversations_catalog_refs: "catalog_refs d \<Longrightarrow> catalog_refs (delete_conversations P d)"
  unfolding catalog_refs_def
  by (auto simp: delete_conversations_def Let_def set_upd_rows)

lemma catalog_refs_view:
  "catalog_refs d' = catalog_refs d"
  if "conversations d' = conversations d" "generations d' = generations d" "models d' = models d"
    "providers d' = providers d" "provider_models d' = provider_models d"
    "outbox_events d' = outbox_events d" "outbox_receipts d' = outbox_receipts d"
    "summaries d' = summaries d" "usage_ledger d' = usage_ledger d"
  using that by (simp add: catalog_refs_def)

text \<open>The rows that name a user.\<close>

definition mentions :: "uuid \<Rightarrow> database \<Rightarrow> bool" where
  "mentions u d \<longleftrightarrow>
     u \<in> usr_id ` set (users d) \<or> u \<in> idn_user_id ` set (identities d) \<or>
     u \<in> ses_user_id ` set (auth_sessions d) \<or> u \<in> ta_user_id ` set (terms d) \<or>
     Some u \<in> gst_migrated_user_id ` set (guest_sessions d) \<or>
     Some u \<in> conv_user_id ` set (conversations d) \<or> Some u \<in> aud_actor ` set (audit_log d) \<or>
     Some u \<in> set_updated_by_user ` set (settings d) \<or> Some u \<in> job_user_id ` set (deletion_jobs d)"

text \<open>What a successful deletion of a user does.\<close>

lemma delete_user_cases:
  assumes "delete_user_for_purge u d = Inr (n, d')"
  obtains (absent) "n = 0" "d' = d" "\<forall>r \<in> set (users d). usr_id r = u \<longrightarrow> usr_status r \<noteq> DeletionPending"
  | (deleted) r where "r \<in> set (users d)" "usr_id r = u" "usr_status r = DeletionPending"
      "d' = (cascade_user u d)\<lparr>users := filter (\<lambda>r. \<not> (usr_id r = u \<and> usr_status r = DeletionPending)) (users d)\<rparr>"
      "\<forall>g \<in> set (guest_sessions d). gst_migrated_user_id g = Some u \<longrightarrow> gst_migrated_at g = None" "n > 0"
proof (cases "\<exists>r \<in> set (users d). usr_id r = u \<and> usr_status r = DeletionPending")
  case False
  with assms absent show ?thesis
    by (auto simp: delete_user_for_purge_def Let_def list_ex_iff split: if_splits)
next
  case True
  then obtain r where r: "r \<in> set (users d)" "usr_id r = u" "usr_status r = DeletionPending" by blast
  then have "count_rows (\<lambda>r. usr_id r = u \<and> usr_status r = DeletionPending) (users d) > 0"
    using count_rows_0 [of "\<lambda>r. usr_id r = u \<and> usr_status r = DeletionPending" "users d"] by auto
  with True assms deleted [OF r] show ?thesis
    unfolding delete_user_for_purge_def Let_def guest_check_def
    by (fastforce simp: list_ex_iff split: if_splits)
qed

lemma user_gone:
  assumes "distinct (map usr_id (users d))" "r \<in> set (users d)" "usr_id r = u"
    "usr_status r = DeletionPending"
  shows "usr_id ` set (filter (\<lambda>r. \<not> (usr_id r = u \<and> usr_status r = DeletionPending)) (users d))
    = usr_id ` set (users d) - {u}"
  using assms by (auto simp: distinct_map inj_on_def image_iff)

lemma delete_user_erases:
  assumes "delete_user_for_purge u d = Inr (n, d')" "n > 0" "distinct (map usr_id (users d))"
  shows "\<not> mentions u d'"
proof (rule delete_user_cases [OF assms(1)])
  assume "n = 0" with assms(2) show ?thesis by simp
next
  fix r assume r: "r \<in> set (users d)" "usr_id r = u" "usr_status r = DeletionPending"
    and d': "d' = (cascade_user u d)\<lparr>users := filter (\<lambda>r. \<not> (usr_id r = u \<and> usr_status r = DeletionPending)) (users d)\<rparr>"
  have "u \<notin> usr_id ` set (users d')"
    unfolding d' using user_gone [OF assms(3) r] by (simp del: set_filter)
  then show ?thesis
    unfolding mentions_def d'
    by (auto simp: set_upd_rows cascade_user_def Let_def)
qed

lemma nulled_refs:
  "\<forall>r \<in> set xs. set_option (k r) \<subseteq> A \<Longrightarrow> (\<And>r. k (f r) = None) \<Longrightarrow>
   \<forall>r \<in> set (upd_rows (\<lambda>r. k r = Some u) f xs). set_option (k r) \<subseteq> A - {u}"
  by (auto simp: set_upd_rows)

lemma delete_user_foreign_keys:
  assumes "delete_user_for_purge u d = Inr (n, d')" "distinct (map usr_id (users d))" "foreign_keys d"
  shows "foreign_keys d'"
proof (rule delete_user_cases [OF assms(1)])
  assume "d' = d" then show ?thesis using assms by simp
next
  fix r assume r: "r \<in> set (users d)" "usr_id r = u" "usr_status r = DeletionPending"
    and d': "d' = (cascade_user u d)\<lparr>users := filter (\<lambda>r. \<not> (usr_id r = u \<and> usr_status r = DeletionPending)) (users d)\<rparr>"
  let ?d1 = "delete_conversations (\<lambda>c. conv_user_id c = Some u) d"
  have us: "usr_id ` set (users d') = usr_id ` set (users d) - {u}"
    unfolding d' using user_gone [OF assms(2) r] by (simp del: set_filter)
  have "chat_refs d'"
    using delete_conversations_chat_refs [of d "\<lambda>c. conv_user_id c = Some u"] assms(3)
    by (subst chat_refs_view [of d' ?d1]) (simp_all add: d' foreign_keys_def cascade_user_conversations)
  moreover have "catalog_refs d'"
    using delete_conversations_catalog_refs [of d "\<lambda>c. conv_user_id c = Some u"] assms(3)
    by (subst catalog_refs_view [of d' ?d1]) (simp_all add: d' foreign_keys_def cascade_user_conversations)
  moreover have "owner_refs d'"
    unfolding owner_refs_def us
  proof (intro ballI conjI)
    fix c assume "c \<in> set (conversations d')"
    then have c: "c \<in> set (conversations d)" "conv_user_id c \<noteq> Some u" by (simp_all add: d')
    with assms(3) show "set_option (conv_user_id c) \<subseteq> usr_id ` set (users d) - {u}"
      unfolding foreign_keys_def owner_refs_def by (cases "conv_user_id c") auto
    have "gst_id ` set (guest_sessions d') = gst_id ` set (guest_sessions d)"
      by (simp add: d' upd_rows_image)
    with assms(3) c show "set_option (conv_guest_id c) \<subseteq> gst_id ` set (guest_sessions d')"
      unfolding foreign_keys_def owner_refs_def by simp
  qed
  moreover have "account_refs d'"
  proof -
    have "\<forall>t \<in> set (refresh_tokens d'). rt_session_id t \<in> ses_id ` set (auth_sessions d')"
      using assms(3) survivors [of _ ses_id "auth_sessions d" "\<lambda>s. ses_user_id s = u"]
      by (simp add: d' cascade_user_def Let_def account_refs_def foreign_keys_def del: set_filter) simp
    moreover have "(\<forall>g \<in> set (guest_sessions d'). set_option (gst_migrated_user_id g) \<subseteq> usr_id ` set (users d) - {u}) \<and>
      (\<forall>a \<in> set (audit_log d'). set_option (aud_actor a) \<subseteq> usr_id ` set (users d) - {u}) \<and>
      (\<forall>s \<in> set (settings d'). set_option (set_updated_by_user s) \<subseteq> usr_id ` set (users d) - {u}) \<and>
      (\<forall>j \<in> set (deletion_jobs d'). set_option (job_user_id j) \<subseteq> usr_id ` set (users d) - {u})"
      using assms(3) unfolding account_refs_def foreign_keys_def
      by (simp add: d') (intro conjI; rule nulled_refs; simp)
    ultimately show ?thesis
      using assms(3) unfolding account_refs_def us foreign_keys_def
      by (simp add: d')
  qed
  ultimately show ?thesis by (simp add: foreign_keys_def)
qed

end
