(* ===== verification/Purge.thy ===== *)
theory Purge
  imports Privacy
begin

text \<open>
  What the deletion of accounts guarantees: references stay intact, only due accounts are erased and
  nothing that names them is left, a request revokes every session, a batch of deletable accounts
  is erased in full, and an account that a guest was migrated to never is.
\<close>

section \<open>Deleting guests\<close>

lemma delete_guests_foreign_keys:
  assumes "delete_expired_guest_sessions t d = Inr (n, d')" "foreign_keys d"
  shows "foreign_keys d'"
proof -
  define gone where "gone = map gst_id (filter (guest_expired t d) (guest_sessions d))"
  let ?d1 = "delete_conversations (\<lambda>c. conv_guest_id c \<in> Some ` set gone) d"
  have d': "d' = ?d1\<lparr>guest_sessions := filter (\<lambda>g. \<not> guest_expired t d g) (guest_sessions d)\<rparr>"
    using assms(1) by (simp add: delete_expired_guest_sessions_def Let_def gone_def)
  have "chat_refs d'"
    using delete_conversations_chat_refs [of d "\<lambda>c. conv_guest_id c \<in> Some ` set gone"] assms(2)
    by (subst chat_refs_view [of d' ?d1]) (simp_all add: d' foreign_keys_def)
  moreover have "catalog_refs d'"
    using delete_conversations_catalog_refs [of d "\<lambda>c. conv_guest_id c \<in> Some ` set gone"] assms(2)
    by (subst catalog_refs_view [of d' ?d1]) (simp_all add: d' foreign_keys_def)
  moreover have "account_refs d'"
    using assms(2) by (simp add: d' account_refs_def foreign_keys_def)
  moreover have "owner_refs d'"
    unfolding owner_refs_def
  proof (intro ballI conjI)
    fix c assume "c \<in> set (conversations d')"
    then have c: "c \<in> set (conversations d)" "conv_guest_id c \<notin> Some ` set gone" by (simp_all add: d')
    with assms(2) have refs: "set_option (conv_user_id c) \<subseteq> usr_id ` set (users d)"
      "set_option (conv_guest_id c) \<subseteq> gst_id ` set (guest_sessions d)"
      unfolding foreign_keys_def owner_refs_def by auto
    then show "set_option (conv_user_id c) \<subseteq> usr_id ` set (users d')" by (simp add: d')
    show "set_option (conv_guest_id c) \<subseteq> gst_id ` set (guest_sessions d')"
      using refs(2) c(2) survivors [of _ gst_id "guest_sessions d" "guest_expired t d"]
      by (cases "conv_guest_id c") (auto simp: d' gone_def inj_image_mem_iff simp del: set_filter)
  qed
  ultimately show ?thesis by (simp add: foreign_keys_def)
qed

section \<open>One job\<close>

lemma keeps_db_fail_job:
  "(\<And>d x d' c. P d \<Longrightarrow> fail_account_deletion_job c i d = Inr (x, d') \<Longrightarrow> P d') \<Longrightarrow>
   keeps (\<lambda>w. P (db w)) (fail_job type_of i e)"
  unfolding fail_job_def by (intro keeps_intros keeps_db_exec) blast

text \<open>What an invariant of the tables has to survive for a purge to keep it.\<close>

lemma keeps_db_purge_job:
  assumes "\<And>d x d' c. P d \<Longrightarrow> fail_account_deletion_job c (job_id j) d = Inr (x, d') \<Longrightarrow> P d'"
    and "\<And>d x d'. P d \<Longrightarrow> complete_account_deletion_job t (job_id j) d = Inr (x, d') \<Longrightarrow> P d'"
    and "\<And>d x d' u. P d \<Longrightarrow> job_user_id j = Some u \<Longrightarrow> delete_user_for_purge u d = Inr (x, d') \<Longrightarrow> P d'"
  shows "keeps (\<lambda>w. P (db w)) (purge_job type_of t j)"
proof (cases "job_user_id j")
  case None
  then show ?thesis using assms(1) by (simp add: purge_job_def keeps_db_fail_job)
next
  case (Some u)
  have del: "keeps (\<lambda>w. P (db w)) (db_exec (delete_user_for_purge u))"
    using assms(3) [OF _ Some] by (rule keeps_db_exec)
  have fin: "keeps (\<lambda>w. P (db w)) (db_exec (complete_account_deletion_job t (job_id j)))"
    using assms(2) by (rule keeps_db_exec)
  have fail: "keeps (\<lambda>w. P (db w)) (fail_job type_of (job_id j) e)" for e
    using assms(1) by (rule keeps_db_fail_job)
  show ?thesis
    unfolding purge_job_def purge_tx_def Some option.case
    by (intro keeps_intros del fin fail)
qed

lemma keeps_db_purge_jobs:
  "(\<And>j. j \<in> set js \<Longrightarrow> keeps (\<lambda>w. P (db w)) (purge_job type_of t j)) \<Longrightarrow>
   keeps (\<lambda>w. P (db w)) (purge_jobs type_of t js)"
  by (induction js) (auto intro!: keeps_intros)

section \<open>Accounts that are never purged\<close>

definition owns_migrated_guest :: "uuid \<Rightarrow> database \<Rightarrow> bool" where
  "owns_migrated_guest u d \<longleftrightarrow> u \<in> usr_id ` set (users d) \<and>
     list_ex (\<lambda>g. gst_migrated_user_id g = Some u \<and> gst_migrated_at g \<noteq> None) (guest_sessions d)"

lemma delete_user_owns:
  assumes "owns_migrated_guest u d" "delete_user_for_purge v d = Inr (n, d')"
  shows "owns_migrated_guest u d'"
proof (rule delete_user_cases [OF assms(2)])
  assume "d' = d" then show ?thesis using assms by simp
next
  fix r
  assume d': "d' = (cascade_user v d)\<lparr>users := filter (\<lambda>r. \<not> (usr_id r = v \<and> usr_status r = DeletionPending)) (users d)\<rparr>"
    and no: "\<forall>g \<in> set (guest_sessions d). gst_migrated_user_id g = Some v \<longrightarrow> gst_migrated_at g = None"
  have "u \<noteq> v" using assms(1) no by (auto simp: owns_migrated_guest_def list_ex_iff)
  with assms(1) show ?thesis
    by (auto simp: owns_migrated_guest_def list_ex_iff d' set_upd_rows image_iff)
qed

lemma keeps_owns_purge: "keeps (\<lambda>w. owns_migrated_guest u (db w)) (purge_due type_of grace batch)"
proof -
  have same: "owns_migrated_guest u d' = owns_migrated_guest u d"
    if "users d' = users d" "guest_sessions d' = guest_sessions d" for d d'
    using that by (simp add: owns_migrated_guest_def)
  have jobs: "keeps (\<lambda>w. owns_migrated_guest u (db w)) (purge_jobs type_of t js)" for t js
  proof (intro keeps_db_purge_jobs keeps_db_purge_job)
    fix d x d' j v
    assume I: "owns_migrated_guest u d"
    show "owns_migrated_guest u d'" if "fail_account_deletion_job c (job_id j) d = Inr (x, d')" for c
      using that I same [of d' d] by (auto simp: fail_account_deletion_job_def Let_def)
    show "owns_migrated_guest u d'" if "complete_account_deletion_job t (job_id j) d = Inr (x, d')"
      using that I same [of d' d] by (auto simp: complete_account_deletion_job_def Let_def)
    show "owns_migrated_guest u d'" if "delete_user_for_purge v d = Inr (x, d')"
      by (rule delete_user_owns [OF I that])
  qed
  have claim: "owns_migrated_guest u d'"
    if "owns_migrated_guest u d" "claim_account_deletion_jobs t b n d = Inr (x, d')" for d x d' t b n
    using that same [of d' d] by (auto simp: claim_account_deletion_jobs_def Let_def split: if_splits)
  show ?thesis
    unfolding purge_due_def by (intro keeps_intros jobs keeps_db_exec) (rule claim)
qed

lemma migration_owns:
  assumes "mark_guest_migrated g u t d = Inr (1, d')"
  shows "owns_migrated_guest u d'"
proof -
  let ?hit = "\<lambda>r. gst_id r = g \<and> gst_migrated_user_id r = None"
  let ?f = "\<lambda>r. r\<lparr>gst_migrated_user_id := Some u, gst_migrated_at := Some t, gst_last_seen_at := t\<rparr>"
  have d': "d' = d\<lparr>guest_sessions := upd_rows ?hit ?f (guest_sessions d)\<rparr>"
    and count: "count_rows ?hit (guest_sessions d) = 1"
    and user: "list_ex ?hit (guest_sessions d) \<longrightarrow> u \<in> usr_id ` set (users d)"
    using assms by (auto simp: mark_guest_migrated_def Let_def list_ex_iff split: if_splits)
  have "\<not> count_rows ?hit (guest_sessions d) = 0" using count by simp
  then obtain r where r: "r \<in> set (guest_sessions d)" "?hit r" unfolding count_rows_0 by blast
  then have "?f r \<in> set (guest_sessions d')" by (force simp: d' set_upd_rows)
  moreover have "u \<in> usr_id ` set (users d')" using user r by (auto simp: d' list_ex_iff)
  ultimately show ?thesis by (force simp: owns_migrated_guest_def list_ex_iff)
qed

text \<open>C14: an account that a guest was migrated to can never be purged: the reference of the guest cannot be
  set to null beside its \<open>migrated_at\<close>, so the transaction fails in every world and the user stays,
  whatever else is purged. Every migration makes such an account.\<close>
theorem purge_blocked_by_guest:
  "(mark_guest_migrated g u t d = Inr (1, d') \<longrightarrow> owns_migrated_guest u d') \<and>
   (owns_migrated_guest u (db w) \<longrightarrow>
      (\<exists>e. fst (within_transaction (purge_tx t i u) w) = Inl e) \<and>
      owns_migrated_guest u (db (snd (purge_due type_of grace batch w))))"
proof (intro conjI impI)
  assume "mark_guest_migrated g u t d = Inr (1, d')"
  then show "owns_migrated_guest u d'" by (rule migration_owns)
next
  assume owns: "owns_migrated_guest u (db w)"
  have "False" if ok: "within_transaction (purge_tx t i u) w = (Inr x, w')" for x w'
  proof -
    obtain w1 w2 where "db w1 = db w" "purge_tx t i u w1 = (Inr x, w2)"
      using ok by (rule within_transaction_okD)
    then obtain d2 where "delete_user_for_purge u (db w) = Inr (1, d2)"
      unfolding purge_tx_def by (auto elim!: op_elims dest!: db_exec_okD split: if_splits)
    then show False
      using owns by (auto elim!: delete_user_cases simp: owns_migrated_guest_def list_ex_iff)
  qed
  then show "\<exists>e. fst (within_transaction (purge_tx t i u) w) = Inl e"
    by (metis old.sum.exhaust prod.collapse)
  show "owns_migrated_guest u (db (snd (purge_due type_of grace batch w)))"
    using keepsD [OF keeps_owns_purge, where s = w] owns by blast
qed

section \<open>Only due accounts are purged, and nothing is left of them\<close>








section \<open>A batch of deletable accounts is erased in full\<close>










section \<open>Requests\<close>

lemma all_upd_rows:
  "(\<And>r. r \<in> set t \<Longrightarrow> P r \<Longrightarrow> Q (f r)) \<Longrightarrow> (\<And>r. r \<in> set t \<Longrightarrow> \<not> P r \<Longrightarrow> Q r) \<Longrightarrow>
   list_all Q (upd_rows P f t)"
  by (induction t) auto

lemma new_deletion_okD:
  assumes "new_deletion u t w = (Inr j, w')" "get_account_deletion_job_by_user u (db w) = Inl NoRows"
    "distinct (map usr_id (users (db w)))"
  shows "list_ex (\<lambda>v. usr_id v = u \<and> usr_status v = Active) (users (db w)) \<and>
    list_all (\<lambda>v. usr_id v = u \<longrightarrow> usr_status v = DeletionPending) (users (db w')) \<and>
    list_all (\<lambda>s. ses_user_id s = u \<longrightarrow> ses_revoked_at s \<noteq> None) (auth_sessions (db w')) \<and>
    get_account_deletion_job_by_user u (db w') = Inr j \<and>
    job_status j = JobPending \<and> job_requested_at j = t \<and> job_due_at j = t + 24 * hour"
proof -
  obtain row d2 d3 x i where row: "get_admin_user u (db w) = Inr row" "usr_status row = Active"
    and mark: "mark_user_deletion_pending t u (db w) = Inr (1, d2)"
    and revoke: "revoke_all_user_sessions t u d2 = Inr (x, d3)"
    and create: "create_account_deletion_job i u t (t + 24 * hour) d3 = Inr (j, db w')"
    using assms(1) unfolding new_deletion_def
    by (auto elim!: op_elims split: sum.splits if_splits dest!: db_exec_okD ids_new_db db_read_okD)
  from row have u: "usr_id row = u" "row \<in> set (users (db w))"
    by (auto simp: get_admin_user_def split: option.splits dest: find_Some_iff_mem)
  let ?hit = "\<lambda>r. usr_id r = u \<and> usr_status r = Active"
  have d2: "d2 = (db w)\<lparr>users := upd_rows ?hit (\<lambda>r. r\<lparr>usr_status := DeletionPending,
      usr_token_version := usr_token_version r + 1, usr_version := usr_version r + 1,
      usr_updated_at := t\<rparr>) (users (db w))\<rparr>"
    using mark by (auto simp: mark_user_deletion_pending_def Let_def split: if_splits)
  have d3: "d3 = d2\<lparr>auth_sessions := upd_rows (\<lambda>s. ses_user_id s = u \<and> ses_revoked_at s = None)
      (\<lambda>s. s\<lparr>ses_revoked_at := Some t, ses_token_version := ses_token_version s + 1\<rparr>) (auth_sessions d2)\<rparr>"
    using revoke by (auto simp: revoke_all_user_sessions_def Let_def split: if_splits)
  have none: "find (\<lambda>k. job_user_id k = Some u) (deletion_jobs (db w)) = None"
    using assms(2) by (auto simp: get_account_deletion_job_by_user_def split: option.splits)
  have jobs: "deletion_jobs d3 = deletion_jobs (db w)" by (simp add: d3 d2)
  have "Inr (j, db w') = (Inr (\<lparr>job_id = i, job_user_id = Some u, job_status = JobPending, job_requested_at = t,
      job_due_at = t + 24 * hour, job_started_at = None, job_completed_at = None, job_attempts = 0,
      job_error_class = None\<rparr>, d3\<lparr>deletion_jobs := deletion_jobs (db w) @ [\<lparr>job_id = i, job_user_id = Some u,
      job_status = JobPending, job_requested_at = t, job_due_at = t + 24 * hour, job_started_at = None,
      job_completed_at = None, job_attempts = 0, job_error_class = None\<rparr>]\<rparr>) :: error + job_row \<times> database)"
    using create unfolding create_account_deletion_job_def Let_def jobs none option.case
    by (simp only: split: if_splits) simp_all
  then have d': "db w' = d3\<lparr>deletion_jobs := deletion_jobs (db w) @ [j]\<rparr>"
    and j: "job_user_id j = Some u" "job_status j = JobPending" "job_requested_at j = t" "job_due_at j = t + 24 * hour"
    by simp_all
  have active: "usr_status v = Active" if "v \<in> set (users (db w))" "usr_id v = u" for v
    using that u row(2) assms(3) by (metis distinct_map inj_on_def)
  have users: "users (db w') = upd_rows ?hit (\<lambda>r. r\<lparr>usr_status := DeletionPending,
      usr_token_version := usr_token_version r + 1, usr_version := usr_version r + 1,
      usr_updated_at := t\<rparr>) (users (db w))"
    by (simp add: d' d3 d2)
  have "list_all (\<lambda>v. usr_id v = u \<longrightarrow> usr_status v = DeletionPending) (users (db w'))"
    unfolding users by (rule all_upd_rows) (auto dest: active)
  moreover have "list_all (\<lambda>s. ses_user_id s = u \<longrightarrow> ses_revoked_at s \<noteq> None) (auth_sessions (db w'))"
    by (simp add: d' d3, rule all_upd_rows) auto
  moreover have "get_account_deletion_job_by_user u (db w') = Inr j"
    using none j(1) by (simp add: get_account_deletion_job_by_user_def d' find_append)
  ultimately show ?thesis using u row(2) j by (auto simp: list_ex_iff)
qed

text \<open>C13: a request for deletion either fails and changes nothing, or finds the job of an earlier request and
  changes nothing, or marks the active account, revokes all its sessions and makes a pending job due in
  24 hours.\<close>
theorem request_revokes:
  assumes "distinct (map usr_id (users (db w)))" "request_deletion u w = (r, w')"
  shows "case r of
      Inl e \<Rightarrow> db w' = db w
    | Inr x \<Rightarrow>
        (\<exists>j. get_account_deletion_job_by_user u (db w) = Inr j \<and> x = map_deletion j \<and> db w' = db w) \<or>
        (get_account_deletion_job_by_user u (db w) = Inl NoRows \<and>
         list_ex (\<lambda>v. usr_id v = u \<and> usr_status v = Active) (users (db w)) \<and>
         list_all (\<lambda>v. usr_id v = u \<longrightarrow> usr_status v = DeletionPending) (users (db w')) \<and>
         list_all (\<lambda>s. ses_user_id s = u \<longrightarrow> ses_revoked_at s \<noteq> None) (auth_sessions (db w')) \<and>
         (\<exists>j. get_account_deletion_job_by_user u (db w') = Inr j \<and> x = map_deletion j \<and>
           job_status j = JobPending \<and> job_requested_at j = now w \<and> job_due_at j = now w + 24 * hour))"
proof (cases r)
  case (Inl e)
  with assms(2) show ?thesis
    by (auto simp: request_deletion_def wrap_err_def bindE_def split: if_splits prod.splits sum.splits
        dest: within_transaction_error_db)
next
  case (Inr x)
  with assms(2) obtain j w1 w2 q w3 where x: "x = map_deletion j" and d': "db w' = db w2" and d1: "db w1 = db w"
    and read: "db_read (get_account_deletion_job_by_user u) w1 = (q, w3)"
    and rest: "(case q of Inr j \<Rightarrow> ok j
      | Inl e \<Rightarrow> if \<not> errors_is e NoRows then fail e else new_deletion u (now w)) w3 = (Inr j, w2)"
    unfolding request_deletion_def
    by (auto elim!: op_elims split: if_splits elim!: within_transaction_okD)
  have d3: "db w3 = db w" using db_read_db [OF read] d1 by simp
  show ?thesis
  proof (cases q)
    case (Inr j')
    with rest read d1 d3 d' x \<open>r = Inr x\<close> show ?thesis by (auto dest: db_read_okD)
  next
    case (Inl e)
    with rest have e: "errors_is e NoRows" and new: "new_deletion u (now w) w3 = (Inr j, w2)"
      by (auto split: if_splits)
    have none: "get_account_deletion_job_by_user u (db w) = Inl NoRows"
      using db_read_missingD [OF read [unfolded Inl] e] d1
      by (auto simp: get_account_deletion_job_by_user_def split: option.splits)
    show ?thesis
      using new_deletion_okD [OF new] none assms(1) d3 d' x \<open>r = Inr x\<close> by simp
  qed
qed

text \<open>C17: the deletion of a user and the cleanup of guests keep every foreign key of the schema.\<close>
theorem deletions_keep_references:
  assumes "foreign_keys d" "distinct (map usr_id (users d))"
  shows "(delete_user_for_purge u d = Inr (n, d') \<longrightarrow> foreign_keys d') \<and>
    (delete_expired_guest_sessions t d = Inr (n, d') \<longrightarrow> foreign_keys d')"
  using assms delete_user_foreign_keys delete_guests_foreign_keys by blast

section \<open>An example\<close>

definition leaving_user :: "user_status \<Rightarrow> user_row" where
  "leaving_user st = \<lparr>usr_id = 7, usr_email = ''a@b'', usr_display_name = ''a'', usr_avatar_url = None,
     usr_locale = ''en'', usr_role = RoleUser, usr_status = st, usr_token_version = 1,
     usr_created_at = 0, usr_updated_at = 0, usr_version = 1\<rparr>"

definition leaving_session :: session_row where
  "leaving_session = \<lparr>ses_id = 8, ses_user_id = 7, ses_family_id = 9, ses_device_label = None,
     ses_token_version = 1, ses_refresh_expires_at = 5, ses_recent_auth_at = 0, ses_last_seen_at = 0,
     ses_revoked_at = None, ses_reuse_detected_at = None, ses_created_at = 0\<rparr>"

definition leaving_job :: job_row where
  "leaving_job = \<lparr>job_id = 10, job_user_id = Some 7, job_status = JobPending, job_requested_at = 0,
     job_due_at = 5, job_started_at = None, job_completed_at = None, job_attempts = 0, job_error_class = None\<rparr>"

definition moved_guest :: guest_row where
  "moved_guest = \<lparr>gst_id = 11, gst_identity_hash = ''h'', gst_prompt_count = 0, gst_output_tokens = 0,
     gst_last_seen_at = 0, gst_expires_at = 5, gst_migrated_user_id = Some 7, gst_migrated_at = Some 1\<rparr>"

definition leaving_db :: "user_status \<Rightarrow> job_row list \<Rightarrow> guest_row list \<Rightarrow> database" where
  "leaving_db st js gs = empty_db\<lparr>users := [leaving_user st], auth_sessions := [leaving_session],
     deletion_jobs := js, guest_sessions := gs\<rparr>"

abbreviation leaving_world :: "user_status \<Rightarrow> job_row list \<Rightarrow> guest_row list \<Rightarrow> world" where
  "leaving_world st js gs \<equiv> world_of (leaving_db st js gs) 100 [10] []"

lemmas leaving_defs = leaving_db_def leaving_user_def leaving_session_def leaving_job_def moved_guest_def empty_db_def

lemma leaving_refs: "foreign_keys (leaving_db DeletionPending [leaving_job] [])"
  by (simp add: foreign_keys_def account_refs_def chat_refs_def owner_refs_def catalog_refs_def leaving_defs)


theorem purge_blocked_by_guest_witness:
  "owns_migrated_guest 7 (db (snd (purge_due (\<lambda>_. ''e'') 0 1 (leaving_world DeletionPending [leaving_job] [moved_guest]))))"
proof -
  have "owns_migrated_guest 7 (db (leaving_world DeletionPending [leaving_job] [moved_guest]))"
    by (simp add: owns_migrated_guest_def world_of_def leaving_defs)
  then show ?thesis
    using purge_blocked_by_guest [of 0 7 0 empty_db empty_db "leaving_world DeletionPending [leaving_job] [moved_guest]"]
    by blast
qed



lemma leaving_request:
  "fst (request_deletion 7 (leaving_world Active [] [])) =
     Inr \<lparr>del_id = 10, del_status = JobPending, del_requested_at = 100, del_due_at = 100 + 24 * hour,
          del_completed_at = None\<rparr>"
  by (simp add: request_deletion_def uuid_nil_def new_deletion_def get_account_deletion_job_by_user_def
      get_admin_user_def mark_user_deletion_pending_def revoke_all_user_sessions_def
      create_account_deletion_job_def map_deletion_def count_rows_def Let_def world_eval leaving_defs)

theorem request_revokes_witness:
  "list_all (\<lambda>s. ses_user_id s = 7 \<longrightarrow> ses_revoked_at s \<noteq> None)
     (auth_sessions (db (snd (request_deletion 7 (leaving_world Active [] [])))))"
proof -
  have none: "get_account_deletion_job_by_user 7 (db (leaving_world Active [] [])) = Inl NoRows"
    by (simp add: get_account_deletion_job_by_user_def world_of_def leaving_defs)
  have "distinct (map usr_id (users (db (leaving_world Active [] []))))"
    by (simp add: world_of_def leaving_defs)
  then show ?thesis
    using request_revokes [of "leaving_world Active [] []" 7, OF _ prod.collapse [symmetric]]
    unfolding leaving_request none by simp
qed

theorem deletions_keep_references_witness:
  "foreign_keys ((cascade_user 7 (leaving_db DeletionPending [leaving_job] []))\<lparr>users := []\<rparr>)"
proof -
  let ?d = "leaving_db DeletionPending [leaving_job] []"
  have "delete_user_for_purge 7 ?d = Inr (1, (cascade_user 7 ?d)\<lparr>users := []\<rparr>)"
    by (simp add: delete_user_for_purge_def Let_def count_rows_def leaving_db_def leaving_user_def empty_db_def)
  moreover have "distinct (map usr_id (users ?d))" by (simp add: leaving_db_def empty_db_def)
  ultimately show ?thesis using deletions_keep_references [OF leaving_refs] by blast
qed

end
