(* ===== verification/Outbox.thy ===== *)
theory Outbox
  imports Chat Sync
begin

text \<open>
  \<open>internal/platform/outbox/outbox.go\<close> with its queries of \<open>store/platform.sql.go\<close>: events are claimed
  under a lock of the worker, handled once (a receipt is written in the transaction that completes the
  event), retried with growing delays and dead-lettered when their attempts are spent. The handlers
  are parameters; the goroutines of a batch run one after the other. \<open>type_of\<close> is the Go type of an
  error, \<open>ob_lock\<close> the answer of \<open>pg_try_advisory_lock\<close>.
\<close>

section \<open>Queries\<close>

definition enqueue_outbox_event ::
  "uuid \<Rightarrow> string \<Rightarrow> json \<Rightarrow> string \<Rightarrow> time \<Rightarrow> time \<Rightarrow> database \<Rightarrow> error + unit \<times> database" where
  "enqueue_outbox_event i event_type payload key available t d =
     (if event_type = [] \<or> byte (hd event_type) \<notin> {97..122} \<or> tl event_type = []
         \<or> \<not> list_all (\<lambda>c. byte c \<in> {97..122} \<or> byte c \<in> {48..57} \<or> c \<in> set ''_.-'') (tl event_type)
      then Inl (check_violation ''outbox_events_event_type_check'')
      else if list_ex (\<lambda>e. obx_key e = key) (outbox_events d) then Inr ((), d)
      else if list_ex (\<lambda>e. obx_id e = i) (outbox_events d) then Inl (unique_violation ''outbox_events_pkey'')
      else Inr ((), d\<lparr>outbox_events := outbox_events d @ [\<lparr>obx_id = i, obx_type = event_type,
        obx_payload = payload, obx_key = key, obx_attempts = 0, obx_available_at = available,
        obx_locked_at = None, obx_locked_by = None, obx_processed_at = None, obx_dead_at = None,
        obx_error_class = None, obx_created_at = t\<rparr>]\<rparr>))"

definition get_outbox_event_by_key :: "string \<Rightarrow> database \<Rightarrow> error + outbox_row" where
  "get_outbox_event_by_key key d =
     (case find (\<lambda>e. obx_key e = key) (outbox_events d) of None \<Rightarrow> Inl NoRows | Some e \<Rightarrow> Inr e)"

definition claimable :: "time \<Rightarrow> time \<Rightarrow> outbox_row \<Rightarrow> bool" where
  "claimable t expired e \<longleftrightarrow> obx_processed_at e = None \<and> obx_dead_at e = None \<and> obx_available_at e \<le> t \<and>
     (case obx_locked_at e of None \<Rightarrow> True | Some l \<Rightarrow> l < expired)"

definition claim_event :: "time \<Rightarrow> string \<Rightarrow> outbox_row \<Rightarrow> outbox_row" where
  "claim_event t worker e =
     e\<lparr>obx_locked_at := Some t, obx_locked_by := Some worker, obx_attempts := obx_attempts e + 1\<rparr>"

definition claim_batch :: "time \<Rightarrow> time \<Rightarrow> nat \<Rightarrow> database \<Rightarrow> outbox_row list" where
  "claim_batch t expired n d =
     take n (sort_key obx_available_at (sort_key obx_created_at (filter (claimable t expired) (outbox_events d))))"

definition claim_outbox_events ::
  "time \<Rightarrow> string \<Rightarrow> time \<Rightarrow> nat \<Rightarrow> database \<Rightarrow> error + outbox_row list \<times> database" where
  "claim_outbox_events t worker expired n d =
     (let es = claim_batch t expired n d
      in if list_ex (\<lambda>e. obx_attempts e + 1 \<ge> 2 ^ 31) es then Inl out_of_range
         else Inr (map (claim_event t worker) es, d\<lparr>outbox_events :=
           upd_rows (\<lambda>e. obx_id e \<in> obx_id ` set es) (claim_event t worker) (outbox_events d)\<rparr>))"

definition has_outbox_receipt :: "uuid \<Rightarrow> string \<Rightarrow> database \<Rightarrow> error + bool" where
  "has_outbox_receipt i handler d = Inr ((i, handler) \<in> set (outbox_receipts d))"

definition record_outbox_receipt :: "uuid \<Rightarrow> string \<Rightarrow> database \<Rightarrow> error + unit \<times> database" where
  "record_outbox_receipt i handler d =
     (if (i, handler) \<in> set (outbox_receipts d) then Inr ((), d)
      else if \<not> list_ex (\<lambda>e. obx_id e = i) (outbox_events d)
      then Inl (foreign_key_violation ''outbox_receipts_event_id_fkey'')
      else Inr ((), d\<lparr>outbox_receipts := outbox_receipts d @ [(i, handler)]\<rparr>))"

text \<open>The three ways an event leaves its lock: \<open>WHERE id = .. AND locked_by = .. AND processed_at IS NULL\<close>.\<close>

definition held_event :: "uuid \<Rightarrow> string \<Rightarrow> outbox_row \<Rightarrow> bool" where
  "held_event i worker e \<longleftrightarrow> obx_id e = i \<and> obx_locked_by e = Some worker \<and> obx_processed_at e = None"

definition update_events ::
  "(outbox_row \<Rightarrow> bool) \<Rightarrow> (outbox_row \<Rightarrow> outbox_row) \<Rightarrow> database \<Rightarrow> error + int \<times> database" where
  "update_events hit f d =
     (if list_ex (\<lambda>e. hit e \<and> obx_processed_at (f e) \<noteq> None \<and> obx_dead_at (f e) \<noteq> None) (outbox_events d)
      then Inl (check_violation ''outbox_events_check'')
      else Inr (int (count_rows hit (outbox_events d)),
                d\<lparr>outbox_events := upd_rows hit f (outbox_events d)\<rparr>))"

definition complete_outbox_event :: "uuid \<Rightarrow> string \<Rightarrow> time \<Rightarrow> database \<Rightarrow> error + int \<times> database" where
  "complete_outbox_event i worker t = update_events (held_event i worker)
     (\<lambda>e. e\<lparr>obx_processed_at := Some t, obx_locked_at := None, obx_locked_by := None, obx_error_class := None\<rparr>)"

definition dead_letter_outbox_event ::
  "uuid \<Rightarrow> string \<Rightarrow> time \<Rightarrow> string \<Rightarrow> database \<Rightarrow> error + int \<times> database" where
  "dead_letter_outbox_event i worker t c = update_events (held_event i worker)
     (\<lambda>e. e\<lparr>obx_dead_at := Some t, obx_locked_at := None, obx_locked_by := None, obx_error_class := Some c\<rparr>)"

definition retry_outbox_event ::
  "uuid \<Rightarrow> string \<Rightarrow> time \<Rightarrow> string \<Rightarrow> database \<Rightarrow> error + int \<times> database" where
  "retry_outbox_event i worker available c = update_events (held_event i worker)
     (\<lambda>e. e\<lparr>obx_available_at := available, obx_locked_at := None, obx_locked_by := None,
          obx_error_class := Some c\<rparr>)"

section \<open>The runner\<close>

record outbox_event =
  oe_id :: string
  oe_type :: string
  oe_payload :: json

record outbox_options =
  oo_worker :: string
  oo_batch :: int
  oo_max_attempts :: int
  oo_lock_ttl :: time
  oo_poll_every :: time

record outbox_runner =
  ob_options :: outbox_options
  ob_handlers :: "string \<Rightarrow> (outbox_event \<Rightarrow> (world, unit) op) option"
  ob_lock :: "string \<Rightarrow> (world, bool) op"
  ob_type_of :: "error \<Rightarrow> string"

definition new_runner ::
  "(string \<Rightarrow> (outbox_event \<Rightarrow> (world, unit) op) option) \<Rightarrow> outbox_options \<Rightarrow> (string \<Rightarrow> (world, bool) op) \<Rightarrow>
   (error \<Rightarrow> string) \<Rightarrow> error + outbox_runner" where
  "new_runner handlers opts lock type_of =
     (if oo_worker opts = [] \<or> oo_batch opts \<le> 0 \<or> oo_max_attempts opts \<le> 0 \<or> oo_lock_ttl opts \<le> 0
         \<or> oo_poll_every opts \<le> 0
      then Inl (Msg ''outbox runner options must be positive and WorkerID must be set'')
      else Inr \<lparr>ob_options = opts, ob_handlers = handlers, ob_lock = lock, ob_type_of = type_of\<rparr>)"

text \<open>
  \<open>time.Second * time.Duration(math.Pow(2, float64(attempts-1)))\<close>, at most an hour: nanoseconds in 64
  bits. From 2^63 on the conversion of the float is the smallest integer (as on amd64).
\<close>

definition retry_delay_ns :: "int \<Rightarrow> int" where
  "retry_delay_ns a =
     (let p = (if a - 1 < 63 then 2 ^ nat (a - 1) else - (2 ^ 63));
          delay = int64 (1000000000 * p)
      in if delay > 3600000000000 then 3600000000000 else delay)"

definition fail_event :: "outbox_runner \<Rightarrow> outbox_row \<Rightarrow> error \<Rightarrow> (world, unit) op" where
  "fail_event R e cause =
     bindE clock_now (\<lambda>t.
     if obx_attempts e \<ge> oo_max_attempts (ob_options R)
     then bindE (wrap_err ''dead-letter outbox event'' (db_exec (dead_letter_outbox_event (obx_id e)
            (oo_worker (ob_options R)) t (ob_type_of R cause)))) (\<lambda>_. ok ())
     else bindE (wrap_err ''schedule outbox retry'' (db_exec (retry_outbox_event (obx_id e)
            (oo_worker (ob_options R)) (t + retry_delay_ns (obx_attempts e) div 1000) (ob_type_of R cause))))
            (\<lambda>_. ok ()))"

definition handler_name :: "outbox_row \<Rightarrow> string" where
  "handler_name e = obx_type e @ ''.v1''"

definition complete_event :: "outbox_runner \<Rightarrow> outbox_row \<Rightarrow> (world, unit) op" where
  "complete_event R e =
     bindE clock_now (\<lambda>t. within_transaction (
       bindE (wrap_err ''record outbox receipt'' (db_exec (record_outbox_receipt (obx_id e) (handler_name e)))) (\<lambda>_.
       bindE (wrap_err ''complete outbox event'' (db_exec (complete_outbox_event (obx_id e)
         (oo_worker (ob_options R)) t))) (\<lambda>updated.
       if updated \<noteq> 1 then fail (Msg ''outbox event lock was lost before completion'') else ok ()))))"

definition process_locked :: "outbox_runner \<Rightarrow> outbox_row \<Rightarrow> (world, unit) op" where
  "process_locked R e =
     (case ob_handlers R (obx_type e) of
        None \<Rightarrow> fail_event R e (Msg ''outbox handler is not registered'')
      | Some handle \<Rightarrow>
          bindE (wrap_err ''read outbox receipt'' (db_read (has_outbox_receipt (obx_id e) (handler_name e)))) (\<lambda>handled.
          if handled then complete_event R e
          else
            bindE (attempt (handle \<lparr>oe_id = uuid_string (obx_id e), oe_type = obx_type e,
              oe_payload = obx_payload e\<rparr>)) (\<lambda>r.
            case r of Inl x \<Rightarrow> fail_event R e x | Inr _ \<Rightarrow> complete_event R e)))"

definition process_event :: "outbox_runner \<Rightarrow> outbox_row \<Rightarrow> (world, unit) op" where
  "process_event R e =
     bindE (with_advisory_lock (ob_lock R) (''outbox:'' @ uuid_string (obx_id e)) (process_locked R e))
       (\<lambda>_. ok ())"

fun process_events :: "outbox_runner \<Rightarrow> outbox_row list \<Rightarrow> (world, error list) op" where
  "process_events R [] = ok []"
| "process_events R (e # es) =
     bindE (attempt (process_event R e)) (\<lambda>r.
     bindE (process_events R es) (\<lambda>errs.
     ok (case r of Inl x \<Rightarrow> x # errs | Inr _ \<Rightarrow> errs)))"

definition run_once :: "outbox_runner \<Rightarrow> (world, int \<times> error list) op" where
  "run_once R =
     bindE clock_now (\<lambda>t.
     bindE (wrap_err ''claim outbox events'' (db_exec (claim_outbox_events t (oo_worker (ob_options R))
       (t - oo_lock_ttl (ob_options R)) (nat (oo_batch (ob_options R)))))) (\<lambda>es.
     bindE (process_events R es) (\<lambda>errs. ok (int (length es), errs))))"

section \<open>Delays\<close>

text \<open>C26: an event is tried again after 1, 2, 4, .. seconds and at most an hour; the multiplication of
  nanoseconds does not overflow below 35 attempts.\<close>
theorem retry_delay_bounds:
  assumes "1 \<le> a" "a \<le> 34"
  shows "retry_delay_ns a = min (1000000000 * 2 ^ nat (a - 1)) 3600000000000 \<and>
    0 < retry_delay_ns a \<and> (a \<le> 12 \<longrightarrow> retry_delay_ns a = 1000000000 * 2 ^ nat (a - 1))"
proof -
  have "(2::int) ^ nat (a - 1) \<le> 2 ^ 33" using assms by (intro power_increasing) auto
  then have p: "(2::int) ^ nat (a - 1) \<le> 8589934592" by simp
  have pos: "0 < (2::int) ^ nat (a - 1)" by simp
  have "int64 (1000000000 * 2 ^ nat (a - 1)) = 1000000000 * 2 ^ nat (a - 1)"
  proof (rule int64_id)
    show "- (2 ^ 63) \<le> 1000000000 * (2::int) ^ nat (a - 1)" using pos by (simp add: order.trans [of _ 0])
    show "1000000000 * (2::int) ^ nat (a - 1) < 2 ^ 63" using p by simp
  qed
  then have d: "retry_delay_ns a = min (1000000000 * 2 ^ nat (a - 1)) 3600000000000"
    using assms by (auto simp: retry_delay_ns_def Let_def min_def)
  have "retry_delay_ns a = 1000000000 * 2 ^ nat (a - 1)" if "a \<le> 12"
  proof -
    have "(2::int) ^ nat (a - 1) \<le> 2 ^ 11" using assms that by (intro power_increasing) auto
    then show ?thesis using d by simp
  qed
  then show ?thesis using d pos by (simp add: min_def)
qed

theorem retry_delay_bounds_witness: "retry_delay_ns 7 = 64000000000"
  using retry_delay_bounds [of 7] by simp

section \<open>The invariant\<close>

text \<open>
  Ids are keys, an event that is over is not locked and not both processed and dead, and a receipt
  is there exactly as long as its event.
\<close>

definition event_ok :: "outbox_row \<Rightarrow> bool" where
  "event_ok e \<longleftrightarrow> (obx_locked_by e = None) = (obx_locked_at e = None) \<and> 0 \<le> obx_attempts e \<and>
     (obx_processed_at e \<noteq> None \<longrightarrow> obx_dead_at e = None \<and> obx_locked_by e = None) \<and>
     (obx_dead_at e \<noteq> None \<longrightarrow> obx_locked_by e = None)"

definition outbox_ok :: "database \<Rightarrow> bool" where
  "outbox_ok d \<longleftrightarrow> distinct (map obx_id (outbox_events d)) \<and> distinct (map obx_key (outbox_events d)) \<and>
     list_all event_ok (outbox_events d) \<and> distinct (outbox_receipts d) \<and>
     set (map fst (outbox_receipts d)) \<subseteq> set (map obx_id (outbox_events d))"

text \<open>How an event may change: it keeps its identity and contents, its attempts only grow, and once it is
  processed or dead it stays as it is.\<close>

definition event_moves :: "outbox_row \<Rightarrow> outbox_row \<Rightarrow> bool" where
  "event_moves e e' \<longleftrightarrow> obx_id e' = obx_id e \<and> obx_type e' = obx_type e \<and> obx_payload e' = obx_payload e \<and>
     obx_key e' = obx_key e \<and> obx_attempts e \<le> obx_attempts e' \<and>
     (obx_processed_at e \<noteq> None \<or> obx_dead_at e \<noteq> None \<longrightarrow> e' = e)"

definition outbox_moves :: "database \<Rightarrow> database \<Rightarrow> bool" where
  "outbox_moves d d' \<longleftrightarrow> outbox_ok d' \<and>
     list_all (\<lambda>e. list_ex (event_moves e) (outbox_events d')) (outbox_events d) \<and>
     set (outbox_receipts d) \<subseteq> set (outbox_receipts d')"

lemma event_moves_refl [simp]: "event_moves e e"
  by (simp add: event_moves_def)

lemma event_moves_trans: "event_moves e f \<Longrightarrow> event_moves f g \<Longrightarrow> event_moves e g"
  unfolding event_moves_def by (metis order_trans)

lemma outbox_moves_refl: "outbox_ok d \<Longrightarrow> outbox_moves d d"
  unfolding outbox_moves_def list_all_iff list_ex_iff by (blast intro: event_moves_refl)

lemma outbox_moves_trans: "outbox_moves d e \<Longrightarrow> outbox_moves e f \<Longrightarrow> outbox_moves d f"
  unfolding outbox_moves_def list_all_iff list_ex_iff by (meson event_moves_trans order_trans)

text \<open>An update of the events that respects all this.\<close>

lemma update_moves:
  assumes ok: "outbox_ok d" and d': "d' = d\<lparr>outbox_events := upd_rows hit f (outbox_events d)\<rparr>"
    and f: "\<And>e. e \<in> set (outbox_events d) \<Longrightarrow> hit e \<Longrightarrow> event_ok e \<Longrightarrow> event_moves e (f e) \<and> event_ok (f e)"
    and keys: "\<And>e. obx_id (f e) = obx_id e" "\<And>e. obx_key (f e) = obx_key e"
  shows "outbox_moves d d'"
proof -
  have each: "event_ok e" if "e \<in> set (outbox_events d)" for e
    using that ok by (auto simp: outbox_ok_def list_all_iff)
  have "list_all event_ok (upd_rows hit f (outbox_events d))"
    unfolding upd_rows_def list.pred_map comp_def list_all_iff using each f by auto
  moreover have "list_ex (event_moves e) (upd_rows hit f (outbox_events d))" if e: "e \<in> set (outbox_events d)" for e
  proof -
    have "event_moves e (if hit e then f e else e)" using f [OF e] each [OF e] by simp
    then show ?thesis using e unfolding list_ex_iff upd_rows_def by (simp only: set_map) (rule bexI; blast)
  qed
  ultimately show ?thesis
    using ok keys unfolding outbox_moves_def outbox_ok_def d'
    by (simp add: map_upd_rows_same list_all_iff del: set_map)
qed

lemma held_update_moves:
  assumes "update_events (held_event i worker) f d = Inr (n, d')" "outbox_ok d"
    and "\<And>e. held_event i worker e \<Longrightarrow> event_ok e \<Longrightarrow> event_moves e (f e) \<and> event_ok (f e)"
    and "\<And>e. obx_id (f e) = obx_id e" "\<And>e. obx_key (f e) = obx_key e"
  shows "outbox_moves d d'"
proof (rule update_moves [OF assms(2) _ _ assms(4,5)])
  show "d' = d\<lparr>outbox_events := upd_rows (held_event i worker) f (outbox_events d)\<rparr>"
    using assms(1) by (simp add: update_events_def split: if_splits)
qed (rule assms(3))

lemma complete_moves:
  "complete_outbox_event i worker t d = Inr (n, d') \<Longrightarrow> outbox_ok d \<Longrightarrow> outbox_moves d d'"
  unfolding complete_outbox_event_def
  by (erule held_update_moves) (auto simp: held_event_def event_moves_def event_ok_def)

lemma dead_letter_moves:
  "dead_letter_outbox_event i worker t c d = Inr (n, d') \<Longrightarrow> outbox_ok d \<Longrightarrow> outbox_moves d d'"
  unfolding dead_letter_outbox_event_def
  by (erule held_update_moves) (auto simp: held_event_def event_moves_def event_ok_def)

lemma retry_moves:
  "retry_outbox_event i worker t c d = Inr (n, d') \<Longrightarrow> outbox_ok d \<Longrightarrow> outbox_moves d d'"
  unfolding retry_outbox_event_def
  by (erule held_update_moves) (auto simp: held_event_def event_moves_def event_ok_def)

lemma record_moves:
  assumes "record_outbox_receipt i h d = Inr (x, d')" "outbox_ok d"
  shows "outbox_moves d d'"
proof (cases "(i, h) \<in> set (outbox_receipts d)")
  case True with assms show ?thesis by (simp add: record_outbox_receipt_def outbox_moves_refl)
next
  case False
  with assms(1) have "i \<in> obx_id ` set (outbox_events d)"
    "d' = d\<lparr>outbox_receipts := outbox_receipts d @ [(i, h)]\<rparr>"
    by (auto simp: record_outbox_receipt_def list_ex_iff split: if_splits)
  with assms(2) False outbox_moves_refl [OF assms(2)] show ?thesis
    by (simp add: outbox_moves_def outbox_ok_def) blast
qed

lemma enqueue_moves:
  assumes "enqueue_outbox_event i ty p k av t d = Inr (x, d')" "outbox_ok d"
  shows "outbox_moves d d'"
proof (cases "list_ex (\<lambda>e. obx_key e = k) (outbox_events d)")
  case True with assms show ?thesis by (simp add: enqueue_outbox_event_def outbox_moves_refl split: if_splits)
next
  case False
  let ?e = "\<lparr>obx_id = i, obx_type = ty, obx_payload = p, obx_key = k, obx_attempts = 0,
    obx_available_at = av, obx_locked_at = None, obx_locked_by = None, obx_processed_at = None,
    obx_dead_at = None, obx_error_class = None, obx_created_at = t\<rparr>"
  have d': "d' = d\<lparr>outbox_events := outbox_events d @ [?e]\<rparr>" and "i \<notin> obx_id ` set (outbox_events d)"
    using False assms(1) by (auto simp: enqueue_outbox_event_def list_ex_iff split: if_splits)
  moreover have "k \<notin> obx_key ` set (outbox_events d)" using False by (auto simp: list_ex_iff)
  moreover have "event_ok ?e" by (simp add: event_ok_def)
  ultimately show ?thesis
    using assms(2) outbox_moves_refl [OF assms(2)] unfolding outbox_moves_def outbox_ok_def
    by (auto simp: list_all_iff list_ex_iff)
qed

lemma claim_moves:
  assumes "claim_outbox_events t worker expired n d = Inr (es, d')" "outbox_ok d"
  shows "outbox_moves d d'"
proof (rule update_moves [OF assms(2)])
  let ?es = "claim_batch t expired n d"
  show "d' = d\<lparr>outbox_events := upd_rows (\<lambda>e. obx_id e \<in> obx_id ` set ?es) (claim_event t worker) (outbox_events d)\<rparr>"
    using assms(1) by (simp add: claim_outbox_events_def Let_def split: if_splits)
  fix e assume e: "e \<in> set (outbox_events d)" "obx_id e \<in> obx_id ` set ?es" "event_ok e"
  have sub: "x \<in> set (outbox_events d) \<and> claimable t expired x" if "x \<in> set ?es" for x
    using in_set_takeD [OF that [unfolded claim_batch_def]] by simp
  obtain x where x: "x \<in> set ?es" "obx_id e = obx_id x" using e(2) by blast
  then have "e = x"
    using assms(2) sub [OF x(1)] e(1) unfolding outbox_ok_def distinct_map by (blast dest: inj_onD)
  with sub [OF x(1)] have "claimable t expired e" by simp
  with e(3) show "event_moves e (claim_event t worker e) \<and> event_ok (claim_event t worker e)"
    by (simp add: claimable_def claim_event_def event_moves_def event_ok_def)
qed (simp_all add: claim_event_def)

section \<open>What a cycle of the runner does\<close>

text \<open>
  The interface of the handlers: whatever they do, they leave the outbox alone. The lemmas of the
  locale hold for every runner with such handlers.
\<close>

definition outbox_view :: "(database \<Rightarrow> bool) \<Rightarrow> bool" where
  "outbox_view P \<longleftrightarrow> (\<forall>d d'. outbox_events d' = outbox_events d \<longrightarrow> outbox_receipts d' = outbox_receipts d \<longrightarrow> P d' = P d)"

locale outbox_handlers =
  fixes R :: outbox_runner
  assumes handler_view: "ob_handlers R ty = Some h \<Longrightarrow> outbox_view P \<Longrightarrow> keeps (\<lambda>w. P (db w)) (h ev)"
    and lock_view: "outbox_view P \<Longrightarrow> keeps (\<lambda>w. P (db w)) (ob_lock R k)"
begin

lemma moves_view: "outbox_view (outbox_moves d)"
  by (simp add: outbox_view_def outbox_moves_def outbox_ok_def)

lemma keeps_moves_exec:
  assumes "\<And>e x e'. q e = Inr (x, e') \<Longrightarrow> outbox_ok e \<Longrightarrow> outbox_moves e e'"
  shows "keeps (\<lambda>w. outbox_moves d (db w)) (db_exec q)"
proof (rule keeps_db_exec)
  fix e x e' assume moved: "outbox_moves d e" and q: "q e = Inr (x, e')"
  from moved have "outbox_ok e" by (simp add: outbox_moves_def)
  from assms [OF q this] show "outbox_moves d e'" by (rule outbox_moves_trans [OF moved])
qed

lemma keeps_moves_queries:
  "keeps (\<lambda>w. outbox_moves d (db w)) (db_exec (complete_outbox_event i worker t))"
  "keeps (\<lambda>w. outbox_moves d (db w)) (db_exec (dead_letter_outbox_event i worker t c))"
  "keeps (\<lambda>w. outbox_moves d (db w)) (db_exec (retry_outbox_event i worker t c))"
  "keeps (\<lambda>w. outbox_moves d (db w)) (db_exec (record_outbox_receipt i n))"
  "keeps (\<lambda>w. outbox_moves d (db w)) (db_exec (claim_outbox_events t worker u b))"
  by (rule keeps_moves_exec, erule (1) complete_moves dead_letter_moves retry_moves record_moves claim_moves)+

lemma keeps_moves_fail: "keeps (\<lambda>w. outbox_moves d (db w)) (fail_event R e x)"
  unfolding fail_event_def by (intro keeps_intros keeps_moves_queries)

lemma keeps_moves_complete: "keeps (\<lambda>w. outbox_moves d (db w)) (complete_event R e)"
  unfolding complete_event_def by (intro keeps_intros keeps_moves_queries)

lemma keeps_moves_locked: "keeps (\<lambda>w. outbox_moves d (db w)) (process_locked R e)"
proof (cases "ob_handlers R (obx_type e)")
  case None
  then show ?thesis by (simp add: process_locked_def keeps_moves_fail)
next
  case (Some h)
  show ?thesis
    unfolding process_locked_def Some option.case
    by (intro keeps_intros keeps_moves_complete keeps_moves_fail handler_view [OF Some] moves_view)
qed

lemma keeps_moves_process: "keeps (\<lambda>w. outbox_moves d (db w)) (process_event R e)"
proof -
  have unlock: "keeps (\<lambda>w. outbox_moves d (db w)) (call (ok ()))" by (rule keeps_db_call) simp
  show ?thesis
    unfolding process_event_def with_advisory_lock_def
    by (intro keeps_intros unlock lock_view moves_view keeps_moves_locked)
qed

lemma keeps_moves_events: "keeps (\<lambda>w. outbox_moves d (db w)) (process_events R es)"
  by (induction es) (auto intro!: keeps_intros keeps_moves_process)

lemma keeps_moves_run: "keeps (\<lambda>w. outbox_moves d (db w)) (run_once R)"
  unfolding run_once_def by (intro keeps_intros keeps_moves_queries keeps_moves_events)

end

section \<open>The worker\<close>

text \<open>
  The handler of \<open>cmd/worker/main.go\<close> synchronizes the catalog of a provider; the catalogs the
  gateways answer with and the answers of the advisory lock are parameters.
\<close>

definition sync_event_code :: "json \<Rightarrow> string option" where
  "sync_event_code j =
     (case j of JNull \<Rightarrow> Some [] | JObj _ \<Rightarrow> as_string (json_field ''providerCode'' j) | _ \<Rightarrow> None)"

definition sync_handler ::
  "text_tables \<Rightarrow> (string \<Rightarrow> (error + upstream_model list) option) \<Rightarrow> outbox_event \<Rightarrow> (world, unit) op" where
  "sync_handler T catalogs ev =
     (case sync_event_code (oe_payload ev) of
        None \<Rightarrow> fail (Wrap ''decode model sync event'' (Msg ''json: cannot unmarshal into Go value''))
      | Some code \<Rightarrow>
          (case catalogs code of
             None \<Rightarrow> fail (Msg ''model sync gateway is not configured'')
           | Some r \<Rightarrow> bindE (sync_models T code (Some (call (of_sum r))) (oe_id ev)) (\<lambda>_. ok ())))"

definition worker_runner ::
  "text_tables \<Rightarrow> (string \<Rightarrow> (error + upstream_model list) option) \<Rightarrow> (string \<Rightarrow> bool) \<Rightarrow> (error \<Rightarrow> string) \<Rightarrow>
   string \<Rightarrow> outbox_runner" where
  "worker_runner T catalogs granted type_of worker =
     \<lparr>ob_options = \<lparr>oo_worker = worker, oo_batch = 20, oo_max_attempts = 8, oo_lock_ttl = 5 * minute,
        oo_poll_every = second\<rparr>,
      ob_handlers = (\<lambda>ty. if ty = ''models.sync'' then Some (sync_handler T catalogs) else None),
      ob_lock = (\<lambda>k. call (ok (granted k))), ob_type_of = type_of\<rparr>"

lemma outbox_view_exec:
  assumes "outbox_view P" "\<And>d x d'. q d = Inr (x, d') \<Longrightarrow> outbox_events d' = outbox_events d \<and> outbox_receipts d' = outbox_receipts d"
  shows "keeps (\<lambda>w. P (db w)) (db_exec q)"
  using assms by (intro keeps_db_exec) (metis outbox_view_def)

lemma keeps_view_sync_queries:
  assumes "outbox_view P"
  shows "keeps (\<lambda>w. P (db w)) (db_exec (insert_admin_audit a))"
    "keeps (\<lambda>w. P (db w)) (db_exec (upsert_provider_model p m u j t))"
    "keeps (\<lambda>w. P (db w)) (db_exec (mark_provider_models_unavailable p us t))"
    "keeps (\<lambda>w. P (db w)) (db_exec refresh_model_availability)"
    "keeps (\<lambda>w. P (db w)) (db_exec (create_discovered_model i s n win out caps ord))"
  by (rule outbox_view_exec [OF assms]; auto simp: insert_admin_audit_def upsert_provider_model_def
      mark_provider_models_unavailable_def refresh_model_availability_def create_discovered_model_def Let_def split: if_splits option.splits)+

lemma keeps_view_discover: "outbox_view P \<Longrightarrow> keeps (\<lambda>w. P (db w)) (discover_model T u ord request)"
  unfolding discover_model_def audit_discovery_def by (intro keeps_intros keeps_view_sync_queries)

lemma keeps_view_sync_each: "outbox_view P \<Longrightarrow> keeps (\<lambda>w. P (db w)) (sync_each T p before t request n ms)"
  by (induction ms arbitrary: n)
    (auto simp: sync_one_def intro!: keeps_intros keeps_view_sync_queries keeps_view_discover)

lemma keeps_view_audit_changes: "outbox_view P \<Longrightarrow> keeps (\<lambda>w. P (db w)) (audit_changes before request ms)"
  by (induction ms) (auto simp: audit_change_def intro!: keeps_intros keeps_view_sync_queries split: option.splits)

lemma keeps_view_sync_tx: "outbox_view P \<Longrightarrow> keeps (\<lambda>w. P (db w)) (sync_tx T code catalog t request)"
  unfolding sync_tx_def
  by (intro keeps_intros keeps_view_sync_queries keeps_view_sync_each keeps_view_audit_changes)

lemma keeps_view_answer: "keeps (\<lambda>w. P (db w)) (call (of_sum r))"
  by (rule keeps_db_call) simp

lemma keeps_view_sync_models:
  "outbox_view P \<Longrightarrow> keeps (\<lambda>w. P (db w)) (sync_models T code (Some (call (of_sum r))) request)"
  unfolding sync_models_def option.case
  by (intro keeps_intros keeps_view_sync_tx keeps_view_answer)

lemma keeps_view_handler: "outbox_view P \<Longrightarrow> keeps (\<lambda>w. P (db w)) (sync_handler T catalogs ev)"
  unfolding sync_handler_def by (intro keeps_intros keeps_view_sync_models)

interpretation wr: outbox_handlers "worker_runner T catalogs granted type_of worker" for T catalogs granted type_of worker
proof
  fix ty h ev and P :: "database \<Rightarrow> bool" and k
  show "keeps (\<lambda>w. P (db w)) (h ev)"
    if "ob_handlers (worker_runner T catalogs granted type_of worker) ty = Some h" "outbox_view P"
    using that keeps_view_handler by (auto simp: worker_runner_def split: if_splits)
  show "keeps (\<lambda>w. P (db w)) (ob_lock (worker_runner T catalogs granted type_of worker) k)"
    by (simp add: worker_runner_def) (rule keeps_db_call, simp)
qed

text \<open>Histories: events are enqueued, time passes, and workers of any name run cycles.\<close>

inductive outbox_runs :: "world \<Rightarrow> world \<Rightarrow> bool" where
  idle: "outbox_runs w w"
| enqueued: "outbox_runs w v \<Longrightarrow>
    db_exec (enqueue_outbox_event i ty payload key available (now v)) v = (r, u) \<Longrightarrow> outbox_runs w u"
| passed: "outbox_runs w v \<Longrightarrow> outbox_runs w (v\<lparr>now := t, faults := fs\<rparr>)"
| cycle: "outbox_runs w v \<Longrightarrow> run_once (worker_runner T catalogs granted type_of worker) v = (x, u) \<Longrightarrow>
    outbox_runs w u"

text \<open>C18: in every history of enqueueing and of cycles of workers, with any handler results, faults and lock
  answers, ids and keys stay unique, no event is both processed and dead or locked when it is over,
  every event stays with its contents, an event that is over never changes again, and receipts stay.\<close>
theorem outbox_history:
  assumes "outbox_runs w w'" "outbox_ok (db w)"
  shows "outbox_moves (db w) (db w')"
  using assms
proof (induction rule: outbox_runs.induct)
  case (idle w)
  then show ?case by (rule outbox_moves_refl)
next
  case (enqueued w v i ty payload key available r u)
  then have moved: "outbox_moves (db w) (db v)" and ok: "outbox_ok (db v)" by (simp_all add: outbox_moves_def)
  show ?case
  proof (cases r)
    case (Inl e)
    with enqueued.hyps(2) have "db u = db v" by (auto dest: db_exec_errD)
    with moved show ?thesis by simp
  next
    case (Inr x)
    with db_exec_okD [of _ v x u] enqueued.hyps(2) ok
    have "outbox_moves (db v) (db u)" by (auto intro: enqueue_moves)
    with moved show ?thesis by (rule outbox_moves_trans)
  qed
next
  case (passed w v t fs)
  then show ?case by simp
next
  case (cycle w v T catalogs granted type_of worker x u)
  then have moved: "outbox_moves (db w) (db v)" by simp
  show ?case using keepsD_eq [OF wr.keeps_moves_run, where s = v, OF moved cycle.hyps(2)] .
qed

lemma complete_event_recorded:
  assumes "(obx_id e, handler_name e) \<in> set (outbox_receipts (db w))" "complete_event R e w = (r, w')"
  shows "db w' = db w \<or>
    complete_outbox_event (obx_id e) (oo_worker (ob_options R)) (now w) (db w) = Inr (1, db w')"
proof (cases r)
  case (Inl x)
  with assms(2) show ?thesis
    by (auto simp: complete_event_def bindE_def clock_now_def dest: within_transaction_error_db)
next
  case (Inr x)
  have same: "record_outbox_receipt (obx_id e) (handler_name e) (db w) = Inr ((), db w)"
    using assms(1) by (simp add: record_outbox_receipt_def)
  from Inr assms(2) show ?thesis
    unfolding complete_event_def
    by (auto elim!: op_elims within_transaction_okD split: if_splits dest!: db_exec_okD simp: same)
qed

text \<open>C19: once the receipt of an event is there its handler is not run again: processing the event does the
  same whatever the handler is, and at most completes the event.\<close>
theorem outbox_handled_once:
  assumes "(obx_id e, handler_name e) \<in> set (outbox_receipts (db w))"
    "ob_handlers R (obx_type e) = Some h" "process_locked R e w = (r, w')"
  shows "process_locked (R\<lparr>ob_handlers := (ob_handlers R)(obx_type e := Some h')\<rparr>) e w = (r, w') \<and>
    (db w' = db w \<or> complete_outbox_event (obx_id e) (oo_worker (ob_options R)) (now w) (db w) = Inr (1, db w'))"
proof -
  let ?read = "wrap_err ''read outbox receipt'' (db_read (has_outbox_receipt (obx_id e) (handler_name e)))"
  obtain x w1 where read: "?read w = (x, w1)" by fastforce
  have there: "x = Inr True \<or> (\<exists>y. x = Inl y)" and same: "db w1 = db w" "now w1 = now w"
    using read assms(1) by (auto simp: wrap_err_def db_read_def has_outbox_receipt_def
        split: prod.splits sum.splits elim!: call_cases)
  have eq: "complete_event (R\<lparr>ob_handlers := H\<rparr>) e = complete_event R e" for H
    by (simp add: complete_event_def)
  show ?thesis
  proof (cases x)
    case (Inl y)
    with read assms(2,3) same show ?thesis by (auto simp: process_locked_def)
  next
    case (Inr b)
    with there have "b = True" by simp
    with Inr read assms(2,3) have run: "complete_event R e w1 = (r, w')" by (simp add: process_locked_def)
    then have "process_locked (R\<lparr>ob_handlers := (ob_handlers R)(obx_type e := Some h')\<rparr>) e w = (r, w')"
      using read Inr \<open>b = True\<close> by (simp add: process_locked_def eq)
    moreover have "db w' = db w \<or>
        complete_outbox_event (obx_id e) (oo_worker (ob_options R)) (now w) (db w) = Inr (1, db w')"
      using complete_event_recorded [OF _ run] assms(1) same by simp
    ultimately show ?thesis ..
  qed
qed

section \<open>An example\<close>

definition demo_event :: outbox_row where
  "demo_event = \<lparr>obx_id = 5, obx_type = ''models.sync'', obx_payload = JNull, obx_key = ''k'',
     obx_attempts = 1, obx_available_at = 0, obx_locked_at = Some 1, obx_locked_by = Some ''w'',
     obx_processed_at = None, obx_dead_at = None, obx_error_class = None, obx_created_at = 0\<rparr>"

definition outbox_world :: "(uuid \<times> string) list \<Rightarrow> world" where
  "outbox_world rs = world_of (empty_db\<lparr>outbox_events := [demo_event], outbox_receipts := rs\<rparr>) 100 [] []"

abbreviation demo_runner :: outbox_runner where
  "demo_runner \<equiv> worker_runner \<lparr>tt_lower = id, tt_upper = id, tt_letter = (\<lambda>_. False), tt_digit = (\<lambda>_. False),
     tt_hex_sha256 = id\<rparr> (\<lambda>_. None) (\<lambda>_. True) (\<lambda>_. ''e'') ''w''"

theorem outbox_handled_once_witness:
  "process_locked (demo_runner\<lparr>ob_handlers := (ob_handlers demo_runner)(''models.sync'' := Some (\<lambda>_. ok ()))\<rparr>) demo_event
     (outbox_world [(5, ''models.sync.v1'')]) =
   process_locked demo_runner demo_event (outbox_world [(5, ''models.sync.v1'')])"
proof -
  have receipt: "(obx_id demo_event, handler_name demo_event) \<in> set (outbox_receipts (db (outbox_world [(5, ''models.sync.v1'')])))"
    by (simp add: demo_event_def handler_name_def outbox_world_def world_of_def)
  have ty: "obx_type demo_event = ''models.sync''" by (simp add: demo_event_def)
  have handler: "ob_handlers demo_runner (obx_type demo_event) = Some (sync_handler \<lparr>tt_lower = id, tt_upper = id,
      tt_letter = (\<lambda>_. False), tt_digit = (\<lambda>_. False), tt_hex_sha256 = id\<rparr> (\<lambda>_. None))"
    by (simp add: ty worker_runner_def)
  show ?thesis
    using conjunct1 [OF outbox_handled_once [OF receipt handler prod.collapse [symmetric], of "\<lambda>_. ok ()"]]
    unfolding ty by simp
qed

theorem outbox_history_witness:
  "outbox_moves (db (outbox_world [])) (db (snd (run_once demo_runner (outbox_world []))))"
proof (rule outbox_history)
  show "outbox_runs (outbox_world []) (snd (run_once demo_runner (outbox_world [])))"
    by (rule outbox_runs.cycle [OF outbox_runs.idle prod.collapse [symmetric]])
  show "outbox_ok (db (outbox_world []))"
    by (simp add: outbox_ok_def outbox_world_def world_of_def demo_event_def event_ok_def empty_db_def)
qed

end
