(* ===== verification/Spec2Isabelle.thy ===== *)
theory Spec2Isabelle
  imports Quota Guests Sync ConversationLaws Streams Purge Outbox
begin

text \<open>
  A verification development for the Glazz chat API (\<open>src/apps/api\<close>, Go): a service that lets guests
  and signed-in users chat with models of a provider, under daily quotas, with its state in
  PostgreSQL and Redis.

  The model is a shallow embedding. A service method is a function of the same name from a \<open>world\<close>
  (database, Redis, clock, ids and random tokens to come, a schedule of faults) to a result, \<open>Inl\<close> an
  error or \<open>Inr\<close> a value, and a new world. Every query is a function on the \<open>database\<close> record with
  the constraints of the migrations as error branches. Every call that leaves the process asks the
  fault schedule first, so a theorem without a hypothesis on \<open>faults\<close> holds whatever call fails.

  Parts, bottom up (paths under \<open>src/apps/api\<close>):

  \<^item> \<open>Prelude\<close>: base types, Go errors, the operations \<open>op\<close> with \<open>bindE\<close>, \<open>attempt\<close>, \<open>deferred\<close>, the
    collections \<open>op_elims\<close> (taking successful runs apart) and \<open>keeps_intros\<close> (what an operation
    keeps), tables as lists of rows.
  \<^item> \<open>Gostring\<close>, \<open>Json\<close>, \<open>JsonLaws\<close>, \<open>Cursor\<close>: the parts of the Go library the program computes with
    (UTF-8, trimming, \<open>encoding/json\<close>, base64, RFC 3339) and that decoding inverts encoding.
  \<^item> \<open>Schema\<close>, \<open>World\<close>, \<open>Redis\<close>: rows and tables (\<open>platform/store/models.go\<close>), queries, transactions
    (\<open>platform/database\<close>), ids (\<open>platform/ids\<close>) and the Redis client (\<open>platform/redisx\<close>) with expiring
    keys, leases, counters and the sorted sets of the event log.
  \<^item> \<open>Settings\<close> (\<open>internal/settings\<close>) and \<open>Quota\<close> (\<open>internal/quota\<close>): the cached runtime settings;
    reservations that charge the actor and the service and settlements that refund, with the
    lease that admits one generation per actor. The locale \<open>quota_contract\<close> states what the service
    relies on, \<open>settings_cache\<close> what the cache keeps; both are interpreted on the Redis client. The main property is the balance of all counters in
    every history.
  \<^item> \<open>Http\<close>, \<open>Guests\<close>, \<open>Sessions\<close>, \<open>Users\<close> (\<open>platform/httpx\<close>, \<open>internal/guests\<close>, \<open>internal/identity\<close>):
    middleware, signed guest cookies, access tokens and rotating refresh tokens, provisioning of
    accounts and migration of guests. Invariants hold in every history; a token used twice revokes
    its family.
  \<^item> \<open>Privacy\<close>, \<open>Purge\<close> (\<open>internal/privacy\<close>): deletion of accounts and expired guests with the cascades
    of the schema. Deletions keep every foreign key; only due accounts are erased, and nothing that names
    them is left; a batch of deletable accounts is erased in full; but the account a guest was migrated
    to never is, because a CHECK of \<open>guest_sessions\<close> rejects the cascade.
  \<^item> \<open>Catalog\<close>, \<open>Sync\<close> (\<open>internal/models\<close>): listing and selecting models, the configured provider, the
    synchronization with a provider's catalog. \<open>Gateway\<close> (\<open>internal/provider\<close>): the circuit breaker and
    slots around a provider, the event stream of an OpenAI-compatible one, the deterministic one.
  \<^item> \<open>Conversations\<close>, \<open>ConversationLaws\<close> (\<open>internal/conversations\<close>): the operations on conversations;
    isolation of the actors, idempotent creation, complete pagination.
  \<^item> \<open>Realtime\<close> (\<open>internal/realtime\<close>): one-use tickets, the event log that is replayed (a refinement of
    the list of events the actor was sent), and the loops of a connection as a step relation.
  \<^item> \<open>ChatStore\<close>, \<open>Chat\<close>, \<open>Safety\<close>, \<open>ChatInv\<close>, \<open>ChatLaws\<close>, \<open>Streams\<close> (\<open>internal/chat\<close>): a prompt is accepted,
    retried or cancelled; a stream writes what the gateway delivers and ends its generation. The
    safety rules are regular expressions as values of a datatype, with a matcher and a declarative
    meaning. \<open>ChatInv\<close> proves the invariant of messages, generations and ledger over all histories
    in the locale \<open>chat_env\<close> (what the service's sources leave alone), interpreted on the service
    \<open>cmd/api/main.go\<close> builds; \<open>Streams\<close> proves that every stream ends and closes its generation.

  \<^item> \<open>Outbox\<close> (\<open>platform/outbox\<close>, \<open>cmd/worker\<close>): the runner that claims events, handles them once and
    retries or dead-letters them. The locale \<open>outbox_handlers\<close> states that handlers leave the outbox
    alone; it is interpreted on the worker, whose handler is the synchronization of \<open>Sync\<close>.

  Bounds and fuel. Loops of the source are structural recursion or have a termination proof; the JSON
  parser runs with the length of its text as fuel, which \<open>JsonLaws\<close> shows to be enough; a stream is a
  recursion over the answers of the gateway. Integers keep their width where the source converts
  (\<open>int32\<close>, \<open>int64\<close>) and where a column overflows (\<open>out_of_range\<close>).

  Parameters. Code outside the repository is an argument: hashes and HMAC, the JWT library, tables of
  Unicode, the UUID, URL and address parsers, PostgreSQL's text search, the Go type name of an error,
  the transcript a provider answers with, the answer of an advisory lock.

  Simplifications. The clock stands still within one operation and counts microseconds. Concurrent
  operations are sequences of whole transactions; goroutines of a connection are steps of a relation.
  A \<open>text\<close> column is asked for valid UTF-8 without the zero byte only where the code can store what a
  client or a provider sent. \<open>time.Parse\<close> is its strict path. The order of rows that \<open>UPDATE .. RETURNING\<close>
  leaves open is the order of the candidates.

  Not modelled: the generated API types and routes, the HTTP handlers that translate between them
  and the services, configuration, wiring, migrations, telemetry and logging, the body of the request sent to an
  OpenAI-compatible provider, and the parts listed so in the manifest.
\<close>

end
